(* ===== verification/Prelude.thy ===== *)
theory Prelude
  imports Main "HOL-Library.Word" "HOL-Library.Sublist"
begin

unbundle bit_operations_syntax

text \<open>
  What every component of the development shares: the machine integers of the Rust source, the
  result type of fallible code, the combinators that sequence fallible stateful operations
  (\<open>bindE\<close> is the question-mark operator), the frame rules about them, and the string
  functions of the Rust standard library the source relies on (\<open>split_once\<close>,
  \<open>strip_prefix\<close>, decimal and hexadecimal printing, \<open>str::parse\<close> for unsigned integers).
  A Rust \<open>String\<close> is its list of UTF-8 bytes, so \<open>length\<close> is \<open>String::len\<close>.
\<close>

section \<open>Machine integers and results\<close>

type_synonym u8 = "8 word"
type_synonym u16 = "16 word"
type_synonym u32 = "32 word"
type_synonym u64 = "64 word"
type_synonym u128 = "128 word"

named_theorems frame \<open>the combinators leave a part of the state alone\<close>
named_theorems blind \<open>operations leave a view that is blind to what they change alone\<close>
named_theorems files \<open>operations leave the files they do not name alone\<close>

definition saturating_inc :: "'a::len word \<Rightarrow> 'a word" where
  "saturating_inc x = (if x = - 1 then x else x + 1)"

lemma unat_saturating_inc: "x \<noteq> - 1 \<Longrightarrow> unat (saturating_inc x) = Suc (unat x)"
  by (simp add: saturating_inc_def unatSuc add.commute [of x] eq_neg_iff_add_eq_0)

lemma saturating_inc_less: "x \<noteq> - 1 \<Longrightarrow> x < saturating_inc x"
  by (simp add: word_less_nat_alt unat_saturating_inc)

lemma saturating_inc_le [simp]: "x \<le> saturating_inc x"
proof (cases "x = - 1")
  case True
  then show ?thesis by (simp add: saturating_inc_def)
next
  case False
  then show ?thesis by (rule order_less_imp_le [OF saturating_inc_less])
qed

fun map_err :: "('e \<Rightarrow> 'f) \<Rightarrow> 'e + 'a \<Rightarrow> 'f + 'a" where
  "map_err f (Inl e) = Inl (f e)"
| "map_err f (Inr x) = Inr x"

fun ok_or :: "'e \<Rightarrow> 'a option \<Rightarrow> 'e + 'a" where
  "ok_or e None = Inl e"
| "ok_or e (Some x) = Inr x"

fun result_ok :: "'e + 'a \<Rightarrow> 'a option" where
  "result_ok (Inl e) = None"
| "result_ok (Inr x) = Some x"

fun is_ok :: "'e + 'a \<Rightarrow> bool" where
  "is_ok (Inl e) = False"
| "is_ok (Inr x) = True"

text \<open>\<open>ensure!\<close>, and the pure question-mark operator.\<close>

definition ensure :: "bool \<Rightarrow> 'e \<Rightarrow> 'e + unit" where
  "ensure b e = (if b then Inr () else Inl e)"

fun bindR :: "'e + 'a \<Rightarrow> ('a \<Rightarrow> 'e + 'b) \<Rightarrow> 'e + 'b" where
  "bindR (Inl e) k = Inl e"
| "bindR (Inr x) k = k x"

lemma bindR_Inr: "bindR m k = Inr y \<longleftrightarrow> (\<exists>x. m = Inr x \<and> k x = Inr y)"
  by (cases m) auto

lemma bindR_Inl: "bindR m k = Inl e \<longleftrightarrow> m = Inl e \<or> (\<exists>x. m = Inr x \<and> k x = Inl e)"
  by (cases m) auto

lemma ensure_Inr [simp]: "ensure b e = Inr u \<longleftrightarrow> b"
  by (simp add: ensure_def)

lemma ensure_Inl [simp]: "ensure b e = Inl f \<longleftrightarrow> \<not> b \<and> f = e"
  by (auto simp: ensure_def)

text \<open>Runs a fallible check over a list, stopping at the first error (a \<open>for\<close> loop with \<open>?\<close>).\<close>

fun traverse :: "('a \<Rightarrow> 'e + 'b) \<Rightarrow> 'a list \<Rightarrow> 'e + 'b list" where
  "traverse f [] = Inr []"
| "traverse f (x # xs) = bindR (f x) (\<lambda>y. bindR (traverse f xs) (\<lambda>ys. Inr (y # ys)))"

lemma traverse_Inr: "traverse f xs = Inr ys \<longleftrightarrow> list_all2 (\<lambda>x y. f x = Inr y) xs ys"
  by (induction xs arbitrary: ys) (auto simp: bindR_Inr list_all2_Cons1)

section \<open>Sequencing fallible stateful operations\<close>

text \<open>
  A fallible operation is a function from the state to a result and the new state. The new state
  is there on both branches: an operation that fails half way leaves its first effects behind.
\<close>

type_synonym ('s, 'e, 'a) op = "'s \<Rightarrow> ('e + 'a) \<times> 's"

definition okE :: "'a \<Rightarrow> ('s, 'e, 'a) op" where
  "okE x s = (Inr x, s)"

definition failE :: "'e \<Rightarrow> ('s, 'e, 'a) op" where
  "failE e s = (Inl e, s)"

definition liftE :: "'e + 'a \<Rightarrow> ('s, 'e, 'a) op" where
  "liftE r s = (r, s)"

definition bindE :: "('s, 'e, 'a) op \<Rightarrow> ('a \<Rightarrow> ('s, 'e, 'b) op) \<Rightarrow> ('s, 'e, 'b) op" where
  "bindE m k s = (case m s of (Inl e, t) \<Rightarrow> (Inl e, t) | (Inr x, t) \<Rightarrow> k x t)"

text \<open>Runs an operation and hands its result, error included, to the continuation (a \<open>match\<close>).\<close>

definition tryE :: "('s, 'e, 'a) op \<Rightarrow> ('e + 'a \<Rightarrow> 's \<Rightarrow> 'r) \<Rightarrow> 's \<Rightarrow> 'r" where
  "tryE m k s = (case m s of (r, t) \<Rightarrow> k r t)"

definition mapErrE :: "('e \<Rightarrow> 'f) \<Rightarrow> ('s, 'e, 'a) op \<Rightarrow> ('s, 'f, 'a) op" where
  "mapErrE f m s = (case m s of (r, t) \<Rightarrow> (map_err f r, t))"

text \<open>Runs an operation for its effect and drops its result (\<open>let _ = ...\<close>).\<close>

definition ignoreE :: "('s, 'e, 'a) op \<Rightarrow> 's \<Rightarrow> 's" where
  "ignoreE m s = snd (m s)"

fun eachE :: "('a \<Rightarrow> ('s, 'e, unit) op) \<Rightarrow> 'a list \<Rightarrow> ('s, 'e, unit) op" where
  "eachE f [] = okE ()"
| "eachE f (x # xs) = bindE (f x) (\<lambda>_. eachE f xs)"

lemmas run_defs = okE_def failE_def liftE_def bindE_def tryE_def mapErrE_def ignoreE_def

lemma bindE_Inr: "bindE m k s = (Inr y, t) \<longleftrightarrow> (\<exists>x u. m s = (Inr x, u) \<and> k x u = (Inr y, t))"
  by (auto simp: bindE_def split: prod.splits sum.splits)

lemma okE_Inr [simp]: "okE x s = (Inr y, t) \<longleftrightarrow> y = x \<and> t = s"
  by (auto simp: okE_def)

lemma failE_Inr [simp]: "failE e s \<noteq> (Inr y, t)"
  by (simp add: failE_def)

lemma mapErrE_Inr [simp]: "mapErrE f m s = (Inr y, t) \<longleftrightarrow> m s = (Inr y, t)"
  by (cases "m s"; cases "fst (m s)") (auto simp: mapErrE_def)

section \<open>Frames and preserved properties\<close>

text \<open>
  \<open>keeps f m\<close>: the operation \<open>m\<close> never changes what \<open>f\<close> reads, whatever it returns.
  \<open>preserves P m\<close>: it keeps the property \<open>P\<close> of the state. Both go through the combinators,
  so a frame fact about an operation follows from those of the operations it calls.
\<close>

definition keeps :: "('s \<Rightarrow> 'b) \<Rightarrow> ('s \<Rightarrow> 'r \<times> 's) \<Rightarrow> bool" where
  "keeps f m \<longleftrightarrow> (\<forall>s. f (snd (m s)) = f s)"

definition preserves :: "('s \<Rightarrow> bool) \<Rightarrow> ('s \<Rightarrow> 'r \<times> 's) \<Rightarrow> bool" where
  "preserves P m \<longleftrightarrow> (\<forall>s. P s \<longrightarrow> P (snd (m s)))"

lemma keepsD: "keeps f m \<Longrightarrow> m s = (r, t) \<Longrightarrow> f t = f s"
  unfolding keeps_def by (metis snd_conv)

lemma keeps_snd: "keeps f m \<Longrightarrow> f (snd (m s)) = f s"
  by (simp add: keeps_def)

lemma preservesD: "preserves P m \<Longrightarrow> m s = (r, t) \<Longrightarrow> P s \<Longrightarrow> P t"
  unfolding preserves_def by (metis snd_conv)

lemma keeps_preserves: "keeps f m \<Longrightarrow> preserves (\<lambda>s. P (f s)) m"
  by (simp add: keeps_def preserves_def)

lemma keeps_okE [frame]: "keeps f (okE x)"
  by (simp add: keeps_def okE_def)

lemma keeps_failE [frame]: "keeps f (failE e)"
  by (simp add: keeps_def failE_def)

lemma keeps_liftE [frame]: "keeps f (liftE r)"
  by (simp add: keeps_def liftE_def)

lemma keeps_bindE [frame]: "keeps f m \<Longrightarrow> (\<And>x. keeps f (k x)) \<Longrightarrow> keeps f (bindE m k)"
  by (simp add: keeps_def bindE_def split: prod.splits sum.splits) (metis snd_conv)

lemma keeps_tryE [frame]: "keeps f m \<Longrightarrow> (\<And>r. keeps f (k r)) \<Longrightarrow> keeps f (tryE m k)"
  by (simp add: keeps_def tryE_def split: prod.splits) (metis snd_conv)

lemma keeps_mapErrE [frame]: "keeps f m \<Longrightarrow> keeps f (mapErrE g m)"
  by (simp add: keeps_def mapErrE_def split: prod.splits) (metis snd_conv)

lemma keeps_eachE [frame]: "(\<And>x. keeps f (g x)) \<Longrightarrow> keeps f (eachE g xs)"
  by (induction xs) (auto intro: frame)

lemma keeps_if [frame]: "keeps f m \<Longrightarrow> keeps f n \<Longrightarrow> keeps f (if b then m else n)"
  by simp

lemma keeps_case_option [frame]:
  "keeps f m \<Longrightarrow> (\<And>x. keeps f (k x)) \<Longrightarrow> keeps f (case v of None \<Rightarrow> m | Some x \<Rightarrow> k x)"
  by (cases v) auto

lemma keeps_case_sum [frame]:
  "(\<And>x. keeps f (g x)) \<Longrightarrow> (\<And>x. keeps f (h x)) \<Longrightarrow> keeps f (case v of Inl x \<Rightarrow> g x | Inr x \<Rightarrow> h x)"
  by (cases v) auto

lemma keeps_case_prod [frame]:
  "(\<And>x y. keeps f (g x y)) \<Longrightarrow> keeps f (case v of (x, y) \<Rightarrow> g x y)"
  by (cases v) auto

lemma keeps_case_list [frame]:
  "keeps f m \<Longrightarrow> (\<And>x xs. keeps f (k x xs)) \<Longrightarrow> keeps f (case v of [] \<Rightarrow> m | x # xs \<Rightarrow> k x xs)"
  by (cases v) auto

lemma keeps_bindE_value:
  assumes "keeps f m" and "\<And>s x t. m s = (Inr x, t) \<Longrightarrow> Q x" and "\<And>x. Q x \<Longrightarrow> keeps f (k x)"
  shows "keeps f (bindE m k)"
  unfolding keeps_def
proof
  fix s
  obtain r t where m: "m s = (r, t)" by (cases "m s")
  with assms(1) have "f t = f s" by (rule keepsD)
  moreover have "f (snd (k x t)) = f t" if "r = Inr x" for x
    using keeps_snd [OF assms(3) [OF assms(2)]] m that by blast
  ultimately show "f (snd (bindE m k s)) = f s"
    using m by (cases r) (simp_all add: bindE_def)
qed

lemma preserves_okE: "preserves P (okE x)"
  by (simp add: preserves_def okE_def)

lemma preserves_failE: "preserves P (failE x)"
  by (simp add: preserves_def failE_def)

lemma preserves_bindE: "preserves P m \<Longrightarrow> (\<And>x. preserves P (k x)) \<Longrightarrow> preserves P (bindE m k)"
  by (simp add: preserves_def bindE_def split: prod.splits sum.splits) (metis snd_conv)

lemma preserves_tryE: "preserves P m \<Longrightarrow> (\<And>x. preserves P (k x)) \<Longrightarrow> preserves P (tryE m k)"
  by (simp add: preserves_def tryE_def split: prod.splits) (metis snd_conv)

lemma preserves_mapErrE: "preserves P m \<Longrightarrow> preserves P (mapErrE g m)"
  by (simp add: preserves_def mapErrE_def split: prod.splits) (metis snd_conv)

lemma preserves_eachE: "(\<And>x. preserves P (g x)) \<Longrightarrow> preserves P (eachE g xs)"
  by (induction xs) (auto intro: preserves_bindE preserves_okE)

lemma preserves_bindE_val:
  assumes "preserves P m" and "\<And>s x t. m s = (Inr x, t) \<Longrightarrow> Q x" and "\<And>x. Q x \<Longrightarrow> preserves P (k x)"
  shows "preserves P (bindE m k)"
  unfolding preserves_def
proof (intro allI impI)
  fix s assume s: "P s"
  obtain r t where m: "m s = (r, t)" by (cases "m s")
  have t: "P t" using preservesD [OF assms(1) m s] .
  show "P (snd (bindE m k s))"
  proof (cases r)
    case (Inl e)
    with m t show ?thesis by (simp add: bindE_def)
  next
    case (Inr x)
    with m have "preserves P (k x)" by (intro assms(3) assms(2)) auto
    with m t Inr show ?thesis by (simp add: bindE_def preserves_def)
  qed
qed

lemma preserves_liftE: "preserves P (liftE r)"
  by (simp add: preserves_def liftE_def)

lemma preserves_if: "preserves P m \<Longrightarrow> preserves P n \<Longrightarrow> preserves P (if b then m else n)"
  by simp

lemma preserves_case_option:
  "preserves P m \<Longrightarrow> (\<And>x. preserves P (k x)) \<Longrightarrow> preserves P (case v of None \<Rightarrow> m | Some x \<Rightarrow> k x)"
  by (cases v) auto

lemma preserves_case_sum:
  "(\<And>x. preserves P (g x)) \<Longrightarrow> (\<And>x. preserves P (h x)) \<Longrightarrow>
   preserves P (case v of Inl x \<Rightarrow> g x | Inr x \<Rightarrow> h x)"
  by (cases v) auto

lemma preserves_case_prod:
  "(\<And>x y. preserves P (g x y)) \<Longrightarrow> preserves P (case v of (x, y) \<Rightarrow> g x y)"
  by (cases v) auto

lemma preserves_let: "(\<And>x. preserves P (k x)) \<Longrightarrow> preserves P (let x = v in k x)"
  by (simp add: Let_def)

lemmas preserves_rules =
  preserves_liftE preserves_if preserves_case_option preserves_case_sum preserves_case_prod preserves_let
  preserves_okE preserves_failE preserves_bindE preserves_tryE preserves_mapErrE preserves_eachE

lemma keeps_let [frame]: "(\<And>x. keeps f (k x)) \<Longrightarrow> keeps f (let x = v in k x)"
  by (simp add: Let_def)

section \<open>Strings\<close>

text \<open>\<open>str::split_once\<close> and \<open>rsplit_once\<close> with a character or a string pattern.\<close>

fun split_once :: "'a \<Rightarrow> 'a list \<Rightarrow> ('a list \<times> 'a list) option" where
  "split_once c [] = None"
| "split_once c (x # xs) =
     (if x = c then Some ([], xs)
      else case split_once c xs of None \<Rightarrow> None | Some (a, b) \<Rightarrow> Some (x # a, b))"

definition rsplit_once :: "'a \<Rightarrow> 'a list \<Rightarrow> ('a list \<times> 'a list) option" where
  "rsplit_once c xs = map_option (\<lambda>(a, b). (rev b, rev a)) (split_once c (rev xs))"

fun strip_prefix :: "'a list \<Rightarrow> 'a list \<Rightarrow> 'a list option" where
  "strip_prefix [] ys = Some ys"
| "strip_prefix (x # xs) [] = None"
| "strip_prefix (x # xs) (y # ys) = (if x = y then strip_prefix xs ys else None)"

fun split_once_str :: "'a list \<Rightarrow> 'a list \<Rightarrow> ('a list \<times> 'a list) option" where
  "split_once_str p [] = (if p = [] then Some ([], []) else None)"
| "split_once_str p (x # xs) =
     (case strip_prefix p (x # xs) of
        Some rest \<Rightarrow> Some ([], rest)
      | None \<Rightarrow> (case split_once_str p xs of None \<Rightarrow> None | Some (a, b) \<Rightarrow> Some (x # a, b)))"

definition rsplit_once_str :: "'a list \<Rightarrow> 'a list \<Rightarrow> ('a list \<times> 'a list) option" where
  "rsplit_once_str p xs = map_option (\<lambda>(a, b). (rev b, rev a)) (split_once_str (rev p) (rev xs))"

definition starts_with :: "'a list \<Rightarrow> 'a list \<Rightarrow> bool" where
  "starts_with p xs \<longleftrightarrow> strip_prefix p xs \<noteq> None"

definition contains_str :: "'a list \<Rightarrow> 'a list \<Rightarrow> bool" where
  "contains_str p xs \<longleftrightarrow> split_once_str p xs \<noteq> None"

lemma strip_prefix_Some: "strip_prefix p xs = Some r \<longleftrightarrow> xs = p @ r"
  by (induction p xs rule: strip_prefix.induct) auto

lemma strip_prefix_None: "strip_prefix p xs = None \<longleftrightarrow> \<not> prefix p xs"
  by (induction p xs rule: strip_prefix.induct) auto

lemma strip_prefix_append [simp]: "strip_prefix p (p @ r) = Some r"
  by (simp add: strip_prefix_Some)

lemma starts_with_iff: "starts_with p xs \<longleftrightarrow> prefix p xs"
  by (simp add: starts_with_def strip_prefix_None)

lemma split_once_app [simp]: "c \<notin> set a \<Longrightarrow> split_once c (a @ c # b) = Some (a, b)"
  by (induction a) auto

lemma split_once_SomeD: "split_once c xs = Some (a, b) \<Longrightarrow> xs = a @ c # b \<and> c \<notin> set a"
  by (induction xs arbitrary: a) (auto split: option.splits if_splits)

lemma split_once_Some:
  "split_once c xs = Some (a, b) \<longleftrightarrow> xs = a @ c # b \<and> c \<notin> set a"
  using split_once_SomeD [of c xs a b] by auto

lemma split_once_None: "split_once c xs = None \<longleftrightarrow> c \<notin> set xs"
  by (induction xs) (auto split: option.splits)

lemma rsplit_once_Some:
  "rsplit_once c xs = Some (a, b) \<longleftrightarrow> xs = a @ c # b \<and> c \<notin> set b"
proof -
  have "rsplit_once c xs = Some (a, b) \<longleftrightarrow> split_once c (rev xs) = Some (rev b, rev a)"
    by (cases "split_once c (rev xs)") (auto simp: rsplit_once_def)
  also have "\<dots> \<longleftrightarrow> rev xs = rev (a @ c # b) \<and> c \<notin> set b"
    by (simp add: split_once_Some)
  also have "\<dots> \<longleftrightarrow> xs = a @ c # b \<and> c \<notin> set b"
    by (simp only: rev_is_rev_conv)
  finally show ?thesis .
qed

lemma split_once_str_Some: "split_once_str p xs = Some (a, b) \<Longrightarrow> xs = a @ p @ b"
  by (induction p xs arbitrary: a rule: split_once_str.induct)
    (auto split: option.splits if_splits simp: strip_prefix_Some)

lemma split_once_str_None: "split_once_str p xs = None \<Longrightarrow> xs \<noteq> a @ p @ b"
proof (induction p xs arbitrary: a rule: split_once_str.induct)
  case (1 p)
  then show ?case by (auto split: if_splits)
next
  case (2 p x xs)
  then show ?case by (cases a) (auto split: option.splits simp: strip_prefix_None)
qed

lemma contains_str_iff: "contains_str p xs \<longleftrightarrow> (\<exists>a b. xs = a @ p @ b)"
proof
  assume "contains_str p xs"
  then obtain a b where "split_once_str p xs = Some (a, b)"
    by (auto simp: contains_str_def)
  then show "\<exists>a b. xs = a @ p @ b" using split_once_str_Some by blast
next
  assume "\<exists>a b. xs = a @ p @ b"
  then show "contains_str p xs"
    unfolding contains_str_def using split_once_str_None by blast
qed

lemma rsplit_once_str_Some: "rsplit_once_str p xs = Some (a, b) \<Longrightarrow> xs = a @ p @ b"
proof -
  assume "rsplit_once_str p xs = Some (a, b)"
  then have "split_once_str (rev p) (rev xs) = Some (rev b, rev a)"
    by (auto simp: rsplit_once_str_def)
  then have "rev xs = rev b @ rev p @ rev a" by (rule split_once_str_Some)
  then have "rev xs = rev (a @ p @ b)" by simp
  then show ?thesis by (simp only: rev_is_rev_conv)
qed

text \<open>\<open>str::split(c)\<close>: the pieces between the separators, empty ones included.\<close>

fun split_char :: "'a \<Rightarrow> 'a list \<Rightarrow> 'a list list" where
  "split_char c [] = [[]]"
| "split_char c (x # xs) =
     (if x = c then [] # split_char c xs
      else case split_char c xs of [] \<Rightarrow> [[x]] | p # ps \<Rightarrow> (x # p) # ps)"

fun join_with :: "'a list \<Rightarrow> 'a list list \<Rightarrow> 'a list" where
  "join_with sep [] = []"
| "join_with sep [p] = p"
| "join_with sep (p # q # ps) = p @ sep @ join_with sep (q # ps)"

lemma split_char_nonempty [simp]: "split_char c xs \<noteq> []"
  by (induction xs) (auto split: list.splits)

lemma split_char_no_sep: "\<forall>p \<in> set (split_char c xs). c \<notin> set p"
  by (induction xs) (auto split: list.splits)

lemma split_char_plain: "c \<notin> set p \<Longrightarrow> split_char c p = [p]"
  by (induction p) auto

lemma split_char_app: "c \<notin> set p \<Longrightarrow> split_char c (p @ c # xs) = p # split_char c xs"
  by (induction p) auto

lemma split_char_join:
  "ps \<noteq> [] \<Longrightarrow> \<forall>p \<in> set ps. c \<notin> set p \<Longrightarrow> split_char c (join_with [c] ps) = ps"
  by (induction "[c]" ps rule: join_with.induct) (auto simp: split_char_plain split_char_app)

section \<open>Decimal and hexadecimal text\<close>

definition digit_char :: "nat \<Rightarrow> char" where
  "digit_char d = char_of (48 + d)"

definition is_digit :: "char \<Rightarrow> bool" where
  "is_digit c \<longleftrightarrow> 48 \<le> (of_char c :: nat) \<and> (of_char c :: nat) \<le> 57"

definition digit_value :: "char \<Rightarrow> nat" where
  "digit_value c = of_char c - 48"

fun show_nat :: "nat \<Rightarrow> string" where
  "show_nat n = (if n < 10 then [digit_char n] else show_nat (n div 10) @ [digit_char (n mod 10)])"

declare show_nat.simps [simp del]

definition read_digits :: "string \<Rightarrow> nat" where
  "read_digits s = foldl (\<lambda>n c. 10 * n + digit_value c) 0 s"

lemma digit_char_props [simp]:
  "d < 10 \<Longrightarrow> is_digit (digit_char d)" "d < 10 \<Longrightarrow> digit_value (digit_char d) = d"
  by (simp_all add: digit_char_def is_digit_def digit_value_def)

lemma show_nat_digits: "\<forall>c \<in> set (show_nat n). is_digit c"
  by (induction n rule: show_nat.induct) (subst show_nat.simps, auto)

lemma show_nat_nonempty [simp]: "show_nat n \<noteq> []"
  by (subst show_nat.simps) simp

lemma read_show_nat [simp]: "read_digits (show_nat n) = n"
proof (induction n rule: show_nat.induct)
  case (1 n)
  then show ?case
    by (cases "n < 10") (simp_all add: show_nat.simps [of n] read_digits_def)
qed

text \<open>
  \<open>str::parse\<close> for an unsigned integer of \<open>w\<close> bits: one leading plus sign is accepted, then at
  least one decimal digit, nothing else, and the value must fit.
\<close>

definition parse_unsigned :: "nat \<Rightarrow> string \<Rightarrow> nat option" where
  "parse_unsigned w s =
     (let ds = (case s of [] \<Rightarrow> [] | c # cs \<Rightarrow> if c = CHR ''+'' then cs else s) in
      if ds = [] \<or> \<not> list_all is_digit ds then None
      else if read_digits ds < 2 ^ w then Some (read_digits ds) else None)"

lemma parse_unsigned_bound: "parse_unsigned w s = Some n \<Longrightarrow> n < 2 ^ w"
  by (auto simp: parse_unsigned_def Let_def split: if_splits list.splits)

lemma plus_not_digit [simp]: "\<not> is_digit (CHR ''+'')"
  by (simp add: is_digit_def)

lemma parse_show_nat: "n < 2 ^ w \<Longrightarrow> parse_unsigned w (show_nat n) = Some n"
proof -
  assume n: "n < 2 ^ w"
  have "list_all is_digit (show_nat n)"
    using show_nat_digits by (simp add: list_all_iff)
  moreover obtain c cs where s: "show_nat n = c # cs" by (cases "show_nat n") auto
  moreover have "c \<noteq> CHR ''+''" using calculation by auto
  ultimately show ?thesis using n read_show_nat [of n] by (simp add: parse_unsigned_def)
qed

definition hex_digit :: "nat \<Rightarrow> char" where
  "hex_digit d = (if d < 10 then char_of (48 + d) else char_of (87 + d))"

text \<open>\<open>format!("{byte:02x}")\<close> over a byte sequence.\<close>

definition hex_bytes :: "u8 list \<Rightarrow> string" where
  "hex_bytes bs = concat (map (\<lambda>b. [hex_digit (unat b div 16), hex_digit (unat b mod 16)]) bs)"

definition is_lower_hex :: "char \<Rightarrow> bool" where
  "is_lower_hex c \<longleftrightarrow> is_digit c \<or> (97 \<le> (of_char c :: nat) \<and> (of_char c :: nat) \<le> 102)"

lemma length_hex_bytes [simp]: "length (hex_bytes bs) = 2 * length bs"
  by (induction bs) (auto simp: hex_bytes_def)

lemma hex_digit_lower: "d < 16 \<Longrightarrow> is_lower_hex (hex_digit d)"
  by (auto simp: hex_digit_def is_lower_hex_def is_digit_def)

lemma unat_u8_less: "unat (b :: u8) < 256"
  using unsigned_less [of b] by simp

lemma unat_u8_div16: "unat (b :: u8) div 16 < 16"
  using unat_u8_less [of b] by (simp add: less_mult_imp_div_less)

lemma hex_bytes_lower: "\<forall>c \<in> set (hex_bytes bs). is_lower_hex c"
  by (auto simp: hex_bytes_def hex_digit_lower unat_u8_div16)

text \<open>\<open>to_ascii_lowercase\<close> and \<open>eq_ignore_ascii_case\<close>.\<close>

definition ascii_lower :: "char \<Rightarrow> char" where
  "ascii_lower c = (if 65 \<le> (of_char c :: nat) \<and> (of_char c :: nat) \<le> 90 then char_of ((of_char c :: nat) + 32) else c)"

definition eq_ignore_ascii_case :: "string \<Rightarrow> string \<Rightarrow> bool" where
  "eq_ignore_ascii_case a b \<longleftrightarrow> map ascii_lower a = map ascii_lower b"

end
