(* ===== verification/Json.thy ===== *)
theory Json
  imports Prelude
begin

text \<open>
  The values serde_json reads and writes, and the conventions of \<open>#[derive(Serialize,
  Deserialize)]\<close> the persisted structures of the service rely on: a struct is an object with one
  member per field, unknown members are ignored, a member given twice is an error, a missing member
  is an error unless the field is an \<open>Option\<close> (then it is \<open>None\<close>) or carries
  \<open>#[serde(default)]\<close>. The text of a JSON document is not modelled: a file that holds one holds
  its value.
\<close>

datatype json =
    JNull
  | JBool bool
  | JNum nat
  | JStr string
  | JArr "json list"
  | JObj "(string \<times> json) list"

text \<open>The occurrences of a member: none, one, or a duplicate that serde rejects.\<close>

datatype member = Absent | Present json | Duplicated

definition lookup_member :: "string \<Rightarrow> (string \<times> json) list \<Rightarrow> member" where
  "lookup_member k ms =
     (case filter (\<lambda>(k', v). k' = k) ms of [] \<Rightarrow> Absent | [(_, v)] \<Rightarrow> Present v | _ \<Rightarrow> Duplicated)"

fun as_object :: "json \<Rightarrow> (string \<times> json) list option" where
  "as_object (JObj ms) = Some ms"
| "as_object _ = None"

definition required :: "(json \<Rightarrow> 'a option) \<Rightarrow> string \<Rightarrow> (string \<times> json) list \<Rightarrow> 'a option" where
  "required d k ms = (case lookup_member k ms of Present v \<Rightarrow> d v | _ \<Rightarrow> None)"

definition defaulted :: "'a \<Rightarrow> (json \<Rightarrow> 'a option) \<Rightarrow> string \<Rightarrow> (string \<times> json) list \<Rightarrow> 'a option" where
  "defaulted z d k ms =
     (case lookup_member k ms of Absent \<Rightarrow> Some z | Present v \<Rightarrow> d v | Duplicated \<Rightarrow> None)"

fun de_option :: "(json \<Rightarrow> 'a option) \<Rightarrow> json \<Rightarrow> 'a option option" where
  "de_option d JNull = Some None"
| "de_option d v = map_option Some (d v)"

definition optional :: "(json \<Rightarrow> 'a option) \<Rightarrow> string \<Rightarrow> (string \<times> json) list \<Rightarrow> 'a option option" where
  "optional d k ms = defaulted None (de_option d) k ms"

fun ser_option :: "('a \<Rightarrow> json) \<Rightarrow> 'a option \<Rightarrow> json" where
  "ser_option s None = JNull"
| "ser_option s (Some x) = s x"

fun de_string :: "json \<Rightarrow> string option" where
  "de_string (JStr s) = Some s"
| "de_string _ = None"

fun de_bool :: "json \<Rightarrow> bool option" where
  "de_bool (JBool b) = Some b"
| "de_bool _ = None"

text \<open>An unsigned integer field: out of range numbers are rejected, never truncated.\<close>

fun de_word :: "json \<Rightarrow> 'a::len word option" where
  "de_word (JNum n) = (if n < 2 ^ LENGTH('a) then Some (of_nat n) else None)"
| "de_word _ = None"

definition ser_word :: "'a::len word \<Rightarrow> json" where
  "ser_word w = JNum (unat w)"

text \<open>A map with string keys is an object; a repeated key keeps its last value.\<close>

fun de_members :: "(json \<Rightarrow> 'a option) \<Rightarrow> (string \<times> json) list \<Rightarrow> (string \<times> 'a) list option" where
  "de_members d [] = Some []"
| "de_members d ((k, v) # ms) =
     (case d v of None \<Rightarrow> None
      | Some x \<Rightarrow> (case de_members d ms of None \<Rightarrow> None | Some xs \<Rightarrow> Some ((k, x) # xs)))"

section \<open>Round trips of the building blocks\<close>

named_theorems serde_simps \<open>decoding what was encoded\<close>

lemma lookup_member_Nil [simp]: "lookup_member k [] = Absent"
  by (simp add: lookup_member_def)

lemma lookup_member_Cons_other [simp]: "k' \<noteq> k \<Longrightarrow> lookup_member k ((k', v) # ms) = lookup_member k ms"
  by (simp add: lookup_member_def)

lemma lookup_member_Cons_same [simp]: "lookup_member k ms = Absent \<Longrightarrow> lookup_member k ((k, v) # ms) = Present v"
  by (auto simp: lookup_member_def split: list.splits prod.splits)

lemma de_word_ser_word [simp]: "de_word (ser_word w) = Some w"
  using unsigned_less [of w] by (simp add: ser_word_def)

lemma ser_word_not_null [simp]: "ser_word w \<noteq> JNull"
  by (simp add: ser_word_def)

lemma de_option_ser_option:
  assumes "\<And>x. d (s x) = Some x" and "\<And>x. s x \<noteq> JNull"
  shows "de_option d (ser_option s v) = Some v"
proof (cases v)
  case None
  then show ?thesis by simp
next
  case (Some x)
  with assms [of x] show ?thesis by (cases "s x") auto
qed

lemma de_members_map:
  assumes "\<And>x. d (s x) = Some x"
  shows "de_members d (map (\<lambda>(k, x). (k, s x)) xs) = Some xs"
  by (induction xs) (auto simp: assms)

lemma de_option_not_None: "d v \<noteq> None \<Longrightarrow> v \<noteq> JNull \<Longrightarrow> de_option d v = map_option Some (d v)"
  by (cases v) auto

end
