(* ===== verification/Structure.thy ===== *)
theory Structure
  imports Json
begin

text \<open>
  The shared vocabulary of client and service: \<open>src/core/structure.rs\<close>, the channel identity of
  \<open>src/channel.rs\<close>, the protocol constants of \<open>src/lib.rs\<close> and the routes of
  \<open>src/core/command.rs\<close>. The build is described by a \<open>build\<close> record, one field per
  \<open>cfg\<close> the code branches on; the \<open>test\<close> feature is off.
\<close>

datatype platform = Linux | MacOS | Windows

record build =
  os :: platform
  development_channel :: bool

fun is_unix :: "platform \<Rightarrow> bool" where
  "is_unix Windows = False"
| "is_unix _ = True"

section \<open>Channel identity\<close>

record channel_identity =
  ch_id :: string
  service_slug :: string
  windows_service_name :: string
  service_display_name :: string
  macos_app_bundle_id :: string
  macos_service_id :: string

definition CHANNEL_IDENTITY :: "build \<Rightarrow> channel_identity" where
  "CHANNEL_IDENTITY B =
     (if \<not> development_channel B then
        \<lparr>ch_id = ''production'',
         service_slug = ''clash-verge-service'',
         windows_service_name = ''clash_verge_service'',
         service_display_name = ''Clash Verge Service'',
         macos_app_bundle_id = ''io.github.clash-verge-rev.clash-verge-rev'',
         macos_service_id = ''io.github.clash-verge-rev.clash-verge-rev.service''\<rparr>
      else
        \<lparr>ch_id = ''development'',
         service_slug = ''clash-verge-service-dev'',
         windows_service_name = ''clash_verge_service_dev'',
         service_display_name = ''Clash Verge Development Service'',
         macos_app_bundle_id = ''io.github.clash-verge-rev.clash-verge-rev.dev'',
         macos_service_id = ''io.github.clash-verge-rev.clash-verge-rev.dev.service''\<rparr>)"

definition SERVICE_SLUG :: "build \<Rightarrow> string" where
  "SERVICE_SLUG B = service_slug (CHANNEL_IDENTITY B)"

text \<open>The prefix of a local named pipe, two backslashes, a dot, and \<open>pipe\<close> between two more.\<close>

definition PIPE_ROOT :: string where
  "PIPE_ROOT = [CHR 0x5C, CHR 0x5C, CHR ''.'', CHR 0x5C] @ ''pipe'' @ [CHR 0x5C]"

definition IPC_PATH :: "build \<Rightarrow> string" where
  "IPC_PATH B =
     (case os B of
        MacOS \<Rightarrow> if development_channel B then ''/var/run/clash-verge-service-dev/service.sock''
                 else ''/var/run/clash-verge-service/service.sock''
      | Linux \<Rightarrow> if development_channel B then ''/run/clash-verge-service-dev/service.sock''
                 else ''/run/clash-verge-service/service.sock''
      | Windows \<Rightarrow> if development_channel B then PIPE_ROOT @ ''clash-verge-service-dev''
                   else PIPE_ROOT @ ''clash-verge-service'')"

definition IPC_AUTH_EXPECT :: string where
  "IPC_AUTH_EXPECT = ''A thing of beauty is a joy for ever. Its loveliness increases; it will never pass into nothingness.''"

section \<open>Protocol versions\<close>

definition PROTOCOL_EPOCH :: u16 where "PROTOCOL_EPOCH = 2"
definition PROTOCOL_REVISION :: u16 where "PROTOCOL_REVISION = 2"
definition MIN_SUPPORTED_CLIENT_REVISION :: u16 where "MIN_SUPPORTED_CLIENT_REVISION = 1"
definition MIN_REQUIRED_SERVICE_REVISION :: u16 where "MIN_REQUIRED_SERVICE_REVISION = 1"
definition MIN_SERVICE_REVISION_FOR_RUNTIME_STAGING :: u16 where
  "MIN_SERVICE_REVISION_FOR_RUNTIME_STAGING = 2"

lemmas protocol_constants =
  PROTOCOL_EPOCH_def PROTOCOL_REVISION_def MIN_SUPPORTED_CLIENT_REVISION_def
  MIN_REQUIRED_SERVICE_REVISION_def MIN_SERVICE_REVISION_FOR_RUNTIME_STAGING_def

definition OWNER_TOKEN_FILE_NAME :: string where
  "OWNER_TOKEN_FILE_NAME = ''.clash-verge-service-owner-token''"

definition SERVICE_PROTOCOL_HEADER :: string where
  "SERVICE_PROTOCOL_HEADER = ''X-Clash-Verge-Service-Protocol''"

definition SESSION_TOKEN_HEX_LEN :: nat where "SESSION_TOKEN_HEX_LEN = 64"

record protocol_version =
  epoch :: u16
  revision :: u16

definition current_version :: protocol_version where
  "current_version = \<lparr>epoch = PROTOCOL_EPOCH, revision = PROTOCOL_REVISION\<rparr>"

definition header_value :: "protocol_version \<Rightarrow> string" where
  "header_value v = show_nat (unat (epoch v)) @ ''.'' @ show_nat (unat (revision v))"

definition parse_u16 :: "string \<Rightarrow> u16 option" where
  "parse_u16 s = map_option of_nat (parse_unsigned 16 s)"

definition parse_header :: "string \<Rightarrow> protocol_version option" where
  "parse_header value =
     (case split_once (CHR ''.'') value of
        None \<Rightarrow> None
      | Some (e, r) \<Rightarrow>
          (case parse_u16 e of
             None \<Rightarrow> None
           | Some e' \<Rightarrow>
               (case parse_u16 r of
                  None \<Rightarrow> None
                | Some r' \<Rightarrow> Some \<lparr>epoch = e', revision = r'\<rparr>)))"

record protocol_info =
  build_version :: string
  protocol :: protocol_version
  min_client_revision :: u16

text \<open>\<open>VERSION\<close> is the package version of \<open>Cargo.toml\<close>, an argument here.\<close>

definition current_info :: "string \<Rightarrow> protocol_info" where
  "current_info version =
     \<lparr>build_version = version, protocol = current_version,
      min_client_revision = MIN_SUPPORTED_CLIENT_REVISION\<rparr>"

definition supports_client :: "protocol_info \<Rightarrow> protocol_version \<Rightarrow> u16 \<Rightarrow> bool" where
  "supports_client info client min_service_revision \<longleftrightarrow>
     epoch (protocol info) = epoch client \<and>
     min_service_revision \<le> revision (protocol info) \<and>
     min_client_revision info \<le> revision client"

definition supports_runtime_staging :: "protocol_info \<Rightarrow> bool" where
  "supports_runtime_staging info \<longleftrightarrow>
     epoch (protocol info) = epoch current_version \<and>
     MIN_SERVICE_REVISION_FOR_RUNTIME_STAGING \<le> revision (protocol info)"

section \<open>Owners and requests\<close>

datatype owner_identity =
    UnixOwner (owner_uid: u32) (owner_gid: u32)
  | WindowsOwner (owner_sid: string)

record owner_credentials =
  cred_identity :: owner_identity
  cred_app_data_dir :: string
  cred_token :: "string option"

record owner_session_proof =
  proof_generation :: u64
  proof_token :: string

record runtime_asset =
  ra_source :: string
  ra_destination :: string

record remote_provider =
  rp_destination :: string
  rp_url :: string

record runtime_bundle =
  rb_yaml :: string
  rb_assets :: "runtime_asset list"
  rb_remote_providers :: "remote_provider list"
  rb_core_path :: string

datatype macos_proxy_config =
    ProxyDisabled
  | ProxyGlobal (px_host: string) (px_port: u16) (px_bypass: string)
  | ProxyPac (px_url: string)

datatype proxy_apply_outcome =
    NotRequested
  | Applied
  | DirectFallback string

record start_clash_request =
  sr_runtime :: runtime_bundle
  sr_proposed_session_token :: string
  sr_macos_proxy :: "macos_proxy_config option"

record start_clash_result =
  res_generation :: u64
  res_proxy_outcome :: proxy_apply_outcome

datatype stage_rejection =
    CoreNotRunning
  | CorePathChanged
  | RuntimeUnwritable string
  | CoreRestarted

datatype stage_runtime_outcome =
    Staged string
  | RestartRequired stage_rejection

text \<open>A request that only authenticates its owner, and one that also proves the active session.\<close>

record 'a authenticated_request =
  ar_credentials :: owner_credentials
  ar_payload :: 'a

record 'a authenticated_session_request =
  as_credentials :: owner_credentials
  as_session :: owner_session_proof
  as_payload :: 'a

datatype service_error_code =
    UnauthorizedOwner
  | NotActive
  | InvalidInstallLocation
  | InvalidRuntimeAsset
  | LegacyCleanupFailed
  | OwnerSwitchFailed
  | ProtocolMismatch
  | StaleOwnerSession
  | InvalidProxyConfig
  | ProxyClearFailed
  | ProxyApplyFailed

fun error_code_u16 :: "service_error_code \<Rightarrow> u16" where
  "error_code_u16 UnauthorizedOwner = 1001"
| "error_code_u16 NotActive = 1002"
| "error_code_u16 InvalidInstallLocation = 1003"
| "error_code_u16 InvalidRuntimeAsset = 1004"
| "error_code_u16 LegacyCleanupFailed = 1005"
| "error_code_u16 OwnerSwitchFailed = 1006"
| "error_code_u16 ProtocolMismatch = 1007"
| "error_code_u16 StaleOwnerSession = 1008"
| "error_code_u16 InvalidProxyConfig = 1009"
| "error_code_u16 ProxyClearFailed = 1010"
| "error_code_u16 ProxyApplyFailed = 1011"

text \<open>
  The key of an owner's state directory: the decimal uid on Unix, the hexadecimal SHA-256 digest of
  the SID on Windows. The digest is the \<open>sha2\<close> crate's, the parameter \<open>sha\<close>.
\<close>

fun owner_key :: "(string \<Rightarrow> u8 list) \<Rightarrow> owner_identity \<Rightarrow> string" where
  "owner_key sha (UnixOwner uid gid) = show_nat (unat uid)"
| "owner_key sha (WindowsOwner sid) = hex_bytes (sha sid)"

section \<open>Configuration of the core and of the log writer\<close>

record writer_config =
  wc_directory :: string
  wc_max_log_size :: u64
  wc_max_log_files :: u64

record core_config =
  cc_core_path :: string
  cc_core_ipc_path :: string
  cc_config_path :: string
  cc_config_dir :: string

record clash_config =
  clash_core :: core_config
  clash_log :: writer_config

definition default_writer_config :: writer_config where
  "default_writer_config =
     \<lparr>wc_directory = ''./logs'', wc_max_log_size = 10 * 1024 * 1024, wc_max_log_files = 8\<rparr>"

definition default_core_config :: "build \<Rightarrow> core_config" where
  "default_core_config B =
     \<lparr>cc_core_path = ''./clash'',
      cc_core_ipc_path =
        (case os B of
           Windows \<Rightarrow> PIPE_ROOT @ ''verge-mihomo-'' @ ch_id (CHANNEL_IDENTITY B)
         | MacOS \<Rightarrow> ''/var/run/'' @ SERVICE_SLUG B @ ''/users/0/verge-mihomo.sock''
         | Linux \<Rightarrow> ''/run/'' @ SERVICE_SLUG B @ ''/users/0/verge-mihomo.sock''),
      cc_config_path = ''./config.yaml'',
      cc_config_dir = ''./configs''\<rparr>"

section \<open>Lifecycle states\<close>

datatype lifecycle_state = Starting | Running | RecoveringCore | RecoveringIpc | Fatal

fun lifecycle_as_u8 :: "lifecycle_state \<Rightarrow> u8" where
  "lifecycle_as_u8 Starting = 0"
| "lifecycle_as_u8 Running = 1"
| "lifecycle_as_u8 RecoveringCore = 2"
| "lifecycle_as_u8 RecoveringIpc = 3"
| "lifecycle_as_u8 Fatal = 4"

definition lifecycle_from_u8 :: "u8 \<Rightarrow> lifecycle_state" where
  "lifecycle_from_u8 v =
     (if v = 1 then Running else if v = 2 then RecoveringCore
      else if v = 3 then RecoveringIpc else if v = 4 then Fatal else Starting)"

lemma lifecycle_u8_roundtrip [simp]: "lifecycle_from_u8 (lifecycle_as_u8 s) = s"
  by (cases s) (simp_all add: lifecycle_from_u8_def)

record service_status_snapshot =
  st_is_active :: bool
  st_active_generation :: "u64 option"
  st_service_state :: lifecycle_state
  st_core_pid :: "u32 option"
  st_core_started_at :: "u64 option"
  st_last_core_exit_reason :: "string option"
  st_restart_count :: u32
  st_last_recovery_at :: "u64 option"
  st_desired_core_should_be_running :: bool
  st_desired_generation :: u64
  st_desired_updated_at :: u64

section \<open>Routes\<close>

datatype ipc_command =
    GetVersion | Status | GetClashLogs | GetClashLogSnapshot | StartClash | StopClash
  | StageRuntime | SetSystemProxy | UpdateWriter | Magic

fun command_path :: "ipc_command \<Rightarrow> string" where
  "command_path GetVersion = ''/version''"
| "command_path Status = ''/status''"
| "command_path GetClashLogs = ''/clash/logs''"
| "command_path GetClashLogSnapshot = ''/clash/log-snapshot''"
| "command_path StartClash = ''/clash/start''"
| "command_path StopClash = ''/clash/stop''"
| "command_path StageRuntime = ''/clash/stage-runtime''"
| "command_path SetSystemProxy = ''/system-proxy''"
| "command_path UpdateWriter = ''/writer''"
| "command_path Magic = ''/magic''"

definition all_commands :: "ipc_command list" where
  "all_commands =
     [GetVersion, Status, GetClashLogs, GetClashLogSnapshot, StartClash, StopClash,
      StageRuntime, SetSystemProxy, UpdateWriter, Magic]"

text \<open>\<open>IpcCommand::from_str\<close> of the derived \<open>EnumString\<close>.\<close>

definition command_of_path :: "string \<Rightarrow> ipc_command option" where
  "command_of_path p = find (\<lambda>c. command_path c = p) all_commands"


section \<open>Serde representations\<close>

text \<open>
  The derived representations of the types that are persisted: enums are externally tagged, structs
  are objects.
\<close>

fun ser_identity :: "owner_identity \<Rightarrow> json" where
  "ser_identity (UnixOwner uid gid) = JObj [(''Unix'', JObj [(''uid'', ser_word uid), (''gid'', ser_word gid)])]"
| "ser_identity (WindowsOwner sid) = JObj [(''Windows'', JObj [(''sid'', JStr sid)])]"

definition de_identity :: "json \<Rightarrow> owner_identity option" where
  "de_identity j =
     (case j of
        JObj [(tag, JObj ms)] \<Rightarrow>
          if tag = ''Unix'' then
            (case (required de_word ''uid'' ms, required de_word ''gid'' ms) of
               (Some u, Some g) \<Rightarrow> Some (UnixOwner u g) | _ \<Rightarrow> None)
          else if tag = ''Windows'' then map_option WindowsOwner (required de_string ''sid'' ms)
          else None
      | _ \<Rightarrow> None)"

definition ser_writer :: "writer_config \<Rightarrow> json" where
  "ser_writer c = JObj
     [(''directory'', JStr (wc_directory c)), (''max_log_size'', ser_word (wc_max_log_size c)),
      (''max_log_files'', ser_word (wc_max_log_files c))]"

definition de_writer :: "json \<Rightarrow> writer_config option" where
  "de_writer j =
     (case as_object j of None \<Rightarrow> None
      | Some ms \<Rightarrow>
          (case (required de_string ''directory'' ms, required de_word ''max_log_size'' ms,
                 required de_word ''max_log_files'' ms) of
             (Some d, Some s, Some f) \<Rightarrow>
               Some \<lparr>wc_directory = d, wc_max_log_size = s, wc_max_log_files = f\<rparr>
           | _ \<Rightarrow> None))"

definition ser_core :: "core_config \<Rightarrow> json" where
  "ser_core c = JObj
     [(''core_path'', JStr (cc_core_path c)), (''core_ipc_path'', JStr (cc_core_ipc_path c)),
      (''config_path'', JStr (cc_config_path c)), (''config_dir'', JStr (cc_config_dir c))]"

definition de_core :: "json \<Rightarrow> core_config option" where
  "de_core j =
     (case as_object j of None \<Rightarrow> None
      | Some ms \<Rightarrow>
          (case (required de_string ''core_path'' ms, required de_string ''core_ipc_path'' ms,
                 required de_string ''config_path'' ms, required de_string ''config_dir'' ms) of
             (Some a, Some b, Some c, Some d) \<Rightarrow>
               Some \<lparr>cc_core_path = a, cc_core_ipc_path = b, cc_config_path = c, cc_config_dir = d\<rparr>
           | _ \<Rightarrow> None))"

definition ser_clash :: "clash_config \<Rightarrow> json" where
  "ser_clash c = JObj [(''core_config'', ser_core (clash_core c)), (''log_config'', ser_writer (clash_log c))]"

definition de_clash :: "json \<Rightarrow> clash_config option" where
  "de_clash j =
     (case as_object j of None \<Rightarrow> None
      | Some ms \<Rightarrow>
          (case (required de_core ''core_config'' ms, required de_writer ''log_config'' ms) of
             (Some a, Some b) \<Rightarrow> Some \<lparr>clash_core = a, clash_log = b\<rparr>
           | _ \<Rightarrow> None))"

lemmas serde_members = required_def defaulted_def optional_def

lemma de_ser_identity [serde_simps]: "de_identity (ser_identity i) = Some i"
  by (cases i) (simp_all add: de_identity_def serde_members)

lemma de_ser_writer [serde_simps]: "de_writer (ser_writer c) = Some c"
  by (simp add: de_writer_def ser_writer_def serde_members)

lemma de_ser_core [serde_simps]: "de_core (ser_core c) = Some c"
  by (simp add: de_core_def ser_core_def serde_members)

lemma de_ser_clash [serde_simps]: "de_clash (ser_clash c) = Some c"
  by (simp add: de_clash_def ser_clash_def serde_members serde_simps)

lemma ser_not_null [simp]: "ser_identity i \<noteq> JNull" "ser_writer w \<noteq> JNull" "ser_clash c \<noteq> JNull"
  by (cases i) (simp_all add: ser_writer_def ser_clash_def)

section \<open>Properties\<close>

lemma dot_not_digit [simp]: "\<not> is_digit (CHR ''.'')" "\<not> is_digit (CHR ''/'')" "\<not> is_digit (CHR ''-'')"
  by (simp_all add: is_digit_def)

lemma show_nat_no_char: "\<not> is_digit c \<Longrightarrow> c \<notin> set (show_nat n)"
  using show_nat_digits by blast

lemma parse_u16_show [simp]: "parse_u16 (show_nat (unat v)) = Some v"
proof -
  have "unat v < 2 ^ 16" using unsigned_less [of v, where 'a = nat] by simp
  then show ?thesis by (simp add: parse_u16_def parse_show_nat del: power_numeral)
qed

lemma parse_unsigned_no_dot: "CHR ''.'' \<in> set s \<Longrightarrow> parse_unsigned w s = None"
proof -
  assume dot: "CHR ''.'' \<in> set s"
  let ?ds = "case s of [] \<Rightarrow> [] | c # cs \<Rightarrow> if c = CHR ''+'' then cs else s"
  from dot have "CHR ''.'' \<in> set ?ds" by (cases s) auto
  then have "\<not> list_all is_digit ?ds" by (metis dot_not_digit(1) list_all_iff)
  then show ?thesis by (simp add: parse_unsigned_def)
qed

lemma owner_key_unix_inj: "owner_key sha (UnixOwner u g) = owner_key sha (UnixOwner v h) \<Longrightarrow> u = v"
proof -
  assume "owner_key sha (UnixOwner u g) = owner_key sha (UnixOwner v h)"
  then have "read_digits (show_nat (unat u)) = read_digits (show_nat (unat v))" by simp
  then have "unat u = unat v" by (simp only: read_show_nat)
  then show ?thesis by (rule unsigned_word_eqI)
qed

lemma owner_key_chars: "c \<in> set (owner_key sha i) \<Longrightarrow> is_lower_hex c"
proof (cases i)
  case (UnixOwner u g)
  assume "c \<in> set (owner_key sha i)"
  with UnixOwner show ?thesis using show_nat_digits by (auto simp: is_lower_hex_def)
next
  case (WindowsOwner s)
  assume "c \<in> set (owner_key sha i)"
  with WindowsOwner show ?thesis using hex_bytes_lower by auto
qed

text \<open>
  The protocol header a client sends round-trips: the service parses back exactly the version
  the client put in, whatever the epoch and the revision; and a text with two dots, such as a build
  version, is never taken for a protocol version.
\<close>

lemma protocol_header_roundtrip:
  "parse_header (header_value v) = Some v \<and>
   parse_header (a @ ''.'' @ b @ ''.'' @ c) = None"
proof
  show "parse_header (header_value v) = Some v"
    by (simp add: parse_header_def header_value_def show_nat_no_char)
  show "parse_header (a @ ''.'' @ b @ ''.'' @ c) = None"
  proof (cases "split_once (CHR ''.'') (a @ ''.'' @ b @ ''.'' @ c)")
    case None
    then show ?thesis by (simp add: parse_header_def)
  next
    case (Some p)
    then obtain e r where er: "split_once (CHR ''.'') (a @ ''.'' @ b @ ''.'' @ c) = Some (e, r)"
      by (cases p) auto
    then have eq: "a @ ''.'' @ b @ ''.'' @ c = e @ CHR ''.'' # r" and ne: "CHR ''.'' \<notin> set e"
      using split_once_SomeD [OF er] by auto
    then have "count_list (a @ ''.'' @ b @ ''.'' @ c) (CHR ''.'') = count_list (e @ CHR ''.'' # r) (CHR ''.'')"
      by simp
    with ne have "count_list r (CHR ''.'') > 0" by (simp add: count_notin)
    then have "CHR ''.'' \<in> set r" using count_notin by fastforce
    then have "parse_u16 r = None" by (simp add: parse_u16_def parse_unsigned_no_dot)
    with er show ?thesis by (simp add: parse_header_def split: option.splits)
  qed
qed

end
