(* ===== verification/Paths.thy ===== *)
theory Paths
  imports Structure
begin

text \<open>
  \<open>src/core/paths.rs\<close>: the directories of the service and of one owner. A path the service builds
  itself is the list of its components below the root (\<open>join\<close> appends); the text of a path given
  by a client is split into components by \<open>Path::components\<close>, modelled for Unix.
\<close>

section \<open>Path components\<close>

datatype component = RootDir | CurDir | ParentDir | Normal string

text \<open>
  \<open>Path::components\<close> on Unix: a leading slash is the root, empty pieces and inner dots vanish, a
  leading dot of a relative path stays.
\<close>

definition component_of :: "string \<Rightarrow> component" where
  "component_of p = (if p = ''..'' then ParentDir else Normal p)"

definition kept_piece :: "string \<Rightarrow> bool" where
  "kept_piece p \<longleftrightarrow> p \<noteq> '''' \<and> p \<noteq> ''.''"

definition path_is_absolute :: "string \<Rightarrow> bool" where
  "path_is_absolute s \<longleftrightarrow> starts_with ''/'' s"

definition components :: "string \<Rightarrow> component list" where
  "components s =
     (let ps = split_char (CHR ''/'') s in
      (if path_is_absolute s then [RootDir] else if hd ps = ''.'' then [CurDir] else []) @
      map component_of (filter kept_piece ps))"

fun normal_name :: "component \<Rightarrow> string option" where
  "normal_name (Normal p) = Some p"
| "normal_name _ = None"

text \<open>An absolute path, as its component names; only for paths without \<open>..\<close>.\<close>

type_synonym path = "string list"

definition abs_path :: "string \<Rightarrow> path" where
  "abs_path s = List.map_filter normal_name (components s)"

definition path_text :: "path \<Rightarrow> string" where
  "path_text p = ''/'' @ join_with ''/'' p"

fun path_parent :: "path \<Rightarrow> path option" where
  "path_parent [] = None"
| "path_parent p = Some (butlast p)"

definition path_starts_with :: "path \<Rightarrow> path \<Rightarrow> bool" where
  "path_starts_with base p \<longleftrightarrow> prefix base p"

section \<open>Service directories\<close>

record service_paths =
  sp_runtime_dir :: path
  sp_persistent_state_dir :: path
  sp_ipc_path :: path
  sp_owner_lock_path :: path
  sp_pid_file_path :: path
  sp_core_runtime_path :: path
  sp_desired_state_path :: path

definition install_dir :: "service_paths \<Rightarrow> path" where
  "install_dir sp = sp_persistent_state_dir sp @ [''bin'']"

definition active_owner_path :: "service_paths \<Rightarrow> path" where
  "active_owner_path sp = sp_persistent_state_dir sp @ [''active-owner.json'']"

definition owner_generation_path :: "service_paths \<Rightarrow> path" where
  "owner_generation_path sp = sp_persistent_state_dir sp @ [''owner-generation.json'']"

text \<open>\<open>OwnerPaths\<close> is its root directory.\<close>

type_synonym owner_paths = path

definition for_owner_key :: "service_paths \<Rightarrow> string \<Rightarrow> owner_paths" where
  "for_owner_key sp key = sp_persistent_state_dir sp @ [''users'', key]"

definition for_owner :: "(string \<Rightarrow> u8 list) \<Rightarrow> service_paths \<Rightarrow> owner_identity \<Rightarrow> owner_paths" where
  "for_owner sha sp i = for_owner_key sp (owner_key sha i)"

definition owner_desired_state_path :: "owner_paths \<Rightarrow> path" where
  "owner_desired_state_path op = op @ [''desired-state.json'']"

definition owner_runtime_dir :: "owner_paths \<Rightarrow> path" where
  "owner_runtime_dir op = op @ [''runtime'']"

definition owner_logs_dir :: "owner_paths \<Rightarrow> path" where
  "owner_logs_dir op = op @ [''logs'']"

text \<open>
  The directories of a production build. On Windows the program data folder is looked up in the
  shell (\<open>windows_program_data\<close>); the paths below are below it, so the root of the model is that
  folder there.
\<close>

definition persistent_state_dir :: "build \<Rightarrow> path" where
  "persistent_state_dir B =
     (case os B of
        MacOS \<Rightarrow> [''Library'', ''Application Support'', SERVICE_SLUG B]
      | Linux \<Rightarrow> [''var'', ''lib'', SERVICE_SLUG B]
      | Windows \<Rightarrow> [SERVICE_SLUG B])"

definition runtime_dir :: "build \<Rightarrow> path" where
  "runtime_dir B =
     (if is_unix (os B) then
        (case path_parent (abs_path (IPC_PATH B)) of
           Some d \<Rightarrow> d | None \<Rightarrow> [''run'', ''clash-verge-service''])
      else persistent_state_dir B @ [''runtime''])"

definition service_paths_of :: "build \<Rightarrow> service_paths" where
  "service_paths_of B =
     (let r = runtime_dir B; p = persistent_state_dir B in
      \<lparr>sp_runtime_dir = r,
       sp_persistent_state_dir = p,
       sp_ipc_path = abs_path (IPC_PATH B),
       sp_owner_lock_path = r @ [SERVICE_SLUG B @ ''.owner.lock''],
       sp_pid_file_path = r @ [SERVICE_SLUG B @ ''.pid''],
       sp_core_runtime_path = r @ [SERVICE_SLUG B @ ''.core.json''],
       sp_desired_state_path = p @ [''desired-state.json'']\<rparr>)"

definition unix_mihomo_ipc_path :: "path \<Rightarrow> u32 \<Rightarrow> path" where
  "unix_mihomo_ipc_path runtime_root uid =
     runtime_root @ [''users'', show_nat (unat uid), ''verge-mihomo.sock'']"

definition mihomo_ipc_path :: "(string \<Rightarrow> u8 list) \<Rightarrow> build \<Rightarrow> owner_identity \<Rightarrow> string" where
  "mihomo_ipc_path sha B i =
     (let pipe = PIPE_ROOT @ ''verge-mihomo-'' @ ch_id (CHANNEL_IDENTITY B) @ ''-'' @ owner_key sha i in
      case i of
        UnixOwner uid gid \<Rightarrow>
          if is_unix (os B)
          then path_text (unix_mihomo_ipc_path (sp_runtime_dir (service_paths_of B)) uid)
          else pipe
      | WindowsOwner sid \<Rightarrow> pipe)"

section \<open>Facts about paths\<close>

lemma abs_path_text:
  assumes "\<forall>p \<in> set ps. kept_piece p \<and> p \<noteq> ''..'' \<and> CHR ''/'' \<notin> set p"
  shows "abs_path (path_text ps) = ps"
proof -
  have abs: "path_is_absolute (path_text ps)"
    by (simp add: path_is_absolute_def path_text_def starts_with_def)
  have ne: "split_char (CHR ''/'') (path_text ps) = '''' # split_char (CHR ''/'') (join_with ''/'' ps)"
    by (simp add: path_text_def)
  have flt: "filter kept_piece (split_char (CHR ''/'') (join_with ''/'' ps)) = ps"
  proof (cases ps)
    case Nil
    then show ?thesis by (simp add: kept_piece_def)
  next
    case Cons
    then have "ps \<noteq> []" by simp
    then have "split_char (CHR ''/'') (join_with [CHR ''/''] ps) = ps"
      using assms by (intro split_char_join) auto
    then show ?thesis using assms by (auto simp: filter_id_conv)
  qed
  have cs: "components (path_text ps) = RootDir # map component_of ps"
    using flt by (simp add: components_def abs ne kept_piece_def [of "''''"])
  have "List.map_filter normal_name (map component_of ps) = ps"
    using assms by (induction ps) (auto simp: component_of_def List.map_filter_simps)
  then show ?thesis by (simp add: abs_path_def cs List.map_filter_simps)
qed

lemma for_owner_key_inj [simp]: "for_owner_key sp k = for_owner_key sp k' \<longleftrightarrow> k = k'"
  by (simp add: for_owner_key_def)

lemma owner_files_distinct [simp]:
  "owner_desired_state_path (for_owner_key sp k) = owner_desired_state_path (for_owner_key sp k') \<longleftrightarrow> k = k'"
  "active_owner_path sp \<noteq> owner_desired_state_path (for_owner_key sp k)"
  "owner_desired_state_path (for_owner_key sp k) \<noteq> active_owner_path sp"
  "owner_generation_path sp \<noteq> owner_desired_state_path (for_owner_key sp k)"
  "owner_desired_state_path (for_owner_key sp k) \<noteq> owner_generation_path sp"
  "active_owner_path sp \<noteq> owner_generation_path sp"
  "owner_generation_path sp \<noteq> active_owner_path sp"
  by (simp_all add: owner_desired_state_path_def active_owner_path_def owner_generation_path_def
      for_owner_key_def)

end
