(* ===== verification/World.thy ===== *)
theory World
  imports Paths
begin

text \<open>
  The state the service reads and writes, and the operating system calls the Rust standard library
  and tokio make on its behalf.

  A call of the operating system may fail for reasons the service does not control. The world
  numbers the calls (\<open>tick\<close>) and its \<open>environment\<close> holds what happens at each of them. A theorem
  about all worlds is a theorem about every pattern of failures and every behaviour of the other
  processes. Files the service owns (its private directories) change only through the service and are
  the field \<open>fs\<close>.

  The statics of the process (lifecycle cells, the core manager, the log writer, the file sequence
  numbers) are fields of the same record. The model is that of a Unix build.
\<close>

section \<open>Errors\<close>

datatype io_kind = NotFound | AlreadyExists | PermissionDenied | WouldBlock | HeldOpen | OtherIo

text \<open>
  \<open>anyhow::Error\<close>: an I/O error, a message, or a context around another error. Interpolated paths
  are left out of the texts; \<open>Io\<close> carries the error kind and \<open>Sysproxy\<close> whether the error of the
  \<open>sysproxy\<close> crate is its \<open>NoActiveNetworkService\<close>, both of which the code inspects.
\<close>

datatype err = Io io_kind | Msg string | Sysproxy bool string | Ctx string err

fun io_text :: "io_kind \<Rightarrow> string" where
  "io_text NotFound = ''entity not found''"
| "io_text AlreadyExists = ''entity already exists''"
| "io_text PermissionDenied = ''permission denied''"
| "io_text WouldBlock = ''operation would block''"
| "io_text HeldOpen = ''held open by another process''"
| "io_text OtherIo = ''other error''"

text \<open>The alternate display form, the chain of causes joined by colons.\<close>

fun show_err :: "err \<Rightarrow> string" where
  "show_err (Io k) = io_text k"
| "show_err (Msg m) = m"
| "show_err (Sysproxy b m) = m"
| "show_err (Ctx c e) = c @ '': '' @ show_err e"

text \<open>The plain display form shows the outermost error only.\<close>

fun show_outer :: "err \<Rightarrow> string" where
  "show_outer (Io k) = io_text k"
| "show_outer (Msg m) = m"
| "show_outer (Sysproxy b m) = m"
| "show_outer (Ctx c e) = c"

fun chain_has_not_found :: "err \<Rightarrow> bool" where
  "chain_has_not_found (Io k) = (k = NotFound)"
| "chain_has_not_found (Msg m) = False"
| "chain_has_not_found (Sysproxy b m) = False"
| "chain_has_not_found (Ctx c e) = chain_has_not_found e"

section \<open>Files, processes, the core manager\<close>

datatype file_kind = RegularFile | Directory | Symlink | Socket | SpecialFile

text \<open>What a file holds: a text serde_json reads as a value, or other bytes.\<close>

datatype content = JsonText json | Bytes string

fun content_json :: "content \<Rightarrow> json option" where
  "content_json (JsonText j) = Some j"
| "content_json (Bytes s) = None"

record node =
  nd_kind :: file_kind
  nd_uid :: u32
  nd_gid :: u32
  nd_mode :: nat
  nd_dev :: u64
  nd_len :: u64
  nd_mtime :: "u128 option"
  nd_data :: content

text \<open>
  A tree of files in the directories of an owner, as the legacy clean-up walks it: what an entry is, whose it is,
  the device it is on, and the entries below it.
\<close>

datatype tree =
  Tree (tr_kind: file_kind) (tr_uid: u32) (tr_dev: u64) (tr_entries: "(string \<times> tree) list")

record process_identity =
  pi_executable :: string
  pi_started_at :: u64

text \<open>
  What the operating system shows of a process: its executable, the \<open>stat\<close> line of Linux, the start
  time of macOS, and whether it is a zombie.
\<close>

record process_entry =
  pe_executable :: string
  pe_stat :: string
  pe_start_sec :: u64
  pe_start_usec :: u64
  pe_zombie :: bool

datatype signal = SIGTERM | SIGKILL

record exit_status =
  ex_code :: "int option"
  ex_signal :: "nat option"

text \<open>What waiting on a child shows at a moment.\<close>

datatype child_event = StillRunning | Exited exit_status | WaitFailed

text \<open>
  A \<open>ChildGuard\<close> is the process id of the child it still holds; \<open>None\<close> once the child was taken
  out of it.
\<close>

type_synonym child_guard = "u32 option"

text \<open>
  The watchdog task. While it waits on a child, \<open>wd_guard\<close> holds it; between a core's exit and the
  next successful start it is \<open>None\<close>.
\<close>

record watchdog =
  wd_guard :: child_guard
  wd_config :: clash_config
  wd_owner :: owner_identity
  wd_timestamps :: "nat list"
  wd_attempt :: u32

datatype watchdog_task = WatchdogRunning watchdog | WatchdogDone "err + unit"

record core_manager =
  running_pid :: u32
  running_config :: "clash_config option"
  core_start_time :: "nat option"
  core_started_at :: u64
  last_core_exit_reason :: "string option"
  restart_count :: u32
  last_recovery_at :: u64
  watchdog_handle :: "watchdog_task option"
  failed_child :: "child_guard option"

text \<open>The system proxy settings the macOS backend writes.\<close>

record system_proxy =
  pxs_host :: string
  pxs_port :: u16
  pxs_bypass :: string
  pxs_enable :: bool

record auto_proxy =
  pxa_url :: string
  pxa_enable :: bool

section \<open>The world\<close>

text \<open>
  The environment's choices, numbered by the calls of the service: which call fails and how, what the
  two clocks read (seconds since the epoch, milliseconds of the monotonic clock), the length and
  modification time the file system records, the client-owned files, the process id of a spawn,
  whether a socket answers, the order of a directory, what a removal that fails half way leaves, the
  running processes, the known users, what a child does, what a core creates in its directory, and how many rounds the
  watchdog task gets while an operation waits.
\<close>

record environment =
  ev_fault :: "nat \<Rightarrow> io_kind option"
  ev_now :: "nat \<Rightarrow> u64"
  ev_instant :: "nat \<Rightarrow> nat"
  ev_stamp :: "nat \<Rightarrow> u64 \<times> u128 option"
  ev_client :: "nat \<Rightarrow> path \<Rightarrow> node option"
  ev_spawned :: "nat \<Rightarrow> u32"
  ev_reachable :: "nat \<Rightarrow> string \<Rightarrow> bool"
  ev_listing :: "nat \<Rightarrow> path \<Rightarrow> string list"
  ev_survives :: "nat \<Rightarrow> path \<Rightarrow> bool"
  ev_process :: "nat \<Rightarrow> u32 \<Rightarrow> process_entry option"
  ev_user_exists :: "nat \<Rightarrow> u32 \<Rightarrow> bool"
  ev_child :: "nat \<Rightarrow> u32 \<Rightarrow> child_event"
  ev_core_creates :: "nat \<Rightarrow> path \<Rightarrow> node option"
  ev_turns :: "nat \<Rightarrow> nat"

text \<open>
  The state: the number of the next call, the environment, the service's files, the signals it has
  sent, its children that have not been reaped (and those a dropped guard is still killing), watchdogs
  that were replaced while they ran, the statics of the process, and the application data of the owners
  as the legacy clean-up leaves it.
\<close>

record world =
  tick :: nat
  env :: environment
  fs :: "path \<Rightarrow> node option"
  signals :: "(nat \<times> u32 \<times> signal) list"
  children :: "u32 list"
  dropped_children :: "u32 list"
  detached_watchdogs :: "watchdog list"
  self_pid :: u32
  euid :: u32
  cwd :: path
  state_file_sequence :: u64
  staging_temp_sequence :: u64
  service_cell :: u8
  core_cell :: u8
  startup_reconciled :: bool
  log_writer :: "writer_config option"
  core_logs :: "string list"
  mgr :: core_manager
  sys_proxy :: system_proxy
  pac_proxy :: auto_proxy
  owner_trees :: "path \<Rightarrow> tree option"

abbreviation fault :: "world \<Rightarrow> nat \<Rightarrow> io_kind option" where "fault w \<equiv> ev_fault (env w)"
abbreviation now :: "world \<Rightarrow> nat \<Rightarrow> u64" where "now w \<equiv> ev_now (env w)"
abbreviation instant :: "world \<Rightarrow> nat \<Rightarrow> nat" where "instant w \<equiv> ev_instant (env w)"
abbreviation stamp :: "world \<Rightarrow> nat \<Rightarrow> u64 \<times> u128 option" where "stamp w \<equiv> ev_stamp (env w)"
abbreviation client :: "world \<Rightarrow> nat \<Rightarrow> path \<Rightarrow> node option" where "client w \<equiv> ev_client (env w)"
abbreviation listing :: "world \<Rightarrow> nat \<Rightarrow> path \<Rightarrow> string list" where "listing w \<equiv> ev_listing (env w)"
abbreviation survives :: "world \<Rightarrow> nat \<Rightarrow> path \<Rightarrow> bool" where "survives w \<equiv> ev_survives (env w)"

type_synonym 'a io = "(world, io_kind, 'a) op"
type_synonym 'a act = "(world, err, 'a) op"

text \<open>
  One system call: the environment may make it fail, and then it changes nothing; otherwise the
  effect runs in the world whose clock has advanced.
\<close>

definition syscall :: "'a io \<Rightarrow> 'a io" where
  "syscall m w =
     (let w' = w\<lparr>tick := Suc (tick w)\<rparr> in
      case fault w (tick w) of Some k \<Rightarrow> (Inl k, w') | None \<Rightarrow> m w')"

definition io_act :: "'a io \<Rightarrow> 'a act" where
  "io_act m = mapErrE Io m"

definition ctx_io :: "string \<Rightarrow> 'a io \<Rightarrow> 'a act" where
  "ctx_io c m = mapErrE (\<lambda>k. Ctx c (Io k)) m"

definition ctx :: "string \<Rightarrow> 'a act \<Rightarrow> 'a act" where
  "ctx c m = mapErrE (Ctx c) m"

definition get :: "(world \<Rightarrow> 'a) \<Rightarrow> (world, 'e, 'a) op" where
  "get f w = (Inr (f w), w)"

definition modify :: "(world \<Rightarrow> world) \<Rightarrow> (world, 'e, unit) op" where
  "modify f w = (Inr (), f w)"

definition read_clock :: "(world, 'e, u64) op" where
  "read_clock w = (Inr (now w (tick w)), w\<lparr>tick := Suc (tick w)\<rparr>)"

lemmas act_defs = io_act_def ctx_io_def ctx_def get_def modify_def read_clock_def

section \<open>File operations\<close>

definition is_dir :: "(path \<Rightarrow> node option) \<Rightarrow> path \<Rightarrow> bool" where
  "is_dir F p \<longleftrightarrow> (case F p of Some n \<Rightarrow> nd_kind n = Directory | None \<Rightarrow> False)"

definition is_file :: "(path \<Rightarrow> node option) \<Rightarrow> path \<Rightarrow> bool" where
  "is_file F p \<longleftrightarrow> (case F p of Some n \<Rightarrow> nd_kind n = RegularFile | None \<Rightarrow> False)"

definition new_file :: "world \<Rightarrow> content \<Rightarrow> node" where
  "new_file w c =
     \<lparr>nd_kind = RegularFile, nd_uid = euid w, nd_gid = 0, nd_mode = 420, nd_dev = 0,
      nd_len = fst (stamp w (tick w)), nd_mtime = snd (stamp w (tick w)), nd_data = c\<rparr>"

definition new_dir :: "world \<Rightarrow> node" where
  "new_dir w =
     \<lparr>nd_kind = Directory, nd_uid = euid w, nd_gid = 0, nd_mode = 493, nd_dev = 0,
      nd_len = fst (stamp w (tick w)), nd_mtime = snd (stamp w (tick w)), nd_data = Bytes ''''\<rparr>"

definition set_node :: "path \<Rightarrow> node option \<Rightarrow> world \<Rightarrow> world" where
  "set_node p n w = w\<lparr>fs := (fs w)(p := n)\<rparr>"

definition fs_read :: "path \<Rightarrow> content io" where
  "fs_read p = syscall (\<lambda>w.
     (case fs w p of
        None \<Rightarrow> (Inl NotFound, w)
      | Some n \<Rightarrow> if nd_kind n = RegularFile then (Inr (nd_data n), w) else (Inl OtherIo, w)))"

definition fs_try_exists :: "path \<Rightarrow> bool io" where
  "fs_try_exists p = syscall (\<lambda>w. (Inr (fs w p \<noteq> None), w))"

text \<open>\<open>Path::exists\<close> reports a failing look as absence.\<close>

definition fs_exists :: "path \<Rightarrow> (world, 'e, bool) op" where
  "fs_exists p = tryE (fs_try_exists p) (\<lambda>r. okE (case r of Inl _ \<Rightarrow> False | Inr b \<Rightarrow> b))"

definition fs_remove_file :: "path \<Rightarrow> unit io" where
  "fs_remove_file p = syscall (\<lambda>w.
     (case fs w p of
        None \<Rightarrow> (Inl NotFound, w)
      | Some n \<Rightarrow> if nd_kind n = Directory then (Inl OtherIo, w) else (Inr (), set_node p None w)))"

definition fs_rename :: "path \<Rightarrow> path \<Rightarrow> unit io" where
  "fs_rename src dst = syscall (\<lambda>w.
     (case fs w src of
        None \<Rightarrow> (Inl NotFound, w)
      | Some n \<Rightarrow>
          if is_dir (fs w) dst \<or> \<not> is_dir (fs w) (butlast dst) then (Inl OtherIo, w)
          else if src = dst then (Inr (), w)
          else (Inr (), set_node src None (set_node dst (Some n) w))))"

definition fs_create_new :: "path \<Rightarrow> unit io" where
  "fs_create_new p = syscall (\<lambda>w.
     if fs w p \<noteq> None then (Inl AlreadyExists, w)
     else if \<not> is_dir (fs w) (butlast p) then (Inl NotFound, w)
     else (Inr (), set_node p (Some (new_file w (Bytes ''''))) w))"

definition fs_create :: "path \<Rightarrow> unit io" where
  "fs_create p = syscall (\<lambda>w.
     if \<not> is_dir (fs w) (butlast p) then (Inl NotFound, w)
     else if is_dir (fs w) p then (Inl OtherIo, w)
     else (Inr (), set_node p (Some (new_file w (Bytes ''''))) w))"

definition fs_write_all :: "path \<Rightarrow> content \<Rightarrow> unit io" where
  "fs_write_all p c = syscall (\<lambda>w.
     (case fs w p of
        None \<Rightarrow> (Inl NotFound, w)
      | Some n \<Rightarrow> (Inr (), set_node p (Some (n\<lparr>nd_data := c, nd_len := fst (stamp w (tick w)),
                                       nd_mtime := snd (stamp w (tick w))\<rparr>)) w)))"

text \<open>A flush or sync of an open file.\<close>

definition fs_sync :: "unit io" where
  "fs_sync = syscall (\<lambda>w. (Inr (), w))"

definition fs_create_dir :: "path \<Rightarrow> unit io" where
  "fs_create_dir p = syscall (\<lambda>w.
     if fs w p \<noteq> None then (Inl AlreadyExists, w)
     else if \<not> is_dir (fs w) (butlast p) then (Inl NotFound, w)
     else (Inr (), set_node p (Some (new_dir w)) w))"

text \<open>\<open>create_dir_all\<close>: every missing ancestor, then the directory itself.\<close>

fun make_dirs :: "path list \<Rightarrow> unit io" where
  "make_dirs [] = okE ()"
| "make_dirs (p # ps) = bindE (syscall (\<lambda>w.
     if is_dir (fs w) p then (Inr (), w)
     else if fs w p \<noteq> None then (Inl AlreadyExists, w)
     else (Inr (), set_node p (Some (new_dir w)) w))) (\<lambda>_. make_dirs ps)"

definition fs_create_dir_all :: "path \<Rightarrow> unit io" where
  "fs_create_dir_all p = make_dirs (map (\<lambda>k. take (Suc k) p) [0..<length p])"

text \<open>\<open>remove_dir_all\<close>: the directory and all below it; a failing call may have removed some of it.\<close>

definition fs_remove_dir_all :: "path \<Rightarrow> unit io" where
  "fs_remove_dir_all p w =
     (let w' = w\<lparr>tick := Suc (tick w)\<rparr> in
      case fault w (tick w) of
        Some k \<Rightarrow>
          (Inl k, w'\<lparr>fs := \<lambda>q. if path_starts_with p q \<and> \<not> survives w (tick w) q then None else fs w q\<rparr>)
      | None \<Rightarrow>
          (if fs w p = None then (Inl NotFound, w')
           else (Inr (), w'\<lparr>fs := \<lambda>q. if path_starts_with p q then None else fs w q\<rparr>)))"

text \<open>The names in a directory, in the order the kernel gives them.\<close>

definition fs_read_dir :: "path \<Rightarrow> string list io" where
  "fs_read_dir p = syscall (\<lambda>w.
     if \<not> is_dir (fs w) p then (Inl NotFound, w)
     else (Inr (filter (\<lambda>n. fs w (p @ [n]) \<noteq> None) (listing w (tick w) p)), w))"

text \<open>\<open>atomic_file::replace\<close> on Unix.\<close>

definition atomic_replace :: "path \<Rightarrow> path \<Rightarrow> unit io" where
  "atomic_replace source destination = fs_rename source destination"

section \<open>Which files an operation may touch\<close>

text \<open>
  \<open>only P m\<close>: the operation changes no file outside the set \<open>P\<close>. It is a frame fact for each
  path outside \<open>P\<close>.
\<close>

definition only :: "(path \<Rightarrow> bool) \<Rightarrow> (world \<Rightarrow> 'r \<times> world) \<Rightarrow> bool" where
  "only P m \<longleftrightarrow> (\<forall>p. \<not> P p \<longrightarrow> keeps (\<lambda>w. fs w p) m)"

lemma onlyD: "only P m \<Longrightarrow> \<not> P p \<Longrightarrow> m w = (r, v) \<Longrightarrow> fs v p = fs w p"
  unfolding only_def by (blast dest: keepsD [where f = "\<lambda>w. fs w p"])

lemma only_mono: "only P m \<Longrightarrow> (\<And>p. P p \<Longrightarrow> Q p) \<Longrightarrow> only Q m"
  unfolding only_def by blast

section \<open>Frame facts of the primitives\<close>

lemma keeps_syscall [frame]:
  assumes "keeps f m" and "\<And>w n. f (w\<lparr>tick := n\<rparr>) = f w"
  shows "keeps f (syscall m)"
  using assms by (simp add: keeps_def syscall_def Let_def split: option.splits)

lemma keeps_io_act [frame]: "keeps f m \<Longrightarrow> keeps f (io_act m)"
  by (simp add: io_act_def frame)

lemma keeps_ctx_io [frame]: "keeps f m \<Longrightarrow> keeps f (ctx_io c m)"
  by (simp add: ctx_io_def frame)

lemma keeps_ctx [frame]: "keeps f m \<Longrightarrow> keeps f (ctx c m)"
  by (simp add: ctx_def frame)

lemma keeps_get [frame]: "keeps f (get g)"
  by (simp add: keeps_def get_def)

lemma keeps_modify [frame]: "(\<And>w. f (g w) = f w) \<Longrightarrow> keeps f (modify g)"
  by (simp add: keeps_def modify_def)

lemma keeps_read_clock [frame]: "(\<And>w n. f (w\<lparr>tick := n\<rparr>) = f w) \<Longrightarrow> keeps f read_clock"
  by (simp add: keeps_def read_clock_def)

text \<open>
  A view of the world that neither reads the clock nor the service's files is untouched by every
  file operation.
\<close>

definition blind_to_files :: "(world \<Rightarrow> 'b) \<Rightarrow> bool" where
  "blind_to_files f \<longleftrightarrow> (\<forall>w n F. f (w\<lparr>tick := n\<rparr>) = f w \<and> f (w\<lparr>fs := F\<rparr>) = f w)"

lemma blind_tick: "blind_to_files f \<Longrightarrow> f (w\<lparr>tick := n\<rparr>) = f w"
  by (simp add: blind_to_files_def)

lemma blind_node: "blind_to_files f \<Longrightarrow> f (set_node p n w) = f w"
  by (simp add: blind_to_files_def set_node_def)

lemma blind_syscall: "blind_to_files f \<Longrightarrow> keeps f m \<Longrightarrow> keeps f (syscall m)"
  by (rule keeps_syscall) (simp_all add: blind_tick)

lemma blind_file_ops [blind]:
  assumes f: "blind_to_files f"
  shows "keeps f (fs_read p)" "keeps f (fs_try_exists p)" "keeps f (fs_remove_file p)"
    "keeps f (fs_rename p q)" "keeps f (fs_create_new p)" "keeps f (fs_create p)"
    "keeps f (fs_write_all p c)" "keeps f fs_sync" "keeps f (fs_create_dir p)" "keeps f (fs_read_dir p)"
  unfolding fs_read_dir_def fs_read_def fs_try_exists_def fs_remove_file_def fs_rename_def fs_create_new_def
    fs_create_def fs_write_all_def fs_sync_def fs_create_dir_def
  by (rule blind_syscall [OF f], simp add: keeps_def blind_node [OF f] split: option.splits)+

lemma blind_make_dirs: "blind_to_files f \<Longrightarrow> keeps f (make_dirs ps)"
proof (induction ps)
  case Nil
  show ?case by (simp add: frame)
next
  case (Cons p ps)
  then have f: "blind_to_files f" and IH: "keeps f (make_dirs ps)" by auto
  show ?case
    unfolding make_dirs.simps
    by (intro keeps_bindE blind_syscall f IH) (simp add: keeps_def blind_node [OF f])
qed

lemma blind_dirs_replace [blind]:
  assumes f: "blind_to_files f"
  shows "keeps f (fs_create_dir_all p)" "keeps f (atomic_replace p q)" "keeps f (fs_exists p)"
  unfolding fs_create_dir_all_def atomic_replace_def fs_exists_def
  by (simp_all add: blind_make_dirs f frame blind)

lemma blind_fields [simp]:
  "blind_to_files env" "blind_to_files signals" "blind_to_files children" "blind_to_files dropped_children"
  "blind_to_files detached_watchdogs" "blind_to_files self_pid" "blind_to_files euid" "blind_to_files cwd"
  "blind_to_files service_cell" "blind_to_files core_cell" "blind_to_files startup_reconciled"
  "blind_to_files log_writer" "blind_to_files core_logs" "blind_to_files mgr"
  "blind_to_files sys_proxy" "blind_to_files pac_proxy"
  "blind_to_files state_file_sequence" "blind_to_files staging_temp_sequence"
  by (simp_all add: blind_to_files_def)

lemma blind_remove_dir_all [blind]: "blind_to_files f \<Longrightarrow> keeps f (fs_remove_dir_all p)"
  unfolding keeps_def fs_remove_dir_all_def Let_def blind_to_files_def
  by (auto split: option.splits)

lemma remove_dir_all_other [files]:
  "\<not> path_starts_with q p \<Longrightarrow> keeps (\<lambda>w. fs w p) (fs_remove_dir_all q)"
  by (simp add: keeps_def fs_remove_dir_all_def Let_def split: option.splits)

lemma keeps_file_syscall:
  assumes "\<And>w. fs (snd (m w)) p = fs w p"
  shows "keeps (\<lambda>w. fs w p) (syscall m)"
  by (rule keeps_syscall) (simp_all add: keeps_def assms)

lemma set_node_other [simp]: "p \<noteq> q \<Longrightarrow> fs (set_node q n w) p = fs w p"
  by (simp add: set_node_def)

lemma set_node_same [simp]: "fs (set_node q n w) q = n"
  by (simp add: set_node_def)

lemma file_ops_other [files]:
  "keeps (\<lambda>w. fs w p) (fs_read q)"
  "keeps (\<lambda>w. fs w p) (fs_try_exists q)"
  "keeps (\<lambda>w. fs w p) fs_sync"
  "keeps (\<lambda>w. fs w p) (fs_read_dir q)"
  "p \<noteq> q \<Longrightarrow> keeps (\<lambda>w. fs w p) (fs_remove_file q)"
  "p \<noteq> q \<Longrightarrow> p \<noteq> q' \<Longrightarrow> keeps (\<lambda>w. fs w p) (fs_rename q q')"
  "p \<noteq> q \<Longrightarrow> p \<noteq> q' \<Longrightarrow> keeps (\<lambda>w. fs w p) (atomic_replace q q')"
  "p \<noteq> q \<Longrightarrow> keeps (\<lambda>w. fs w p) (fs_create_new q)"
  "p \<noteq> q \<Longrightarrow> keeps (\<lambda>w. fs w p) (fs_create q)"
  "p \<noteq> q \<Longrightarrow> keeps (\<lambda>w. fs w p) (fs_write_all q c)"
  "p \<noteq> q \<Longrightarrow> keeps (\<lambda>w. fs w p) (fs_create_dir q)"
  unfolding fs_read_dir_def fs_read_def fs_try_exists_def fs_remove_file_def fs_rename_def fs_create_new_def
    fs_create_def fs_write_all_def fs_sync_def fs_create_dir_def atomic_replace_def
  by (rule keeps_file_syscall, simp split: option.splits)+

lemma fs_tick [simp]: "fs (w\<lparr>tick := n\<rparr>) = fs w"
  by simp

section \<open>Runs that succeed\<close>

lemma syscall_Inr: "syscall m w = (Inr x, v) \<longleftrightarrow>
    fault w (tick w) = None \<and> m (w\<lparr>tick := Suc (tick w)\<rparr>) = (Inr x, v)"
  by (simp add: syscall_def Let_def split: option.splits)

lemma ctx_io_Inr [simp]: "ctx_io c m w = (Inr x, v) \<longleftrightarrow> m w = (Inr x, v)"
  by (simp add: ctx_io_def)

lemma ctx_Inr [simp]: "ctx c m w = (Inr x, v) \<longleftrightarrow> m w = (Inr x, v)"
  by (simp add: ctx_def)

lemma io_act_Inr [simp]: "io_act m w = (Inr x, v) \<longleftrightarrow> m w = (Inr x, v)"
  by (simp add: io_act_def)

lemma get_Inr [simp]: "get f w = (Inr x, v) \<longleftrightarrow> x = f w \<and> v = w"
  by (auto simp: get_def)

lemma modify_Inr [simp]: "modify f w = (Inr x, v) \<longleftrightarrow> v = f w"
  by (auto simp: modify_def)

lemma tryE_eq: "tryE m k s = k (fst (m s)) (snd (m s))"
  by (simp add: tryE_def split: prod.splits)

section \<open>Honest failures\<close>

text \<open>
  The kernel reports a missing file, and one that is there already, only when that is the case: a
  call the environment makes fail gives another error.
\<close>

definition honest :: "world \<Rightarrow> bool" where
  "honest w \<longleftrightarrow> (\<forall>n. fault w n \<noteq> Some NotFound \<and> fault w n \<noteq> Some AlreadyExists)"

lemma honest_env: "env v = env w \<Longrightarrow> honest v = honest w"
  by (simp add: honest_def)

lemma fs_read_not_found: "honest w \<Longrightarrow> fs_read p w = (Inl NotFound, v) \<Longrightarrow> fs w p = None"
  by (auto simp: fs_read_def syscall_def Let_def honest_def split: option.splits if_splits)

lemma fs_read_ok: "fs_read p w = (Inr c, v) \<Longrightarrow>
    \<exists>n. fs w p = Some n \<and> nd_kind n = RegularFile \<and> nd_data n = c \<and> v = w\<lparr>tick := Suc (tick w)\<rparr>"
  by (auto simp: fs_read_def syscall_Inr split: option.splits if_splits)

section \<open>Lifecycle cells\<close>

definition set_service_lifecycle_state :: "lifecycle_state \<Rightarrow> world \<Rightarrow> world" where
  "set_service_lifecycle_state s w = w\<lparr>service_cell := lifecycle_as_u8 s\<rparr>"

definition service_lifecycle_state :: "world \<Rightarrow> lifecycle_state" where
  "service_lifecycle_state w = lifecycle_from_u8 (service_cell w)"

definition set_core_lifecycle_state :: "lifecycle_state \<Rightarrow> world \<Rightarrow> world" where
  "set_core_lifecycle_state s w = w\<lparr>core_cell := lifecycle_as_u8 s\<rparr>"

definition core_lifecycle_state :: "world \<Rightarrow> lifecycle_state" where
  "core_lifecycle_state w = lifecycle_from_u8 (core_cell w)"

lemma core_state_set [simp]: "core_lifecycle_state (set_core_lifecycle_state s w) = s"
  by (simp add: core_lifecycle_state_def set_core_lifecycle_state_def)

lemma service_state_set [simp]: "service_lifecycle_state (set_service_lifecycle_state s w) = s"
  by (simp add: service_lifecycle_state_def set_service_lifecycle_state_def)

section \<open>The parameters of a build\<close>

text \<open>
  What the code takes from outside its sources: the build configuration, the SHA-256 digest of the
  \<open>sha2\<close> crate, the package version, the URL parser of the \<open>url\<close> crate (what the code reads of
  a parsed URL), and the two setters of the \<open>sysproxy\<close> crate.
\<close>

datatype url_host = HostV4 "u8 list" | HostV6 "u16 list" | HostDomain string

record url_view =
  url_scheme :: string
  url_username :: string
  url_password :: "string option"
  url_query :: "string option"
  url_fragment :: "string option"
  url_path :: string
  url_host :: "url_host option"
  url_host_str :: "string option"

record params =
  bd :: build
  sha256 :: "string \<Rightarrow> u8 list"
  pkg_version :: string
  url_parse :: "string \<Rightarrow> url_view option"
  sysproxy_set :: "system_proxy \<Rightarrow> unit act"
  autoproxy_set :: "auto_proxy \<Rightarrow> unit act"

text \<open>
  What the code relies on from \<open>sysproxy\<close>: its setters touch the proxy settings of the machine and
  nothing of the service, and a setter that succeeds leaves its own setting as asked and the other
  one alone.
\<close>

definition proxy_library :: "params \<Rightarrow> bool" where
  "proxy_library E \<longleftrightarrow>
     (\<forall>p w. \<exists>s a n. snd (sysproxy_set E p w) = w\<lparr>sys_proxy := s, pac_proxy := a, tick := n\<rparr>) \<and>
     (\<forall>p w. \<exists>s a n. snd (autoproxy_set E p w) = w\<lparr>sys_proxy := s, pac_proxy := a, tick := n\<rparr>) \<and>
     (\<forall>p w v. sysproxy_set E p w = (Inr (), v) \<longrightarrow> sys_proxy v = p \<and> pac_proxy v = pac_proxy w) \<and>
     (\<forall>p w v. autoproxy_set E p w = (Inr (), v) \<longrightarrow> pac_proxy v = p \<and> sys_proxy v = sys_proxy w)"

definition paths_of :: "params \<Rightarrow> service_paths" where
  "paths_of E = service_paths_of (bd E)"

section \<open>A world to compute in\<close>

text \<open>
  A world in which no call fails, with the given files; concrete runs of the operations start here.
\<close>

definition idle_manager :: core_manager where
  "idle_manager =
     \<lparr>running_pid = 0, running_config = None, core_start_time = None, core_started_at = 0,
      last_core_exit_reason = None, restart_count = 0, last_recovery_at = 0,
      watchdog_handle = None, failed_child = None\<rparr>"

definition calm_env :: environment where
  "calm_env =
     \<lparr>ev_fault = (\<lambda>_. None), ev_now = (\<lambda>_. 1000), ev_instant = (\<lambda>t. t), ev_stamp = (\<lambda>_. (0, None)),
      ev_client = (\<lambda>_ _. None), ev_spawned = (\<lambda>_. 4242), ev_reachable = (\<lambda>_ _. True),
      ev_listing = (\<lambda>_ _. []), ev_survives = (\<lambda>_ _. False), ev_process = (\<lambda>_ _. None),
      ev_user_exists = (\<lambda>_ _. False), ev_child = (\<lambda>_ _. StillRunning), ev_core_creates = (\<lambda>_ _. None),
      ev_turns = (\<lambda>_. 0)\<rparr>"

definition calm_world :: "(path \<Rightarrow> node option) \<Rightarrow> world" where
  "calm_world F =
     \<lparr>tick = 0, env = calm_env, fs = F, signals = [], children = [], dropped_children = [],
      detached_watchdogs = [], self_pid = 77, euid = 0, cwd = [], state_file_sequence = 0,
      staging_temp_sequence = 0, service_cell = 1, core_cell = 0, startup_reconciled = True,
      log_writer = None, core_logs = [], mgr = idle_manager,
      sys_proxy = \<lparr>pxs_host = '''', pxs_port = 0, pxs_bypass = '''', pxs_enable = False\<rparr>,
      pac_proxy = \<lparr>pxa_url = '''', pxa_enable = False\<rparr>, owner_trees = Map.empty\<rparr>"

definition directory_node :: "u32 \<Rightarrow> node" where
  "directory_node uid =
     \<lparr>nd_kind = Directory, nd_uid = uid, nd_gid = 0, nd_mode = 448, nd_dev = 0, nd_len = 0,
      nd_mtime = None, nd_data = Bytes ''''\<rparr>"

definition file_node :: "u32 \<Rightarrow> content \<Rightarrow> node" where
  "file_node uid c =
     \<lparr>nd_kind = RegularFile, nd_uid = uid, nd_gid = 0, nd_mode = 384, nd_dev = 0, nd_len = 0,
      nd_mtime = None, nd_data = c\<rparr>"

definition plain_params :: params where
  "plain_params =
     \<lparr>bd = \<lparr>os = Linux, development_channel = False\<rparr>, sha256 = (\<lambda>s. replicate 32 (of_nat (length s))),
      pkg_version = ''2.0.0'', url_parse = (\<lambda>_. None),
      sysproxy_set = (\<lambda>p. modify (\<lambda>w. w\<lparr>sys_proxy := p\<rparr>)),
      autoproxy_set = (\<lambda>p. modify (\<lambda>w. w\<lparr>pac_proxy := p\<rparr>))\<rparr>"

lemma proxy_library_plain [simp]: "proxy_library plain_params"
proof -
  have "\<exists>s a n. w\<lparr>sys_proxy := p\<rparr> = w\<lparr>sys_proxy := s, pac_proxy := a, tick := n\<rparr>" for w p
    by (intro exI [of _ p] exI [of _ "pac_proxy w"] exI [of _ "tick w"]) simp
  moreover have "\<exists>s a n. w\<lparr>pac_proxy := p\<rparr> = w\<lparr>sys_proxy := s, pac_proxy := a, tick := n\<rparr>" for w p
    by (intro exI [of _ "sys_proxy w"] exI [of _ p] exI [of _ "tick w"]) simp
  ultimately show ?thesis
    by (auto simp: proxy_library_def plain_params_def modify_def)
qed

end
