(* ===== verification/Auth.thy ===== *)
theory Auth
  imports World
begin

text \<open>
  \<open>src/core/auth.rs\<close>: the service error type, the session token hash, the magic header, the Unix
  owner authentication against the kernel's peer credentials, and the Windows owner authentication
  against a token file and its access control list. Requests come from the \<open>kode_bridge\<close> server;
  the record below holds what the code reads of one.
\<close>

record request_context =
  rq_headers :: "string \<Rightarrow> string option"
  rq_peer_uid :: "u32 option"
  rq_peer_gid :: "u32 option"

record authenticated_owner =
  au_key :: string
  au_identity :: owner_identity
  au_app_data_root :: path

record service_error =
  se_code :: service_error_code
  se_message :: string

definition service_error_new :: "service_error_code \<Rightarrow> string \<Rightarrow> service_error" where
  "service_error_new c m = \<lparr>se_code = c, se_message = m\<rparr>"

definition se_unauthorized :: "string \<Rightarrow> service_error" where
  "se_unauthorized m = service_error_new UnauthorizedOwner m"

definition se_not_active :: service_error where
  "se_not_active = service_error_new NotActive ''owner is authenticated but is not active''"

definition se_owner_switch_failed :: "string \<Rightarrow> service_error" where
  "se_owner_switch_failed m = service_error_new OwnerSwitchFailed m"

definition se_protocol_mismatch :: service_error where
  "se_protocol_mismatch = service_error_new ProtocolMismatch ''service protocol version does not match''"

definition se_stale_owner_session :: service_error where
  "se_stale_owner_session = service_error_new StaleOwnerSession ''owner session is stale or invalid''"

definition se_invalid_proxy_config :: "string \<Rightarrow> service_error" where
  "se_invalid_proxy_config m = service_error_new InvalidProxyConfig m"

definition se_proxy_clear_failed :: "string \<Rightarrow> service_error" where
  "se_proxy_clear_failed m = service_error_new ProxyClearFailed m"

definition se_proxy_apply_failed :: "string \<Rightarrow> service_error" where
  "se_proxy_apply_failed m = service_error_new ProxyApplyFailed m"

lemmas service_error_defs =
  service_error_new_def se_unauthorized_def se_not_active_def se_owner_switch_failed_def
  se_protocol_mismatch_def se_stale_owner_session_def se_invalid_proxy_config_def
  se_proxy_clear_failed_def se_proxy_apply_failed_def

lemma error_codes_simps [simp]:
  "se_code (se_unauthorized m) = UnauthorizedOwner"
  "se_code se_not_active = NotActive"
  "se_code (se_owner_switch_failed m) = OwnerSwitchFailed"
  "se_code se_protocol_mismatch = ProtocolMismatch"
  "se_code se_stale_owner_session = StaleOwnerSession"
  "se_code (se_invalid_proxy_config m) = InvalidProxyConfig"
  "se_code (se_proxy_clear_failed m) = ProxyClearFailed"
  "se_code (se_proxy_apply_failed m) = ProxyApplyFailed"
  by (simp_all add: service_error_defs)

section \<open>Session tokens\<close>

definition hash_session_token :: "(string \<Rightarrow> u8 list) \<Rightarrow> string \<Rightarrow> err + string" where
  "hash_session_token sha token =
     (if length token = SESSION_TOKEN_HEX_LEN \<and> list_all is_lower_hex token
      then Inr (hex_bytes (sha token))
      else Inl (Msg ''owner session token must be 64 lowercase hexadecimal characters''))"

text \<open>
  \<open>constant_time_eq\<close> of \<open>src/core/server.rs\<close> and of the Windows authentication: it looks at every
  byte pair and accumulates the differences.
\<close>

definition byte_of :: "char \<Rightarrow> u8" where
  "byte_of c = of_nat (of_char c)"

definition accumulate_difference :: "(u8 \<times> u8) list \<Rightarrow> u8" where
  "accumulate_difference ps = foldl (\<lambda>difference (a, b). difference OR (a XOR b)) 0 ps"

definition constant_time_eq :: "u8 list \<Rightarrow> u8 list \<Rightarrow> bool" where
  "constant_time_eq left right =
     (if length left \<noteq> length right then False
      else accumulate_difference (zip left right) = 0)"

lemma or_zero: "(a :: u8) OR b = 0 \<longleftrightarrow> a = 0 \<and> b = 0"
  by (rule or_eq_0_iff)

lemma xor_zero: "(a :: u8) XOR b = 0 \<longleftrightarrow> a = b"
  by (metis xor.left_neutral xor.right_neutral xor_self_eq xor.assoc)

lemma accumulate_zero:
  "foldl (\<lambda>difference (a, b). difference OR (a XOR b)) (d :: u8) ps = 0 \<longleftrightarrow>
   d = 0 \<and> (\<forall>p \<in> set ps. fst p = snd p)"
proof (induction ps arbitrary: d)
  case Nil
  show ?case by simp
next
  case (Cons p ps)
  obtain a b where p: "p = (a, b)" by (cases p)
  have "d OR (a XOR b) = 0 \<longleftrightarrow> d = 0 \<and> a = b"
    by (simp only: or_zero xor_zero)
  then show ?case
    unfolding p foldl_Cons prod.case Cons.IH by auto
qed

lemma byte_of_inj: "byte_of a = byte_of b \<Longrightarrow> a = b"
proof -
  assume "byte_of a = byte_of b"
  then have "unat (byte_of a) = unat (byte_of b)" by simp
  then have "take_bit 8 (of_char a :: nat) = take_bit 8 (of_char b)"
    by (simp add: byte_of_def unsigned_of_nat)
  moreover have "take_bit 8 (of_char c :: nat) = of_char c" for c
    by (simp add: take_bit_nat_eq_self)
  ultimately show ?thesis by simp
qed

text \<open>
  The comparison that hides timing decides equality, of whatever lengths.
\<close>

lemma constant_time_eq_iff: "constant_time_eq left right \<longleftrightarrow> left = right"
proof (cases "length left = length right")
  case True
  have "(\<forall>p \<in> set (zip left right). fst p = snd p) \<longleftrightarrow> left = right"
    using True by (induction left right rule: list_induct2) auto
  with True show ?thesis
    by (simp add: constant_time_eq_def accumulate_difference_def accumulate_zero)
next
  case False
  then show ?thesis by (auto simp: constant_time_eq_def)
qed

definition str_bytes :: "string \<Rightarrow> u8 list" where
  "str_bytes s = map byte_of s"

lemma str_bytes_inj [simp]: "str_bytes a = str_bytes b \<longleftrightarrow> a = b"
  unfolding str_bytes_def by (rule inj_map_eq_map) (simp add: inj_def byte_of_inj)

lemma hash_session_token_Inr:
  "hash_session_token sha t = Inr h \<longleftrightarrow>
   length t = 64 \<and> list_all is_lower_hex t \<and> h = hex_bytes (sha t)"
  by (auto simp: hash_session_token_def SESSION_TOKEN_HEX_LEN_def)

section \<open>Headers\<close>

text \<open>A header value reads as a string when its bytes are visible ASCII or a tab.\<close>

definition header_to_str :: "string \<Rightarrow> string option" where
  "header_to_str v =
     (if list_all (\<lambda>c. (32 \<le> (of_char c :: nat) \<and> (of_char c :: nat) < 127) \<or> (of_char c :: nat) = 9) v
      then Some v else None)"

datatype bridge_error = ClientError u16

definition ipc_request_context_to_auth_context :: "request_context \<Rightarrow> bridge_error + unit" where
  "ipc_request_context_to_auth_context c =
     (case rq_headers c ''X-IPC-Magic'' of
        Some token \<Rightarrow> if token = IPC_AUTH_EXPECT then Inr () else Inl (ClientError 401)
      | None \<Rightarrow> Inl (ClientError 401))"

section \<open>Looking at client-owned files\<close>

text \<open>
  \<open>realpath\<close>: the path with every link followed. At most forty links are followed. The target of a
  link is its contents.
\<close>

fun link_target :: "node \<Rightarrow> string" where
  "link_target n = (case nd_data n of Bytes s \<Rightarrow> s | JsonText _ \<Rightarrow> '''')"

fun resolve :: "(path \<Rightarrow> node option) \<Rightarrow> nat \<Rightarrow> path \<Rightarrow> component list \<Rightarrow> path option" where
  "resolve F k done [] = Some done"
| "resolve F k done (RootDir # cs) = resolve F k [] cs"
| "resolve F k done (CurDir # cs) = resolve F k done cs"
| "resolve F k done (ParentDir # cs) = resolve F k (butlast done) cs"
| "resolve F k done (Normal p # cs) =
     (case F (done @ [p]) of
        None \<Rightarrow> None
      | Some n \<Rightarrow>
          if nd_kind n = Symlink then
            (case k of 0 \<Rightarrow> None | Suc k' \<Rightarrow> resolve F k' done (components (link_target n) @ cs))
          else if cs \<noteq> [] \<and> nd_kind n \<noteq> Directory then None
          else resolve F k (done @ [p]) cs)"

text \<open>No component of the path, from the root down, is a link or missing.\<close>

definition canonical :: "(path \<Rightarrow> node option) \<Rightarrow> path \<Rightarrow> bool" where
  "canonical F p \<longleftrightarrow>
     (\<forall>k < length p. \<exists>n. F (take (Suc k) p) = Some n \<and> nd_kind n \<noteq> Symlink)"

lemma canonical_Nil [simp]: "canonical F []"
  by (simp add: canonical_def)

lemma canonical_snoc:
  "canonical F (p @ [x]) \<longleftrightarrow> canonical F p \<and> (\<exists>n. F (p @ [x]) = Some n \<and> nd_kind n \<noteq> Symlink)"
  by (auto simp: canonical_def less_Suc_eq)

lemma canonical_butlast: "canonical F p \<Longrightarrow> canonical F (butlast p)"
  by (cases p rule: rev_cases) (auto simp: canonical_snoc)

lemma resolve_canonical: "resolve F k done cs = Some p \<Longrightarrow> canonical F done \<Longrightarrow> canonical F p"
proof (induction F k "done" cs rule: resolve.induct)
  case (5 F k "done" q cs)
  then show ?case
    by (auto simp: canonical_snoc split: option.splits if_splits nat.splits)
qed (auto intro: canonical_butlast)

definition client_view :: "world \<Rightarrow> path \<Rightarrow> node option" where
  "client_view w = client w (tick w)"

definition client_canonicalize :: "string \<Rightarrow> path io" where
  "client_canonicalize s = syscall (\<lambda>w.
     (case resolve (client_view w) 40 (cwd w) (components s) of
        None \<Rightarrow> (Inl NotFound, w) | Some p \<Rightarrow> (Inr p, w)))"

text \<open>\<open>metadata\<close> follows links, \<open>symlink_metadata\<close> does not follow the last one.\<close>

definition client_metadata :: "string \<Rightarrow> node io" where
  "client_metadata s = syscall (\<lambda>w.
     (case resolve (client_view w) 40 (cwd w) (components s) of
        None \<Rightarrow> (Inl NotFound, w)
      | Some p \<Rightarrow> (case client_view w p of None \<Rightarrow> (Inl NotFound, w) | Some n \<Rightarrow> (Inr n, w))))"

definition client_symlink_metadata :: "string \<Rightarrow> node io" where
  "client_symlink_metadata s = syscall (\<lambda>w.
     (let cs = components s in
      case resolve (client_view w) 40 (cwd w) (butlast cs) of
        None \<Rightarrow> (Inl NotFound, w)
      | Some d \<Rightarrow>
          (case normal_name (if cs = [] then CurDir else last cs) of
             None \<Rightarrow>
               (case resolve (client_view w) 40 (cwd w) cs of
                  None \<Rightarrow> (Inl NotFound, w)
                | Some p \<Rightarrow> (case client_view w p of None \<Rightarrow> (Inl NotFound, w) | Some n \<Rightarrow> (Inr n, w)))
           | Some name \<Rightarrow>
               (case client_view w (d @ [name]) of None \<Rightarrow> (Inl NotFound, w) | Some n \<Rightarrow> (Inr n, w)))))"

lemma client_ops_keep [frame]:
  assumes "\<And>w n. f (w\<lparr>tick := n\<rparr>) = f w"
  shows "keeps f (client_canonicalize s)" "keeps f (client_metadata s)" "keeps f (client_symlink_metadata s)"
  unfolding client_canonicalize_def client_metadata_def client_symlink_metadata_def Let_def
  by (rule keeps_syscall, simp add: keeps_def split: option.splits, rule assms)+

section \<open>Unix owners\<close>

definition validate_unix_identity :: "owner_identity \<Rightarrow> (u32 \<times> u32) option \<Rightarrow> service_error + unit" where
  "validate_unix_identity declared peer =
     (case declared of
        WindowsOwner _ \<Rightarrow> Inl (se_unauthorized ''owner identity does not match the Unix transport'')
      | UnixOwner uid gid \<Rightarrow>
          (case peer of
             None \<Rightarrow> Inl (se_unauthorized ''kernel peer credentials are unavailable'')
           | Some (peer_uid, peer_gid) \<Rightarrow>
               if uid \<noteq> peer_uid \<or> gid \<noteq> peer_gid
               then Inl (se_unauthorized ''declared owner does not match kernel peer credentials'')
               else Inr ()))"

definition zip_option :: "'a option \<Rightarrow> 'b option \<Rightarrow> ('a \<times> 'b) option" where
  "zip_option a b = (case (a, b) of (Some x, Some y) \<Rightarrow> Some (x, y) | _ \<Rightarrow> None)"

definition authenticate_owner ::
  "params \<Rightarrow> request_context \<Rightarrow> owner_credentials \<Rightarrow> (world, service_error, authenticated_owner) op" where
  "authenticate_owner E c cred =
     bindE (liftE (validate_unix_identity (cred_identity cred)
              (zip_option (rq_peer_uid c) (rq_peer_gid c)))) (\<lambda>_.
     bindE (mapErrE (\<lambda>_. se_unauthorized ''application data root is unavailable'')
              (client_canonicalize (cred_app_data_dir cred))) (\<lambda>app_data_root.
     bindE (mapErrE (\<lambda>_. se_unauthorized ''application data root metadata is unavailable'')
              (client_metadata (path_text app_data_root))) (\<lambda>metadata.
       (case cred_identity cred of
          WindowsOwner _ \<Rightarrow> failE (se_unauthorized ''owner identity does not match the Unix transport'')
        | UnixOwner uid gid \<Rightarrow>
            if nd_kind metadata \<noteq> Directory \<or> nd_uid metadata \<noteq> uid
            then failE (se_unauthorized ''application data root is not an owner-controlled directory'')
            else okE \<lparr>au_key = owner_key (sha256 E) (cred_identity cred),
                      au_identity = cred_identity cred,
                      au_app_data_root = app_data_root\<rparr>))))"

lemma authenticate_owner_keeps [frame]:
  "(\<And>w n. f (w\<lparr>tick := n\<rparr>) = f w) \<Longrightarrow> keeps f (authenticate_owner E c cred)"
  unfolding authenticate_owner_def
  by (auto intro!: frame split: owner_identity.splits)

lemma owner_auth_code:
  assumes "fst (authenticate_owner E c cred w) = Inl e"
  shows "se_code e = UnauthorizedOwner"
  using assms
  by (auto simp: authenticate_owner_def validate_unix_identity_def run_defs
      split: prod.splits sum.splits owner_identity.splits if_splits option.splits
      elim!: map_err.elims)

text \<open>
  C20. Nobody authenticates as somebody else. When the service accepts a request's owner, the kernel
  reported exactly the declared user and group for the peer, the state key is that user's, and the
  application root the service will read from is a canonical path to a directory that the same user
  owned when it was checked. The check changes no state.
\<close>

theorem authenticate_owner_sound:
  assumes "authenticate_owner E c cred w = (Inr ow, v)"
    and "canonical (client w (Suc (tick w))) (cwd w)"
  shows "\<exists>uid gid n. cred_identity cred = UnixOwner uid gid \<and>
           rq_peer_uid c = Some uid \<and> rq_peer_gid c = Some gid \<and>
           au_identity ow = UnixOwner uid gid \<and> au_key ow = show_nat (unat uid) \<and>
           canonical (client w (Suc (tick w))) (au_app_data_root ow) \<and>
           client_metadata (path_text (au_app_data_root ow)) (w\<lparr>tick := Suc (tick w)\<rparr>) = (Inr n, v) \<and>
           nd_kind n = Directory \<and> nd_uid n = uid \<and> v = w\<lparr>tick := Suc (Suc (tick w))\<rparr>"
proof -
  from assms(1) obtain root w2 n where
    val: "validate_unix_identity (cred_identity cred) (zip_option (rq_peer_uid c) (rq_peer_gid c)) = Inr ()"
    and can: "client_canonicalize (cred_app_data_dir cred) w = (Inr root, w2)"
    and met: "client_metadata (path_text root) w2 = (Inr n, v)"
    by (auto simp: authenticate_owner_def bindE_Inr liftE_def)
      (auto split: owner_identity.splits if_splits)
  from val obtain uid gid where u: "cred_identity cred = UnixOwner uid gid"
    and p: "rq_peer_uid c = Some uid" "rq_peer_gid c = Some gid"
    by (auto simp: validate_unix_identity_def zip_option_def
        split: owner_identity.splits option.splits if_splits)
  from can have w2: "w2 = w\<lparr>tick := Suc (tick w)\<rparr>"
    and res: "resolve (client w (Suc (tick w))) 40 (cwd w) (components (cred_app_data_dir cred)) = Some root"
    by (auto simp: client_canonicalize_def syscall_Inr client_view_def split: option.splits)
  from met w2 have v: "v = w\<lparr>tick := Suc (Suc (tick w))\<rparr>"
    by (auto simp: client_metadata_def syscall_Inr split: option.splits)
  from assms(1) val can met u have "nd_kind n = Directory" "nd_uid n = uid"
    and ow: "ow = \<lparr>au_key = show_nat (unat uid), au_identity = UnixOwner uid gid, au_app_data_root = root\<rparr>"
    by (auto simp: authenticate_owner_def bindE_def liftE_def mapErrE_def failE_def okE_def split: if_splits)
  with u p res w2 met v assms(2) show ?thesis
    by (intro exI [of _ uid] exI [of _ gid] exI [of _ n]) (auto intro: resolve_canonical)
qed

theorem authenticate_owner_sound_witness:
  "fst (authenticate_owner plain_params
     \<lparr>rq_headers = (\<lambda>_. None), rq_peer_uid = Some 501, rq_peer_gid = Some 20\<rparr>
     \<lparr>cred_identity = UnixOwner 501 20, cred_app_data_dir = ''/data'', cred_token = None\<rparr>
     ((calm_world Map.empty)\<lparr>env := calm_env\<lparr>ev_client := \<lambda>_. [[''data''] \<mapsto> directory_node 501]\<rparr>\<rparr>)) =
   Inr \<lparr>au_key = ''501'', au_identity = UnixOwner 501 20, au_app_data_root = [''data'']\<rparr> \<and>
   canonical [[''data''] \<mapsto> directory_node 501] [''data'']"
proof -
  let ?w = "(calm_world Map.empty)\<lparr>env := calm_env\<lparr>ev_client := \<lambda>_. [[''data''] \<mapsto> directory_node 501]\<rparr>\<rparr>"
  let ?r = "authenticate_owner plain_params
     \<lparr>rq_headers = (\<lambda>_. None), rq_peer_uid = Some 501, rq_peer_gid = Some 20\<rparr>
     \<lparr>cred_identity = UnixOwner 501 20, cred_app_data_dir = ''/data'', cred_token = None\<rparr> ?w"
  have f: "fst ?r = Inr \<lparr>au_key = ''501'', au_identity = UnixOwner 501 20, au_app_data_root = [''data'']\<rparr>"
    by code_simp
  then have "?r = (Inr \<lparr>au_key = ''501'', au_identity = UnixOwner 501 20, au_app_data_root = [''data'']\<rparr>, snd ?r)"
    by (metis prod.collapse)
  from authenticate_owner_sound [OF this] f show ?thesis
    by (simp add: calm_world_def calm_env_def)
qed

section \<open>Windows owners\<close>

text \<open>
  What the Windows calls report, as the code reads it. A handle is what the code can ask of an open
  file; a security descriptor holds an owner, a discretionary list whose entries may be unreadable,
  and control bits. Paths, SIDs and tokens are strings.
\<close>

record ace =
  ace_type :: u8
  ace_mask :: u32
  ace_sid :: string
  ace_sid_valid :: bool

record security_info =
  si_owner :: "string option"
  si_dacl :: "ace option list option"
  si_control :: "u16 option"

record win_handle =
  wh_information :: "(u32 \<times> u32 \<times> u32) option"
  wh_file_type :: u32
  wh_security :: "u32 \<Rightarrow> security_info option"
  wh_content :: "u8 list option"

record win_env =
  we_sid :: "string \<Rightarrow> string option"
  we_symlink_metadata :: "string \<Rightarrow> (bool \<times> bool) option"
  we_canonicalize :: "string \<Rightarrow> string option"
  we_open :: "string \<Rightarrow> bool \<Rightarrow> u32 \<Rightarrow> win_handle option"
  we_is_system :: "string \<Rightarrow> bool"
  we_is_administrators :: "string \<Rightarrow> bool"

definition TOKEN_BYTES :: nat where "TOKEN_BYTES = 32"
definition ACCESS_ALLOWED_ACE_TYPE :: u8 where "ACCESS_ALLOWED_ACE_TYPE = 0"
definition FILE_ALL_ACCESS :: u32 where "FILE_ALL_ACCESS = 0x1F01FF"
definition READ_CONTROL :: u32 where "READ_CONTROL = 0x20000"
definition GENERIC_READ :: u32 where "GENERIC_READ = 0x80000000"
definition FILE_ATTRIBUTE_DIRECTORY :: u32 where "FILE_ATTRIBUTE_DIRECTORY = 0x10"
definition FILE_ATTRIBUTE_REPARSE_POINT :: u32 where "FILE_ATTRIBUTE_REPARSE_POINT = 0x400"
definition FILE_TYPE_DISK :: u32 where "FILE_TYPE_DISK = 1"
definition SE_DACL_PROTECTED :: u16 where "SE_DACL_PROTECTED = 0x1000"
definition OWNER_SECURITY_INFORMATION :: u32 where "OWNER_SECURITY_INFORMATION = 1"
definition DACL_SECURITY_INFORMATION :: u32 where "DACL_SECURITY_INFORMATION = 4"

definition decode_nibble :: "char \<Rightarrow> u8 option" where
  "decode_nibble c =
     (let v = (of_char c :: nat) in
      if 48 \<le> v \<and> v \<le> 57 then Some (of_nat (v - 48))
      else if 97 \<le> v \<and> v \<le> 102 then Some (of_nat (v - 97 + 10))
      else if 65 \<le> v \<and> v \<le> 70 then Some (of_nat (v - 65 + 10))
      else None)"

fun decode_pairs :: "string \<Rightarrow> u8 list option" where
  "decode_pairs [] = Some []"
| "decode_pairs [c] = None"
| "decode_pairs (c # d # cs) =
     (case decode_nibble c of
        None \<Rightarrow> None
      | Some high \<Rightarrow>
          (case decode_nibble d of
             None \<Rightarrow> None
           | Some low \<Rightarrow> map_option (\<lambda>bs. (push_bit 4 high OR low) # bs) (decode_pairs cs)))"

definition decode_token :: "string \<Rightarrow> u8 list option" where
  "decode_token value = (if length value \<noteq> TOKEN_BYTES * 2 then None else decode_pairs value)"

definition canonical_app_data_root :: "win_env \<Rightarrow> string \<Rightarrow> service_error + string" where
  "canonical_app_data_root W path =
     (case we_symlink_metadata W path of
        None \<Rightarrow> Inl (se_unauthorized ''application data root is unavailable'')
      | Some (is_directory, is_link) \<Rightarrow>
          if \<not> is_directory \<or> is_link
          then Inl (se_unauthorized ''application data root is not an ordinary directory'')
          else ok_or (se_unauthorized ''application data root could not be canonicalized'')
                 (we_canonicalize W path))"

definition open_no_reparse :: "win_env \<Rightarrow> string \<Rightarrow> bool \<Rightarrow> u32 \<Rightarrow> service_error + win_handle" where
  "open_no_reparse W path directory access =
     (if CHR 0x00 \<in> set path then Inl (se_unauthorized ''owner credential path contains NUL'')
      else ok_or (se_unauthorized ''owner credential path could not be opened'')
             (we_open W path directory access))"

definition validate_file_kind :: "win_handle \<Rightarrow> bool \<Rightarrow> service_error + unit" where
  "validate_file_kind h directory =
     (case wh_information h of
        None \<Rightarrow> Inl (se_unauthorized ''owner credential metadata is unavailable'')
      | Some (attributes, size_high, size_low) \<Rightarrow>
          if attributes AND FILE_ATTRIBUTE_REPARSE_POINT \<noteq> 0
             \<or> (attributes AND FILE_ATTRIBUTE_DIRECTORY \<noteq> 0) \<noteq> directory
             \<or> (\<not> directory \<and> wh_file_type h \<noteq> FILE_TYPE_DISK)
          then Inl (se_unauthorized ''owner credential path has an invalid file type'')
          else if \<not> directory \<and> (size_high \<noteq> 0 \<or> size_low \<noteq> of_nat TOKEN_BYTES)
          then Inl (se_unauthorized ''owner token file has an invalid size'')
          else Inr ())"

definition read_security :: "win_handle \<Rightarrow> u32 \<Rightarrow> service_error + security_info" where
  "read_security h information =
     ok_or (se_unauthorized ''owner credential security could not be inspected'')
       (wh_security h information)"

definition validate_owner :: "win_handle \<Rightarrow> string \<Rightarrow> service_error + unit" where
  "validate_owner h declared_sid =
     bindR (read_security h OWNER_SECURITY_INFORMATION) (\<lambda>security.
       if si_owner security = None \<or> si_owner security \<noteq> Some declared_sid
       then Inl (se_unauthorized ''owner credential path has an unexpected owner'')
       else Inr ())"

text \<open>The loop over the access control entries, with its three flags.\<close>

fun check_aces ::
  "win_env \<Rightarrow> string \<Rightarrow> ace option list \<Rightarrow> bool \<times> bool \<times> bool \<Rightarrow> service_error + bool \<times> bool \<times> bool" where
  "check_aces W sid [] flags = Inr flags"
| "check_aces W sid (None # aces) flags = Inl (se_unauthorized ''owner token DACL could not be inspected'')"
| "check_aces W sid (Some a # aces) (owner_ace, system_ace, administrators_ace) =
     (if ace_type a \<noteq> ACCESS_ALLOWED_ACE_TYPE \<or> ace_mask a AND FILE_ALL_ACCESS \<noteq> FILE_ALL_ACCESS
      then Inl (se_unauthorized ''owner token DACL contains an unexpected ACE'')
      else if \<not> ace_sid_valid a then Inl (se_unauthorized ''owner token DACL contains an invalid SID'')
      else if ace_sid a = sid then check_aces W sid aces (True, system_ace, administrators_ace)
      else if we_is_system W (ace_sid a) then check_aces W sid aces (owner_ace, True, administrators_ace)
      else if we_is_administrators W (ace_sid a) then check_aces W sid aces (owner_ace, system_ace, True)
      else Inl (se_unauthorized ''owner token DACL grants access to another SID''))"

definition validate_token_security :: "win_env \<Rightarrow> win_handle \<Rightarrow> string \<Rightarrow> service_error + unit" where
  "validate_token_security W h declared_sid =
     bindR (read_security h (OWNER_SECURITY_INFORMATION OR DACL_SECURITY_INFORMATION)) (\<lambda>security.
       if si_owner security \<noteq> Some declared_sid
       then Inl (se_unauthorized ''owner token file has an unexpected owner'')
       else (case si_dacl security of
          None \<Rightarrow> Inl (se_unauthorized ''owner token file has no restrictive DACL'')
        | Some dacl \<Rightarrow>
            if (case si_control security of None \<Rightarrow> True | Some control \<Rightarrow> control AND SE_DACL_PROTECTED = 0)
            then Inl (se_unauthorized ''owner token DACL is not protected'')
            else bindR (check_aces W declared_sid dacl (False, False, False))
                   (\<lambda>(owner_ace, system_ace, administrators_ace).
                     if \<not> owner_ace \<or> \<not> system_ace \<or> \<not> administrators_ace
                     then Inl (se_unauthorized ''owner token DACL is missing a required principal'')
                     else Inr ())))"

definition windows_join :: "string \<Rightarrow> string \<Rightarrow> string" where
  "windows_join base name =
     (if base \<noteq> '''' \<and> last base \<noteq> CHR 0x5C \<and> last base \<noteq> CHR ''/'' then base @ CHR 0x5C # name
      else base @ name)"

record windows_owner =
  wo_key :: string
  wo_identity :: owner_identity
  wo_app_data_root :: string

definition read_stored_token :: "win_handle \<Rightarrow> service_error + u8 list" where
  "read_stored_token h =
     (case wh_content h of
        None \<Rightarrow> Inl (se_unauthorized ''owner token file could not be read'')
      | Some bytes \<Rightarrow>
          if length bytes < TOKEN_BYTES then Inl (se_unauthorized ''owner token file could not be read'')
          else Inr (take TOKEN_BYTES bytes))"

definition windows_authenticate ::
  "params \<Rightarrow> win_env \<Rightarrow> owner_credentials \<Rightarrow> service_error + windows_owner" where
  "windows_authenticate E W credentials =
     (case cred_identity credentials of
        UnixOwner uid gid \<Rightarrow> Inl (se_unauthorized ''owner identity does not match the Windows transport'')
      | WindowsOwner sid \<Rightarrow>
          bindR (ok_or (se_unauthorized ''owner token is missing or malformed'')
                   (Option.bind (cred_token credentials) decode_token)) (\<lambda>request_token.
          bindR (ok_or (se_unauthorized ''declared Windows SID is invalid'') (we_sid W sid)) (\<lambda>declared_sid.
          bindR (canonical_app_data_root W (cred_app_data_dir credentials)) (\<lambda>app_data_root.
          bindR (open_no_reparse W app_data_root True READ_CONTROL) (\<lambda>root.
          bindR (validate_file_kind root True) (\<lambda>_.
          bindR (validate_owner root declared_sid) (\<lambda>_.
          bindR (open_no_reparse W (windows_join app_data_root OWNER_TOKEN_FILE_NAME) False
                   (GENERIC_READ OR READ_CONTROL)) (\<lambda>token_file.
          bindR (validate_file_kind token_file False) (\<lambda>_.
          bindR (validate_token_security W token_file declared_sid) (\<lambda>_.
          bindR (read_stored_token token_file) (\<lambda>stored_token.
            if \<not> constant_time_eq stored_token request_token
            then Inl (se_unauthorized ''owner token does not match'')
            else Inr \<lparr>wo_key = owner_key (sha256 E) (cred_identity credentials),
                      wo_identity = cred_identity credentials,
                      wo_app_data_root = app_data_root\<rparr>)))))))))))"

lemma decode_nibble_hex: "d < 16 \<Longrightarrow> decode_nibble (hex_digit d) = Some (of_nat d)"
  by (auto simp: decode_nibble_def hex_digit_def)

lemma nibbles_join: "push_bit 4 (of_nat (unat b div 16)) OR of_nat (unat b mod 16) = (b :: u8)"
proof -
  have m: "of_nat (unat b mod 16) = take_bit 4 b"
    by (rule unsigned_word_eqI [where 'a = nat])
      (simp add: unsigned_of_nat unsigned_take_bit_eq take_bit_eq_mod unat_mod_distrib)
  have d: "of_nat (unat b div 16) = drop_bit 4 b"
    by (rule unsigned_word_eqI [where 'a = nat])
      (use unat_u8_div16 [of b] in \<open>simp add: unsigned_of_nat unsigned_drop_bit_eq drop_bit_eq_div
        take_bit_eq_mod unat_div_distrib\<close>)
  show ?thesis unfolding m d
    by (rule bit_eqI) (auto simp: bit_simps)
qed

lemma decode_pairs_hex [simp]: "decode_pairs (hex_bytes bs) = Some bs"
proof (induction bs)
  case Nil
  show ?case by (simp add: hex_bytes_def)
next
  case (Cons b bs)
  then show ?case
    by (simp add: hex_bytes_def decode_nibble_hex unat_u8_div16 nibbles_join)
qed

text \<open>
  A token survives its hexadecimal form: the service decodes the text a client writes for 32
  bytes to those bytes, and no text of another length decodes.
\<close>

lemma decode_token_hex:
  "decode_token (hex_bytes bs) = (if length bs = 32 then Some bs else None)"
  by (simp add: decode_token_def TOKEN_BYTES_def)

lemma check_aces_Inr:
  "check_aces W sid aces (a, b, c) = Inr (a', b', c') \<Longrightarrow>
   (\<forall>x \<in> set aces. \<exists>e. x = Some e \<and> ace_type e = 0 \<and> ace_mask e AND FILE_ALL_ACCESS = FILE_ALL_ACCESS \<and>
      (ace_sid e = sid \<or> we_is_system W (ace_sid e) \<or> we_is_administrators W (ace_sid e))) \<and>
   (a' \<longrightarrow> a \<or> (\<exists>e. Some e \<in> set aces \<and> ace_sid e = sid))"
proof (induction W sid aces "(a, b, c)" arbitrary: a b c rule: check_aces.induct)
  case (3 W sid x aces a b c)
  then show ?case
    by (auto simp: ACCESS_ALLOWED_ACE_TYPE_def split: if_splits)
qed auto

text \<open>The token file of the owner \<open>sid\<close> as the service accepts it.\<close>

definition private_token_file :: "win_env \<Rightarrow> win_handle \<Rightarrow> string \<Rightarrow> bool" where
  "private_token_file W h sid =
     (case wh_security h (OWNER_SECURITY_INFORMATION OR DACL_SECURITY_INFORMATION) of
        None \<Rightarrow> False
      | Some s \<Rightarrow>
          si_owner s = Some sid \<and>
          (case si_dacl s of None \<Rightarrow> False
           | Some aces \<Rightarrow> list_all (\<lambda>x. case x of None \<Rightarrow> False | Some e \<Rightarrow>
               ace_sid e = sid \<or> we_is_system W (ace_sid e) \<or> we_is_administrators W (ace_sid e)) aces))"

lemma validate_token_security_private:
  assumes "validate_token_security W h sid = Inr ()"
  shows "private_token_file W h sid"
proof -
  from assms obtain s where s: "wh_security h (OWNER_SECURITY_INFORMATION OR DACL_SECURITY_INFORMATION) = Some s"
    by (auto simp: validate_token_security_def bindR_Inr read_security_def elim!: ok_or.elims)
  with assms have own: "si_owner s = Some sid"
    by (auto simp: validate_token_security_def read_security_def split: if_splits)
  from assms s own obtain aces where a: "si_dacl s = Some aces"
    by (auto simp: validate_token_security_def read_security_def split: option.splits)
  from assms s own a obtain x y z where "check_aces W sid aces (False, False, False) = Inr (x, y, z)"
    by (auto simp: validate_token_security_def read_security_def bindR_Inr split: if_splits)
  from check_aces_Inr [OF this]
  have "list_all (\<lambda>x. case x of None \<Rightarrow> False | Some e \<Rightarrow>
          ace_sid e = sid \<or> we_is_system W (ace_sid e) \<or> we_is_administrators W (ace_sid e)) aces"
    by (auto simp: list_all_iff)
  with s own a show ?thesis by (simp add: private_token_file_def)
qed

text \<open>
  C21. On Windows an accepted owner has shown the secret: the token of the request decodes to the 32
  bytes stored in the token file of the canonical application root; that root is a plain directory
  owned by the declared SID; and the token file belongs to that SID and grants access to nobody but
  the owner, the system account and the administrators.
\<close>

theorem windows_authenticate_sound:
  assumes "windows_authenticate E W cred = Inr ow"
  shows "\<exists>sid declared root handle token.
     cred_identity cred = WindowsOwner sid \<and> we_sid W sid = Some declared \<and>
     we_canonicalize W (cred_app_data_dir cred) = Some (wo_app_data_root ow) \<and>
     we_open W (wo_app_data_root ow) True READ_CONTROL = Some root \<and>
     map_option si_owner (wh_security root OWNER_SECURITY_INFORMATION) = Some (Some declared) \<and>
     we_open W (windows_join (wo_app_data_root ow) OWNER_TOKEN_FILE_NAME) False
       (GENERIC_READ OR READ_CONTROL) = Some handle \<and>
     private_token_file W handle declared \<and>
     wh_content handle = Some token \<and>
     Option.bind (cred_token cred) decode_token = Some (take 32 token) \<and>
     wo_key ow = hex_bytes (sha256 E sid)"
proof (cases "cred_identity cred")
  case (UnixOwner u g)
  with assms show ?thesis by (simp add: windows_authenticate_def)
next
  case (WindowsOwner sid)
  from assms [unfolded windows_authenticate_def WindowsOwner]
  obtain tok declared root h handle stored where
      1: "ok_or (se_unauthorized ''owner token is missing or malformed'')
            (Option.bind (cred_token cred) decode_token) = Inr tok"
    and 2: "ok_or (se_unauthorized ''declared Windows SID is invalid'') (we_sid W sid) = Inr declared"
    and 3: "canonical_app_data_root W (cred_app_data_dir cred) = Inr root"
    and 4: "open_no_reparse W root True READ_CONTROL = Inr h"
    and 5: "validate_owner h declared = Inr ()"
    and 6: "open_no_reparse W (windows_join root OWNER_TOKEN_FILE_NAME) False
              (GENERIC_READ OR READ_CONTROL) = Inr handle"
    and 7: "validate_token_security W handle declared = Inr ()"
    and 8: "read_stored_token handle = Inr stored" "constant_time_eq stored tok"
    and 9: "wo_app_data_root ow = root" "wo_key ow = hex_bytes (sha256 E sid)"
    by (auto simp: bindR_Inr split: if_splits)
  from 1 2 have "Option.bind (cred_token cred) decode_token = Some tok" "we_sid W sid = Some declared"
    by (auto elim!: ok_or.elims)
  moreover from 3 have "we_canonicalize W (cred_app_data_dir cred) = Some root"
    by (auto simp: canonical_app_data_root_def split: option.splits if_splits elim!: ok_or.elims)
  moreover from 4 6 have "we_open W root True READ_CONTROL = Some h"
    "we_open W (windows_join root OWNER_TOKEN_FILE_NAME) False (GENERIC_READ OR READ_CONTROL) = Some handle"
    by (auto simp: open_no_reparse_def split: if_splits elim!: ok_or.elims)
  moreover from 5 have "map_option si_owner (wh_security h OWNER_SECURITY_INFORMATION) = Some (Some declared)"
    by (auto simp: validate_owner_def read_security_def bindR_Inr split: if_splits elim!: ok_or.elims)
  moreover from 8(1) obtain token where "wh_content handle = Some token" "stored = take 32 token"
    by (auto simp: read_stored_token_def TOKEN_BYTES_def split: option.splits if_splits)
  moreover from 7 have "private_token_file W handle declared"
    by (rule validate_token_security_private)
  ultimately show ?thesis
    using WindowsOwner 8(2) 9 by (auto simp: constant_time_eq_iff)
qed

definition sample_token_file :: win_handle where
  "sample_token_file =
     \<lparr>wh_information = Some (0, 0, 32), wh_file_type = 1,
      wh_security = (\<lambda>_. Some \<lparr>si_owner = Some ''S-1-5-21-7'',
        si_dacl = Some (map (\<lambda>s. Some \<lparr>ace_type = 0, ace_mask = FILE_ALL_ACCESS, ace_sid = s, ace_sid_valid = True\<rparr>)
          [''S-1-5-21-7'', ''S-1-5-18'', ''S-1-5-32-544'']),
        si_control = Some SE_DACL_PROTECTED\<rparr>),
      wh_content = Some (replicate 32 7)\<rparr>"

definition sample_windows :: win_env where
  "sample_windows =
     \<lparr>we_sid = Some, we_symlink_metadata = (\<lambda>_. Some (True, False)), we_canonicalize = Some,
      we_open = (\<lambda>_ directory _. Some (if directory
        then sample_token_file\<lparr>wh_information := Some (FILE_ATTRIBUTE_DIRECTORY, 0, 0)\<rparr> else sample_token_file)),
      we_is_system = (\<lambda>s. s = ''S-1-5-18''), we_is_administrators = (\<lambda>s. s = ''S-1-5-32-544'')\<rparr>"

definition sample_windows_credentials :: "owner_credentials" where
  "sample_windows_credentials =
     \<lparr>cred_identity = WindowsOwner ''S-1-5-21-7'', cred_app_data_dir = ''C:'',
      cred_token = Some (concat (replicate 32 ''07''))\<rparr>"

theorem windows_authenticate_sound_witness:
  "is_ok (windows_authenticate plain_params sample_windows sample_windows_credentials) \<and>
   private_token_file sample_windows sample_token_file ''S-1-5-21-7''"
proof -
  let ?r = "windows_authenticate plain_params sample_windows sample_windows_credentials"
  have ok: "is_ok ?r" by code_simp
  then obtain ow where "?r = Inr ow" by (cases ?r) auto
  from windows_authenticate_sound [OF this] ok show ?thesis
    by (auto simp: sample_windows_def sample_windows_credentials_def)
qed

end
