(* ===== verification/Proxy.thy ===== *)
theory Proxy
  imports World
begin

text \<open>
  \<open>src/core/proxy.rs\<close>: the validation of the macOS proxy settings a client asks for, and their
  application with a fall-back to a direct connection. The settings of the machine are the fields
  \<open>sys_proxy\<close> and \<open>pac_proxy\<close> of the world. The parser of IP addresses is the standard library's.
\<close>

section \<open>IP addresses\<close>

text \<open>\<open>core::net::parser\<close>: a parser returns what it read and the rest of the input.\<close>

type_synonym 'a parser = "string \<Rightarrow> ('a \<times> string) option"

definition hex_value :: "char \<Rightarrow> nat option" where
  "hex_value c =
     (let v = (of_char c :: nat) in
      if 48 \<le> v \<and> v \<le> 57 then Some (v - 48)
      else if 97 \<le> v \<and> v \<le> 102 then Some (v - 87)
      else if 65 \<le> v \<and> v \<le> 70 then Some (v - 55)
      else None)"

definition radix_digit :: "nat \<Rightarrow> char \<Rightarrow> nat option" where
  "radix_digit radix c = (case hex_value c of None \<Rightarrow> None | Some d \<Rightarrow> if d < radix then Some d else None)"

text \<open>The digits at the front of the input, and the rest.\<close>

fun take_digits :: "nat \<Rightarrow> string \<Rightarrow> nat list \<times> string" where
  "take_digits radix [] = ([], [])"
| "take_digits radix (c # cs) =
     (case radix_digit radix c of
        None \<Rightarrow> ([], c # cs)
      | Some d \<Rightarrow> (case take_digits radix cs of (ds, rest) \<Rightarrow> (d # ds, rest)))"

definition read_number :: "nat \<Rightarrow> nat \<Rightarrow> bool \<Rightarrow> nat \<Rightarrow> nat parser" where
  "read_number radix max_digits allow_zero_prefix bound s =
     (case take_digits radix s of (ds, rest) \<Rightarrow>
        let v = foldl (\<lambda>n d. radix * n + d) 0 ds in
        if ds = [] \<or> length ds > max_digits \<or> v \<ge> bound
           \<or> (\<not> allow_zero_prefix \<and> hd ds = 0 \<and> length ds > 1)
        then None else Some (v, rest))"

definition read_char :: "char \<Rightarrow> unit parser" where
  "read_char c s = (case s of [] \<Rightarrow> None | d # ds \<Rightarrow> if d = c then Some ((), ds) else None)"

definition read_separated :: "char \<Rightarrow> nat \<Rightarrow> 'a parser \<Rightarrow> 'a parser" where
  "read_separated sep i p s =
     (if 0 < i then (case read_char sep s of None \<Rightarrow> None | Some (_, rest) \<Rightarrow> p rest) else p s)"

fun read_octets :: "nat \<Rightarrow> nat \<Rightarrow> nat list parser" where
  "read_octets i 0 s = Some ([], s)"
| "read_octets i (Suc k) s =
     (case read_separated (CHR ''.'') i (read_number 10 3 False 256) s of
        None \<Rightarrow> None
      | Some (n, rest) \<Rightarrow>
          (case read_octets (Suc i) k rest of None \<Rightarrow> None | Some (ns, rest') \<Rightarrow> Some (n # ns, rest')))"

definition read_ipv4 :: "nat list parser" where
  "read_ipv4 s = read_octets 0 4 s"

text \<open>\<open>read_groups\<close>: up to \<open>k\<close> more groups at position \<open>i\<close>; whether an IPv4 tail ended it.\<close>

fun read_groups :: "nat \<Rightarrow> nat \<Rightarrow> string \<Rightarrow> (nat list \<times> bool) \<times> string" where
  "read_groups i 0 s = (([], False), s)"
| "read_groups i (Suc k) s =
     (case (if k > 0 then read_separated (CHR '':'') i read_ipv4 s else None) of
        Some ([a, b, c, d], rest) \<Rightarrow> (([256 * a + b, 256 * c + d], True), rest)
      | _ \<Rightarrow>
          (case read_separated (CHR '':'') i (read_number 16 4 True 65536) s of
             None \<Rightarrow> (([], False), s)
           | Some (g, rest) \<Rightarrow>
               (case read_groups (Suc i) k rest of ((gs, v4), rest') \<Rightarrow> ((g # gs, v4), rest'))))"

definition read_ipv6 :: "nat list parser" where
  "read_ipv6 s =
     (case read_groups 0 8 s of ((head, head_ipv4), rest) \<Rightarrow>
        if length head = 8 then Some (head, rest)
        else if head_ipv4 then None
        else (case read_char (CHR '':'') rest of None \<Rightarrow> None
              | Some (_, rest1) \<Rightarrow>
                  (case read_char (CHR '':'') rest1 of None \<Rightarrow> None
                   | Some (_, rest2) \<Rightarrow>
                       (case read_groups 0 (8 - (length head + 1)) rest2 of ((tail, _), rest3) \<Rightarrow>
                          Some (head @ replicate (8 - length head - length tail) 0 @ tail, rest3)))))"

datatype ip_addr = V4 "nat list" | V6 "nat list"

definition parse_ip :: "string \<Rightarrow> ip_addr option" where
  "parse_ip s =
     (case read_ipv4 s of
        Some (a, rest) \<Rightarrow> if rest = [] then Some (V4 a) else None
      | None \<Rightarrow>
          (case read_ipv6 s of
             Some (g, rest) \<Rightarrow> if rest = [] then Some (V6 g) else None
           | None \<Rightarrow> None))"

fun is_loopback :: "ip_addr \<Rightarrow> bool" where
  "is_loopback (V4 octets) = (octets \<noteq> [] \<and> hd octets = 127)"
| "is_loopback (V6 groups) = (groups = [0, 0, 0, 0, 0, 0, 0, 1])"

section \<open>Validation\<close>

definition MAX_HOST_LEN :: nat where "MAX_HOST_LEN = 64"
definition MAX_BYPASS_LEN :: nat where "MAX_BYPASS_LEN = 8192"
definition MAX_PAC_URL_LEN :: nat where "MAX_PAC_URL_LEN = 256"
definition PAC_PATH :: string where "PAC_PATH = ''/commands/pac''"

lemmas proxy_limits = MAX_HOST_LEN_def MAX_BYPASS_LEN_def MAX_PAC_URL_LEN_def PAC_PATH_def

definition explicit_port :: "string \<Rightarrow> err + u16" where
  "explicit_port authority =
     bindR
       (if starts_with ''['' authority then
          (case split_once (CHR '']'') authority of
             None \<Rightarrow> Inl (Msg ''invalid PAC URL IPv6 host'')
           | Some (_, remainder) \<Rightarrow>
               ok_or (Msg ''PAC URL must contain an explicit port'') (strip_prefix '':'' remainder))
        else
          ok_or (Msg ''PAC URL must contain an explicit port'')
            (map_option snd (rsplit_once (CHR '':'') authority)))
       (\<lambda>port.
         bindR (ensure (port \<noteq> []) (Msg ''PAC URL must contain an explicit port'')) (\<lambda>_.
           ok_or (Msg ''PAC URL port must be a u16'') (parse_u16 port)))"

text \<open>The text between the scheme separator and the first slash, question mark or hash.\<close>

definition url_authority :: "string \<Rightarrow> string option" where
  "url_authority raw =
     map_option (\<lambda>(_, remainder). takeWhile (\<lambda>c. c \<notin> {CHR ''/'', CHR ''?'', CHR ''#''}) remainder)
       (split_once_str ''://'' raw)"

fun loopback_host :: "url_host \<Rightarrow> bool" where
  "loopback_host (HostV4 octets) = is_loopback (V4 (map unat octets))"
| "loopback_host (HostV6 groups) = is_loopback (V6 (map unat groups))"
| "loopback_host (HostDomain d) = False"

definition validate_pac_url :: "params \<Rightarrow> string \<Rightarrow> err + unit" where
  "validate_pac_url E raw =
     bindR (ensure (length raw \<le> MAX_PAC_URL_LEN) (Msg ''PAC URL exceeds 256 bytes'')) (\<lambda>_.
     bindR (ensure (CHR 0x00 \<notin> set raw) (Msg ''PAC URL contains NUL'')) (\<lambda>_.
     bindR (ok_or (Msg ''invalid PAC URL'') (url_parse E raw)) (\<lambda>parsed.
     bindR (ensure (url_scheme parsed = ''http'') (Msg ''PAC URL scheme must be http'')) (\<lambda>_.
     bindR (ensure (url_username parsed = '''') (Msg ''PAC URL must not contain a username'')) (\<lambda>_.
     bindR (ensure (url_password parsed = None) (Msg ''PAC URL must not contain a password'')) (\<lambda>_.
     bindR (ensure (url_query parsed = None) (Msg ''PAC URL must not contain a query'')) (\<lambda>_.
     bindR (ensure (url_fragment parsed = None) (Msg ''PAC URL must not contain a fragment'')) (\<lambda>_.
     bindR (ensure (url_path parsed = PAC_PATH) (Msg ''PAC URL path must be /commands/pac'')) (\<lambda>_.
     bindR (ok_or (Msg ''PAC URL must contain an authority'') (url_authority raw)) (\<lambda>authority.
     bindR (ensure (CHR 0x40 \<notin> set authority) (Msg ''PAC URL must not contain userinfo'')) (\<lambda>_.
     bindR (explicit_port authority) (\<lambda>port.
     bindR (ensure (port \<noteq> 0) (Msg ''PAC URL port must be nonzero'')) (\<lambda>_.
     bindR (ok_or (Msg ''PAC URL must contain a host'') (url_host parsed)) (\<lambda>host.
     bindR (ensure (case url_host_str parsed of None \<Rightarrow> False | Some h \<Rightarrow> length h \<le> MAX_HOST_LEN)
              (Msg ''PAC URL host exceeds 64 bytes'')) (\<lambda>_.
       ensure (loopback_host host) (Msg ''PAC URL host must be a loopback IP address''))))))))))))))))"

definition validate_proxy_config :: "params \<Rightarrow> macos_proxy_config \<Rightarrow> err + unit" where
  "validate_proxy_config E config =
     (case config of
        ProxyDisabled \<Rightarrow> Inr ()
      | ProxyGlobal host port bypass \<Rightarrow>
          bindR (ensure (length host \<le> MAX_HOST_LEN) (Msg ''proxy host exceeds 64 bytes'')) (\<lambda>_.
          bindR (ensure (length bypass \<le> MAX_BYPASS_LEN) (Msg ''proxy bypass exceeds 8192 bytes'')) (\<lambda>_.
          bindR (ensure (CHR 0x00 \<notin> set host) (Msg ''proxy host contains NUL'')) (\<lambda>_.
          bindR (ensure (CHR 0x00 \<notin> set bypass) (Msg ''proxy bypass contains NUL'')) (\<lambda>_.
          bindR (ensure (port \<noteq> 0) (Msg ''proxy port must be nonzero'')) (\<lambda>_.
          bindR (ok_or (Msg ''proxy host must be an IP address'') (parse_ip host)) (\<lambda>address.
            ensure (is_loopback address) (Msg ''proxy host must be loopback'')))))))
      | ProxyPac url \<Rightarrow> validate_pac_url E url)"

section \<open>Application\<close>

definition default_system_proxy :: system_proxy where
  "default_system_proxy = \<lparr>pxs_host = '''', pxs_port = 0, pxs_bypass = '''', pxs_enable = False\<rparr>"

definition default_auto_proxy :: auto_proxy where
  "default_auto_proxy = \<lparr>pxa_url = '''', pxa_enable = False\<rparr>"

definition apply_with_backend ::
  "(system_proxy \<Rightarrow> unit act) \<Rightarrow> (auto_proxy \<Rightarrow> unit act) \<Rightarrow> macos_proxy_config \<Rightarrow> unit act" where
  "apply_with_backend set_system_proxy set_auto_proxy config =
     (case config of
        ProxyDisabled \<Rightarrow>
          bindE (set_system_proxy default_system_proxy) (\<lambda>_.
          bindE (set_auto_proxy default_auto_proxy) (\<lambda>_. okE ()))
      | ProxyGlobal host port bypass \<Rightarrow>
          bindE (set_auto_proxy default_auto_proxy) (\<lambda>_.
          bindE (set_system_proxy \<lparr>pxs_host = host, pxs_port = port, pxs_bypass = bypass, pxs_enable = True\<rparr>) (\<lambda>_.
            okE ()))
      | ProxyPac url \<Rightarrow>
          bindE (set_system_proxy default_system_proxy) (\<lambda>_.
          bindE (set_auto_proxy \<lparr>pxa_url = url, pxa_enable = True\<rparr>) (\<lambda>_. okE ())))"

definition system_proxy_to_sysproxy :: "system_proxy \<Rightarrow> system_proxy" where
  "system_proxy_to_sysproxy p = p\<lparr>pxs_bypass := if pxs_bypass p = '''' then ''Empty'' else pxs_bypass p\<rparr>"

definition real_set_system_proxy :: "params \<Rightarrow> system_proxy \<Rightarrow> unit act" where
  "real_set_system_proxy E p = sysproxy_set E (system_proxy_to_sysproxy p)"

definition real_set_auto_proxy :: "params \<Rightarrow> auto_proxy \<Rightarrow> unit act" where
  "real_set_auto_proxy E p = autoproxy_set E p"

definition apply_real :: "params \<Rightarrow> macos_proxy_config \<Rightarrow> unit act" where
  "apply_real E config = apply_with_backend (real_set_system_proxy E) (real_set_auto_proxy E) config"

fun chain_no_active_service :: "err \<Rightarrow> bool" where
  "chain_no_active_service (Io k) = False"
| "chain_no_active_service (Msg m) = False"
| "chain_no_active_service (Sysproxy b m) = b"
| "chain_no_active_service (Ctx c e) = chain_no_active_service e"

definition is_no_active_network_service :: "params \<Rightarrow> err \<Rightarrow> bool" where
  "is_no_active_network_service E e \<longleftrightarrow> os (bd E) = MacOS \<and> chain_no_active_service e"

definition apply_proxy_or_direct_with ::
  "params \<Rightarrow> macos_proxy_config option \<Rightarrow> (macos_proxy_config \<Rightarrow> unit act) \<Rightarrow> proxy_apply_outcome act" where
  "apply_proxy_or_direct_with E config apply_fn =
     (case config of
        None \<Rightarrow> okE NotRequested
      | Some c \<Rightarrow>
          bindE (liftE (validate_proxy_config E c)) (\<lambda>_.
          tryE (apply_fn c) (\<lambda>r.
            (case r of
               Inr _ \<Rightarrow> okE Applied
             | Inl apply_error \<Rightarrow>
                 (let nothing_to_undo = is_no_active_network_service E apply_error in
                  tryE (apply_fn ProxyDisabled) (\<lambda>r2.
                    (case r2 of
                       Inr _ \<Rightarrow> okE (DirectFallback (show_outer apply_error))
                     | Inl compensation_error \<Rightarrow>
                         if nothing_to_undo \<and> is_no_active_network_service E compensation_error
                         then okE (DirectFallback (show_outer apply_error))
                         else failE (Ctx (''failed to compensate proxy apply failure ('' @
                                show_outer apply_error @ '') with direct mode'') compensation_error))))))))"

definition apply_proxy :: "params \<Rightarrow> macos_proxy_config \<Rightarrow> unit act" where
  "apply_proxy E config =
     (if os (bd E) = MacOS then
        bindE (liftE (validate_proxy_config E config)) (\<lambda>_. apply_real E config)
      else failE (Msg ''macOS proxy configuration is unsupported on this platform''))"

definition clear_proxy :: "params \<Rightarrow> unit act" where
  "clear_proxy E =
     tryE (apply_proxy E ProxyDisabled) (\<lambda>r.
       (case r of
          Inl e \<Rightarrow> if is_no_active_network_service E e then okE () else failE e
        | Inr u \<Rightarrow> okE u))"

definition apply_proxy_or_direct :: "params \<Rightarrow> macos_proxy_config option \<Rightarrow> proxy_apply_outcome act" where
  "apply_proxy_or_direct E config =
     (if os (bd E) = MacOS then apply_proxy_or_direct_with E config (apply_real E)
      else (case config of
              None \<Rightarrow> okE NotRequested
            | Some _ \<Rightarrow> failE (Msg ''macOS proxy configuration is unsupported on this platform'')))"

section \<open>What validation accepts\<close>

lemma radix_digit_show [simp]: "d < 10 \<Longrightarrow> radix_digit 10 (digit_char d) = Some d"
  by (auto simp: radix_digit_def hex_value_def digit_char_def)

lemma take_digits_app:
  "list_all (\<lambda>c. radix_digit 10 c \<noteq> None) s \<Longrightarrow>
   (rest = [] \<or> radix_digit 10 (hd rest) = None) \<Longrightarrow>
   take_digits 10 (s @ rest) = (map (the \<circ> radix_digit 10) s, rest)"
proof (induction s)
  case Nil
  then show ?case by (cases rest) auto
qed auto

lemma radix_digit_is_digit: "is_digit c \<Longrightarrow> radix_digit 10 c = Some (digit_value c)"
  by (auto simp: is_digit_def radix_digit_def hex_value_def digit_value_def)

lemma take_digits_show:
  assumes "rest = [] \<or> radix_digit 10 (hd rest) = None"
  shows "take_digits 10 (show_nat n @ rest) = (map digit_value (show_nat n), rest)"
proof -
  have d: "\<forall>c \<in> set (show_nat n). radix_digit 10 c = Some (digit_value c)"
    using show_nat_digits radix_digit_is_digit by blast
  then have "list_all (\<lambda>c. radix_digit 10 c \<noteq> None) (show_nat n)"
    by (simp add: list_all_iff)
  from take_digits_app [OF this assms] d show ?thesis by simp
qed

lemma show_nat_small: "n < 10 \<Longrightarrow> show_nat n = [digit_char n]"
  by (subst show_nat.simps) simp

lemma show_nat_step: "10 \<le> n \<Longrightarrow> show_nat n = show_nat (n div 10) @ [digit_char (n mod 10)]"
  by (subst show_nat.simps) simp

lemma show_octet: "n < 256 \<Longrightarrow> length (show_nat n) \<le> 3 \<and> (n \<noteq> 0 \<longrightarrow> digit_value (hd (show_nat n)) \<noteq> 0)"
proof -
  assume n: "n < 256"
  consider "n < 10" | "10 \<le> n" "n < 100" | "100 \<le> n" by linarith
  then show ?thesis
  proof cases
    case 1
    then show ?thesis by (simp add: show_nat_small)
  next
    case 2
    then have "0 < n div 10" "n div 10 < 10" by auto
    with 2 show ?thesis by (simp add: show_nat_step show_nat_small)
  next
    case 3
    with n have "10 \<le> n div 10" "0 < n div 10 div 10" "n div 10 div 10 < 10" by auto
    with 3 show ?thesis by (simp add: show_nat_step [of n] show_nat_step [of "n div 10"] show_nat_small)
  qed
qed

lemma read_octet_show:
  assumes "n < 256" "rest = [] \<or> radix_digit 10 (hd rest) = None"
  shows "read_number 10 3 False 256 (show_nat n @ rest) = Some (n, rest)"
proof -
  have v: "foldl (\<lambda>n d. 10 * n + d) 0 (map digit_value (show_nat n)) = n"
    using read_show_nat [of n] by (simp add: read_digits_def foldl_map)
  have "hd (map digit_value (show_nat n)) = 0 \<Longrightarrow> length (show_nat n) = 1"
    using show_octet [OF assms(1)] by (cases "n = 0") (simp_all add: hd_map show_nat_small)
  then show ?thesis
    using assms(1) show_octet [OF assms(1)] v
    by (auto simp: read_number_def take_digits_show [OF assms(2)] hd_map)
qed

lemma dot_stops [simp]: "radix_digit 10 (CHR ''.'') = None"
  by code_simp

lemma read_octets_show:
  "list_all (\<lambda>n. n < 256) ns \<Longrightarrow> ns \<noteq> [] \<Longrightarrow>
   read_octets i (length ns) ((if i > 0 then ''.'' else []) @ join_with ''.'' (map show_nat ns)) = Some (ns, [])"
proof (induction ns arbitrary: i)
  case (Cons n ns)
  show ?case
  proof (cases ns)
    case Nil
    with Cons.prems show ?thesis
      using read_octet_show [of n "[]"] by (simp add: read_separated_def read_char_def)
  next
    case (Cons m ms)
    let ?rest = "''.'' @ join_with ''.'' (map show_nat ns)"
    have "read_number 10 3 False 256 (show_nat n @ ?rest) = Some (n, ?rest)"
      using Cons.prems by (intro read_octet_show) auto
    moreover have "read_octets (Suc i) (length ns) ?rest = Some (ns, [])"
      using Cons.prems Cons.IH [of "Suc i"] Cons by simp
    ultimately show ?thesis
      using Cons by (cases "i = 0") (simp_all add: read_separated_def read_char_def)
  qed
qed simp

text \<open>The dotted form of four octets is read back as they are.\<close>

lemma parse_ip_dotted:
  assumes "length ns = 4" "list_all (\<lambda>n. n < 256) ns"
  shows "parse_ip (join_with ''.'' (map show_nat ns)) = Some (V4 ns)"
proof -
  have "read_octets 0 4 (join_with ''.'' (map show_nat ns)) = Some (ns, [])"
  proof -
    have "ns \<noteq> []" using assms(1) by auto
    from read_octets_show [OF assms(2) this, of 0] assms(1) show ?thesis
      by (simp del: read_octets.simps)
  qed
  then show ?thesis by (simp add: parse_ip_def read_ipv4_def)
qed

text \<open>
  C38. The service never points the machine at a proxy on another host. A global proxy it accepts has
  a loopback host (an address of 127.0.0.0/8 or ::1), a port other than zero and no NUL anywhere; an
  accepted proxy script is fetched over plain http from a loopback address, from the fixed path,
  without credentials, query or fragment, and with an explicit port other than zero.
\<close>

theorem validated_proxy_is_loopback:
  assumes "validate_proxy_config E config = Inr ()"
  shows "case config of
     ProxyDisabled \<Rightarrow> True
   | ProxyGlobal host port bypass \<Rightarrow>
       port \<noteq> 0 \<and> length host \<le> 64 \<and> CHR 0x00 \<notin> set host \<and> CHR 0x00 \<notin> set bypass \<and>
       ((\<exists>octets. parse_ip host = Some (V4 octets) \<and> hd octets = 127) \<or>
        parse_ip host = Some (V6 [0, 0, 0, 0, 0, 0, 0, 1]))
   | ProxyPac url \<Rightarrow>
       (\<exists>parsed host authority port.
          url_parse E url = Some parsed \<and> url_scheme parsed = ''http'' \<and>
          url_path parsed = ''/commands/pac'' \<and> url_username parsed = '''' \<and>
          url_password parsed = None \<and> url_query parsed = None \<and> url_fragment parsed = None \<and>
          url_host parsed = Some host \<and> loopback_host host \<and>
          url_authority url = Some authority \<and> explicit_port authority = Inr port \<and> port \<noteq> 0)"
proof (cases config)
  case (ProxyGlobal host port bypass)
  with assms show ?thesis
    by (auto simp: validate_proxy_config_def bindR_Inr proxy_limits elim!: ok_or.elims is_loopback.elims)
next
  case (ProxyPac url)
  with assms show ?thesis
    by (auto simp: validate_proxy_config_def validate_pac_url_def bindR_Inr proxy_limits elim!: ok_or.elims)
qed simp

theorem validated_proxy_is_loopback_witness:
  "validate_proxy_config plain_params (ProxyGlobal ''127.0.0.1'' 7897 '''') = Inr () \<and>
   ((\<exists>octets. parse_ip ''127.0.0.1'' = Some (V4 octets) \<and> hd octets = 127) \<or>
    parse_ip ''127.0.0.1'' = Some (V6 [0, 0, 0, 0, 0, 0, 0, 1]))"
proof -
  have v: "validate_proxy_config plain_params (ProxyGlobal ''127.0.0.1'' 7897 '''') = Inr ()"
    by code_simp
  from validated_proxy_is_loopback [OF v] v show ?thesis by simp
qed

text \<open>
  Conversely every host of the loopback network, written as a dotted quad, is accepted with any
  port but zero.
\<close>

lemma loopback_quad_accepted:
  assumes "a < 256" "b < 256" "c < 256" "port \<noteq> 0"
  shows "validate_proxy_config E
     (ProxyGlobal (join_with ''.'' [''127'', show_nat a, show_nat b, show_nat c]) port '''') = Inr ()"
proof -
  let ?h = "join_with ''.'' (map show_nat [127, a, b, c])"
  have h: "?h = join_with ''.'' [''127'', show_nat a, show_nat b, show_nat c]"
    by simp code_simp
  have "parse_ip ?h = Some (V4 [127, a, b, c])"
    using assms by (intro parse_ip_dotted) auto
  moreover have "length ?h \<le> 64"
    using assms show_octet [of a] show_octet [of b] show_octet [of c] show_octet [of 127] by simp
  moreover have "CHR 0x00 \<notin> set ?h"
  proof -
    have "\<not> is_digit (CHR 0x00)" by code_simp
    then show ?thesis using show_nat_no_char by simp
  qed
  ultimately show ?thesis
    using assms unfolding h by (simp add: validate_proxy_config_def proxy_limits ensure_def)
qed

section \<open>What application leaves behind\<close>

text \<open>The settings of the machine are those of the requested mode and of no other.\<close>

definition proxy_settings_are :: "macos_proxy_config \<Rightarrow> world \<Rightarrow> bool" where
  "proxy_settings_are config w \<longleftrightarrow>
     (case config of
        ProxyDisabled \<Rightarrow> \<not> pxs_enable (sys_proxy w) \<and> \<not> pxa_enable (pac_proxy w)
      | ProxyGlobal host port bypass \<Rightarrow>
          pxs_enable (sys_proxy w) \<and> pxs_host (sys_proxy w) = host \<and> pxs_port (sys_proxy w) = port \<and>
          \<not> pxa_enable (pac_proxy w)
      | ProxyPac url \<Rightarrow> \<not> pxs_enable (sys_proxy w) \<and> pxa_enable (pac_proxy w) \<and> pxa_url (pac_proxy w) = url)"

lemma apply_real_ok:
  assumes L: "proxy_library E" and r: "apply_real E config w = (Inr u, v)"
  shows "proxy_settings_are config v"
proof -
  have s: "sysproxy_set E p w = (Inr (), v) \<Longrightarrow> sys_proxy v = p \<and> pac_proxy v = pac_proxy w" for p w v
    using L by (auto simp: proxy_library_def)
  have a: "autoproxy_set E p w = (Inr (), v) \<Longrightarrow> pac_proxy v = p \<and> sys_proxy v = sys_proxy w" for p w v
    using L by (auto simp: proxy_library_def)
  show ?thesis
    using r
    by (cases config)
      (auto simp: apply_real_def apply_with_backend_def real_set_system_proxy_def real_set_auto_proxy_def
        system_proxy_to_sysproxy_def bindE_Inr proxy_settings_are_def default_system_proxy_def
        default_auto_proxy_def dest!: s a)
qed

text \<open>A view of the world that does not read the proxy settings or the call number.\<close>

definition blind_to_proxy :: "(world \<Rightarrow> 'b) \<Rightarrow> bool" where
  "blind_to_proxy f \<longleftrightarrow> (\<forall>w s a n. f (w\<lparr>sys_proxy := s, pac_proxy := a, tick := n\<rparr>) = f w)"

lemma blind_proxy_fields [simp]:
  "blind_to_proxy env" "blind_to_proxy signals" "blind_to_proxy children" "blind_to_proxy dropped_children"
  "blind_to_proxy detached_watchdogs" "blind_to_proxy self_pid" "blind_to_proxy euid" "blind_to_proxy cwd"
  "blind_to_proxy service_cell" "blind_to_proxy core_cell" "blind_to_proxy startup_reconciled" "blind_to_proxy log_writer"
  "blind_to_proxy core_logs" "blind_to_proxy mgr" "blind_to_proxy fs" "blind_to_proxy (\<lambda>w. fs w p)"
  "blind_to_proxy state_file_sequence" "blind_to_proxy staging_temp_sequence"
  by (simp_all add: blind_to_proxy_def)

lemma apply_real_keeps [frame]:
  assumes L: "proxy_library E" and f: "blind_to_proxy f"
  shows "keeps f (apply_real E config)"
proof -
  have s: "keeps f (sysproxy_set E p)" "keeps f (autoproxy_set E q)" for p q
    using L f unfolding keeps_def proxy_library_def blind_to_proxy_def by metis+
  show ?thesis
    unfolding apply_real_def apply_with_backend_def real_set_system_proxy_def real_set_auto_proxy_def
    by (cases config) (auto intro!: frame s)
qed

lemma proxy_ops_keep [frame]:
  assumes L: "proxy_library E" and f: "blind_to_proxy f"
  shows "keeps f (apply_proxy E c)" "keeps f (clear_proxy E)" "keeps f (apply_proxy_or_direct E cs)"
proof -
  note a = apply_real_keeps [OF L f]
  show p: "keeps f (apply_proxy E c)" for c
    unfolding apply_proxy_def by (auto intro!: frame a)
  show "keeps f (clear_proxy E)"
    unfolding clear_proxy_def by (auto intro!: frame p split: sum.splits)
  show "keeps f (apply_proxy_or_direct E cs)"
    unfolding apply_proxy_or_direct_def apply_proxy_or_direct_with_def Let_def
    by (auto intro!: frame a split: sum.splits option.splits)
qed

text \<open>
  C39. Applying a proxy ends in a known state. \<open>Applied\<close> means that the machine is in exactly the
  requested mode (the other mechanism is off); \<open>DirectFallback\<close> means that the request was valid and
  that the machine goes direct, except when there is no active network service to configure at all;
  \<open>NotRequested\<close> is the answer to no request only, and changes nothing.
\<close>

theorem apply_proxy_or_direct_outcome:
  assumes "proxy_library E" and "os (bd E) = MacOS"
    and "apply_proxy_or_direct E config w = (Inr outcome, v)"
  shows "case outcome of
     NotRequested \<Rightarrow> config = None \<and> v = w
   | Applied \<Rightarrow> (\<exists>c. config = Some c \<and> validate_proxy_config E c = Inr () \<and> proxy_settings_are c v)
   | DirectFallback message \<Rightarrow>
       (\<exists>c. config = Some c \<and> validate_proxy_config E c = Inr () \<and>
         (proxy_settings_are ProxyDisabled v \<or>
          (\<exists>e e' w'. apply_real E c w = (Inl e, w') \<and> apply_real E ProxyDisabled w' = (Inl e', v) \<and>
             is_no_active_network_service E e \<and> is_no_active_network_service E e')))"
proof (cases config)
  case None
  with assms show ?thesis by (simp add: apply_proxy_or_direct_def apply_proxy_or_direct_with_def)
next
  case (Some c)
  note run = assms(3) [unfolded apply_proxy_or_direct_def apply_proxy_or_direct_with_def Some option.case]
  from run assms(2) have val: "validate_proxy_config E c = Inr ()"
    by (auto simp: bindE_Inr liftE_def)
  obtain r w1 where a: "apply_real E c w = (r, w1)" by (cases "apply_real E c w")
  show ?thesis
  proof (cases r)
    case (Inr u)
    with run assms(2) a val have "outcome = Applied" "v = w1"
      by (auto simp: bindE_def liftE_def tryE_eq okE_def)
    with val Some apply_real_ok [OF assms(1)] a Inr show ?thesis by simp
  next
    case (Inl e)
    obtain r2 w2 where b: "apply_real E ProxyDisabled w1 = (r2, w2)" by (cases "apply_real E ProxyDisabled w1")
    from run assms(2) a val Inl b have o: "outcome = DirectFallback (show_outer e)" and v: "v = w2"
      and r2: "(\<exists>u. r2 = Inr u) \<or> (\<exists>e'. r2 = Inl e' \<and> is_no_active_network_service E e
                 \<and> is_no_active_network_service E e')"
      by (auto simp: bindE_def liftE_def tryE_eq okE_def failE_def Let_def split: sum.splits if_splits)
    from r2 show ?thesis
      using o v val Some apply_real_ok [OF assms(1)] a b Inl by auto
  qed
qed

theorem apply_proxy_or_direct_outcome_witness:
  "fst (apply_proxy_or_direct (plain_params\<lparr>bd := \<lparr>os = MacOS, development_channel = False\<rparr>\<rparr>)
      (Some (ProxyGlobal ''127.0.0.1'' 7897 '''')) (calm_world Map.empty)) = Inr Applied \<and>
   proxy_settings_are (ProxyGlobal ''127.0.0.1'' 7897 '''')
     (snd (apply_proxy_or_direct (plain_params\<lparr>bd := \<lparr>os = MacOS, development_channel = False\<rparr>\<rparr>)
      (Some (ProxyGlobal ''127.0.0.1'' 7897 '''')) (calm_world Map.empty)))"
proof -
  let ?E = "plain_params\<lparr>bd := \<lparr>os = MacOS, development_channel = False\<rparr>\<rparr>"
  let ?c = "Some (ProxyGlobal ''127.0.0.1'' 7897 '''')"
  let ?r = "apply_proxy_or_direct ?E ?c (calm_world Map.empty)"
  have r: "fst ?r = Inr Applied" by code_simp
  then have "?r = (Inr Applied, snd ?r)" by (metis prod.collapse)
  moreover have "proxy_library ?E"
    using proxy_library_plain by (simp add: proxy_library_def)
  ultimately show ?thesis
    using apply_proxy_or_direct_outcome [of ?E ?c _ Applied] r by simp
qed

end
