(* ===== verification/UnixSecurity.thy ===== *)
theory UnixSecurity
  imports World
begin

text \<open>
  \<open>src/core/unix_security.rs\<close>: the directories and files of the service are opened without
  following symbolic links, must belong to the service's user, and get a private mode. Modes are
  the permission bits in decimal (448 is octal 700, 384 octal 600, 493 octal 755).
\<close>

definition open_directory :: "path \<Rightarrow> unit io" where
  "open_directory p = syscall (\<lambda>w.
     (case fs w p of
        None \<Rightarrow> (Inl NotFound, w)
      | Some n \<Rightarrow> if nd_kind n = Directory then (Inr (), w) else (Inl OtherIo, w)))"

definition open_file_nofollow :: "path \<Rightarrow> unit io" where
  "open_file_nofollow p = syscall (\<lambda>w.
     (case fs w p of
        None \<Rightarrow> (Inl NotFound, w)
      | Some n \<Rightarrow> if nd_kind n = Directory \<or> nd_kind n = Symlink then (Inl OtherIo, w) else (Inr (), w)))"

definition fstat :: "path \<Rightarrow> node io" where
  "fstat p = syscall (\<lambda>w. (case fs w p of None \<Rightarrow> (Inl NotFound, w) | Some n \<Rightarrow> (Inr n, w)))"

definition fchown_root :: "path \<Rightarrow> unit io" where
  "fchown_root p = syscall (\<lambda>w.
     (case fs w p of
        None \<Rightarrow> (Inl NotFound, w)
      | Some n \<Rightarrow> (Inr (), set_node p (Some (n\<lparr>nd_uid := 0, nd_gid := 0\<rparr>)) w)))"

definition fchmod :: "path \<Rightarrow> nat \<Rightarrow> unit io" where
  "fchmod p m = syscall (\<lambda>w.
     (case fs w p of
        None \<Rightarrow> (Inl NotFound, w)
      | Some n \<Rightarrow> (Inr (), set_node p (Some (n\<lparr>nd_mode := m\<rparr>)) w)))"

definition secure_open_directory :: "path \<Rightarrow> nat \<Rightarrow> unit act" where
  "secure_open_directory path mode =
     bindE (ctx_io ''failed to inspect service directory'' (fstat path)) (\<lambda>st.
     bindE (get euid) (\<lambda>expected_uid.
       if nd_uid st \<noteq> expected_uid \<or> nd_kind st \<noteq> Directory
       then failE (Msg ''service directory has an unexpected owner or file type'')
       else
         bindE (if expected_uid = 0 then ctx_io ''failed to set root ownership'' (fchown_root path)
                else okE ()) (\<lambda>_.
         ctx_io ''failed to secure service directory'' (fchmod path mode))))"

definition ensure_service_directory :: "path \<Rightarrow> nat \<Rightarrow> unit act" where
  "ensure_service_directory path mode =
     tryE (fs_create_dir path) (\<lambda>r.
       if r = Inr () \<or> r = Inl AlreadyExists then
         bindE (ctx_io ''failed to open service directory'' (open_directory path)) (\<lambda>_.
           secure_open_directory path mode)
       else (case r of Inl k \<Rightarrow> failE (Ctx ''failed to create'' (Io k)) | Inr _ \<Rightarrow> okE ()))"

definition ensure_private_service_directory :: "path \<Rightarrow> unit act" where
  "ensure_private_service_directory path = ensure_service_directory path 448"

definition ensure_private_installer_directory :: "path \<Rightarrow> unit act" where
  "ensure_private_installer_directory path = ensure_private_service_directory path"

text \<open>
  The owner check and the two permission calls: both calls are made, and the file is refused when
  either failed.
\<close>

definition apply_private_mode :: "path \<Rightarrow> u32 \<Rightarrow> unit act" where
  "apply_private_mode path expected_uid =
     tryE (if expected_uid = 0 then fchown_root path else okE ()) (\<lambda>chown_ok.
     tryE (fchmod path 384) (\<lambda>chmod_ok.
       (case (chown_ok, chmod_ok) of
          (Inr _, Inr _) \<Rightarrow> okE ()
        | (_, Inl k) \<Rightarrow> failE (Ctx ''failed to secure service file'' (Io k))
        | (Inl k, _) \<Rightarrow> failE (Ctx ''failed to secure service file'' (Io k)))))"

definition secure_private_service_file_if_exists :: "path \<Rightarrow> unit act" where
  "secure_private_service_file_if_exists path =
     tryE (open_file_nofollow path) (\<lambda>r.
       (case r of
          Inl k \<Rightarrow> if k = NotFound then okE () else failE (Ctx ''failed to open service file'' (Io k))
        | Inr _ \<Rightarrow>
            tryE (fstat path) (\<lambda>st.
            bindE (get euid) (\<lambda>expected_uid.
              if (case st of Inl _ \<Rightarrow> True
                  | Inr n \<Rightarrow> nd_uid n \<noteq> expected_uid \<or> nd_kind n \<noteq> RegularFile)
              then failE (Msg ''service file has an unexpected owner or file type'')
              else
                apply_private_mode path expected_uid))))"

section \<open>Frames\<close>

lemma blind_security_ops [blind]:
  assumes f: "blind_to_files f"
  shows "keeps f (open_directory p)" "keeps f (open_file_nofollow p)" "keeps f (fstat p)"
    "keeps f (fchown_root p)" "keeps f (fchmod p m)"
  unfolding open_directory_def open_file_nofollow_def fstat_def fchown_root_def fchmod_def
  by (rule blind_syscall [OF f], simp add: keeps_def blind_node [OF f] split: option.splits)+

lemma security_ops_other [files]:
  "keeps (\<lambda>w. fs w p) (open_directory q)" "keeps (\<lambda>w. fs w p) (open_file_nofollow q)"
  "keeps (\<lambda>w. fs w p) (fstat q)"
  "p \<noteq> q \<Longrightarrow> keeps (\<lambda>w. fs w p) (fchown_root q)"
  "p \<noteq> q \<Longrightarrow> keeps (\<lambda>w. fs w p) (fchmod q m)"
  unfolding open_directory_def open_file_nofollow_def fstat_def fchown_root_def fchmod_def
  by (rule keeps_file_syscall, simp split: option.splits)+

lemma keeps_secure_file:
  assumes "keeps f (open_file_nofollow p)" "keeps f (fstat p)" "keeps f (fchown_root p)" "keeps f (fchmod p 384)"
  shows "keeps f (secure_private_service_file_if_exists p)"
  unfolding secure_private_service_file_if_exists_def apply_private_mode_def
  by (auto intro!: frame assms split: sum.splits prod.splits)

lemma keeps_ensure_directory:
  assumes "keeps f (fs_create_dir p)" "keeps f (open_directory p)" "keeps f (fstat p)"
    "keeps f (fchown_root p)" "keeps f (fchmod p m)"
  shows "keeps f (ensure_service_directory p m)"
  unfolding ensure_service_directory_def secure_open_directory_def
  by (auto intro!: frame assms split: sum.splits)

lemma blind_secure [blind]:
  "blind_to_files f \<Longrightarrow> keeps f (secure_private_service_file_if_exists p)"
  "blind_to_files f \<Longrightarrow> keeps f (ensure_service_directory p m)"
  "blind_to_files f \<Longrightarrow> keeps f (ensure_private_service_directory p)"
  by (simp_all add: keeps_secure_file keeps_ensure_directory frame blind files ensure_private_service_directory_def)

lemma secure_other [files]:
  "p \<noteq> q \<Longrightarrow> keeps (\<lambda>w. fs w p) (secure_private_service_file_if_exists q)"
  "p \<noteq> q \<Longrightarrow> keeps (\<lambda>w. fs w p) (ensure_service_directory q m)"
  "p \<noteq> q \<Longrightarrow> keeps (\<lambda>w. fs w p) (ensure_private_service_directory q)"
  by (simp_all add: keeps_secure_file keeps_ensure_directory frame blind files ensure_private_service_directory_def)

text \<open>
  What the owner and permission calls keep of a file: its kind, its contents and whether it exists.
  \<open>same_data p\<close> reads just that.
\<close>

definition file_data :: "path \<Rightarrow> world \<Rightarrow> (file_kind \<times> content) option" where
  "file_data p w = map_option (\<lambda>n. (nd_kind n, nd_data n)) (fs w p)"

lemma keeps_data_syscall:
  assumes "\<And>w. file_data p (snd (m w)) = file_data p w"
  shows "keeps (file_data p) (syscall m)"
  by (rule keeps_syscall) (simp_all add: keeps_def assms, simp add: file_data_def)

lemma set_node_data:
  "fs w q = Some n \<Longrightarrow> nd_kind n' = nd_kind n \<Longrightarrow> nd_data n' = nd_data n \<Longrightarrow>
   file_data p (set_node q (Some n') w) = file_data p w"
  by (auto simp: file_data_def set_node_def)

lemma security_ops_data [files]:
  "keeps (file_data p) (open_directory q)" "keeps (file_data p) (open_file_nofollow q)"
  "keeps (file_data p) (fstat q)" "keeps (file_data p) (fchown_root q)"
  "keeps (file_data p) (fchmod q m)" "keeps (file_data p) (fs_read q)"
  "keeps (file_data p) (fs_try_exists q)" "keeps (file_data p) fs_sync"
  unfolding open_directory_def open_file_nofollow_def fstat_def fchown_root_def fchmod_def fs_read_def
    fs_try_exists_def fs_sync_def
  by (rule keeps_data_syscall, simp add: set_node_data split: option.splits)+

lemma secure_file_data [files]: "keeps (file_data p) (secure_private_service_file_if_exists q)"
  by (rule keeps_secure_file) (simp_all add: files)

lemma file_data_other: "keeps (\<lambda>w. fs w p) m \<Longrightarrow> keeps (file_data p) m"
  by (simp add: keeps_def file_data_def)

lemma file_ops_data [files]:
  "p \<noteq> q \<Longrightarrow> keeps (file_data p) (fs_remove_file q)"
  "p \<noteq> q \<Longrightarrow> p \<noteq> q' \<Longrightarrow> keeps (file_data p) (fs_rename q q')"
  "p \<noteq> q \<Longrightarrow> p \<noteq> q' \<Longrightarrow> keeps (file_data p) (atomic_replace q q')"
  "p \<noteq> q \<Longrightarrow> keeps (file_data p) (fs_create_new q)"
  "p \<noteq> q \<Longrightarrow> keeps (file_data p) (fs_create q)"
  "p \<noteq> q \<Longrightarrow> keeps (file_data p) (fs_write_all q c)"
  "p \<noteq> q \<Longrightarrow> keeps (file_data p) (fs_create_dir q)"
  "p \<noteq> q \<Longrightarrow> keeps (file_data p) (ensure_service_directory q m)"
  "p \<noteq> q \<Longrightarrow> keeps (file_data p) (ensure_private_service_directory q)"
  by (simp_all add: file_data_other files)

lemma file_data_None [simp]: "file_data p w = None \<longleftrightarrow> fs w p = None"
  by (simp add: file_data_def)

section \<open>What a successful call guarantees\<close>

lemma open_directory_ok: "open_directory p w = (Inr u, v) \<Longrightarrow> fs v = fs w \<and> is_dir (fs w) p"
  by (auto simp: open_directory_def syscall_Inr is_dir_def split: option.splits if_splits)

lemma fstat_ok: "fstat p w = (Inr n, v) \<Longrightarrow> fs v = fs w \<and> fs w p = Some n \<and> euid v = euid w"
  by (auto simp: fstat_def syscall_Inr split: option.splits)

lemma fchown_ok: "fchown_root p w = (Inr u, v) \<Longrightarrow>
    \<exists>n. fs w p = Some n \<and> fs v p = Some (n\<lparr>nd_uid := 0, nd_gid := 0\<rparr>)"
  by (auto simp: fchown_root_def syscall_Inr split: option.splits)

lemma fchmod_ok: "fchmod p m w = (Inr u, v) \<Longrightarrow>
    \<exists>n. fs w p = Some n \<and> fs v p = Some (n\<lparr>nd_mode := m\<rparr>)"
  by (auto simp: fchmod_def syscall_Inr split: option.splits)

text \<open>A directory that is private to the user \<open>u\<close> with the given mode.\<close>

definition private_directory :: "u32 \<Rightarrow> nat \<Rightarrow> node option \<Rightarrow> bool" where
  "private_directory u m n = (case n of
     None \<Rightarrow> False | Some d \<Rightarrow> nd_kind d = Directory \<and> nd_uid d = u \<and> nd_mode d = m)"

definition private_file :: "u32 \<Rightarrow> node option \<Rightarrow> bool" where
  "private_file u n = (case n of
     None \<Rightarrow> False | Some d \<Rightarrow> nd_kind d = RegularFile \<and> nd_uid d = u \<and> nd_mode d = 384)"

lemma secure_open_directory_ok:
  assumes "secure_open_directory p m w = (Inr u, v)"
  shows "private_directory (euid w) m (fs v p)"
proof -
  from assms obtain st w1 w2 where st: "fstat p w = (Inr st, w1)"
    and own: "nd_uid st = euid w" "nd_kind st = Directory"
    and ch: "(if euid w = 0 then ctx_io ''failed to set root ownership'' (fchown_root p) else okE ()) w1
               = (Inr (), w2)"
    and md: "fchmod p m w2 = (Inr u, v)"
    by (auto simp: secure_open_directory_def bindE_Inr dest!: fstat_ok split: if_splits)
  from fstat_ok [OF st] have f1: "fs w1 p = Some st" by simp
  from ch f1 own obtain n where "fs w2 p = Some n" "nd_uid n = euid w" "nd_kind n = Directory"
    by (auto split: if_splits dest!: fchown_ok)
  with fchmod_ok [OF md] show ?thesis by (auto simp: private_directory_def)
qed


lemma apply_private_mode_ok:
  assumes "fs w p = Some n" "nd_uid n = e" "is_ok (fst (apply_private_mode p e w))"
  shows "\<exists>n'. fs (snd (apply_private_mode p e w)) p = Some n' \<and> nd_uid n' = e \<and>
    nd_kind n' = nd_kind n \<and> nd_mode n' = 384"
proof -
  define ch where "ch = (if e = 0 then fchown_root p else (okE () :: unit io))"
  obtain r3 w3 where c: "ch w = (r3, w3)" by (cases "ch w")
  obtain r4 w4 where m: "fchmod p 384 w3 = (r4, w4)" by (cases "fchmod p 384 w3")
  have run: "apply_private_mode p e w = (case (r3, r4) of
                   (Inr _, Inr _) \<Rightarrow> okE ()
                 | (_, Inl k) \<Rightarrow> failE (Ctx ''failed to secure service file'' (Io k))
                 | (Inl k, _) \<Rightarrow> failE (Ctx ''failed to secure service file'' (Io k))) w4"
    unfolding apply_private_mode_def ch_def [symmetric] by (cases r3) (simp_all add: tryE_eq c m)
  with assms(3) obtain a b where ab: "r3 = Inr a" "r4 = Inr b"
    by (auto simp: failE_def split: sum.splits)
  with run have v: "snd (apply_private_mode p e w) = w4" by (simp add: okE_def)
  have "\<exists>n'. fs w3 p = Some n' \<and> nd_uid n' = e \<and> nd_kind n' = nd_kind n"
    using c ab assms(1,2) by (auto simp: ch_def split: if_splits dest!: fchown_ok)
  with fchmod_ok [of p 384 w3 b w4] m ab v show ?thesis by auto
qed

text \<open>
  C30. Whenever the service reports a directory of its own as prepared, that directory is a real
  directory (a link in its place is refused), it belongs to the service's user, and its mode is
  the requested one, whatever happened to it before and whichever calls failed on the way.
\<close>

theorem ensure_service_directory_private:
  assumes "ensure_service_directory p m w = (Inr u, v)"
  shows "private_directory (euid w) m (fs v p)"
proof -
  obtain r w1 where c: "fs_create_dir p w = (r, w1)" by (cases "fs_create_dir p w")
  have e1: "euid w1 = euid w" using c keepsD [of euid "fs_create_dir p" w r w1] by (simp add: blind)
  from assms c have r: "r = Inr () \<or> r = Inl AlreadyExists"
    by (auto simp: ensure_service_directory_def tryE_eq split: if_splits sum.splits)
  with assms c obtain w2 where o: "open_directory p w1 = (Inr (), w2)"
    and s: "secure_open_directory p m w2 = (Inr u, v)"
    by (auto simp: ensure_service_directory_def tryE_eq bindE_Inr)
  have "euid w2 = euid w1" using o keepsD [of euid "open_directory p" w1 "Inr ()" w2] by (simp add: blind)
  with e1 secure_open_directory_ok [OF s] show ?thesis by simp
qed

theorem ensure_service_directory_private_witness:
  "fst (ensure_service_directory [''run'', ''svc''] 493 (calm_world [[''run''] \<mapsto> directory_node 0])) = Inr () \<and>
   private_directory 0 493
     (fs (snd (ensure_service_directory [''run'', ''svc''] 493 (calm_world [[''run''] \<mapsto> directory_node 0])))
       [''run'', ''svc''])"
proof -
  let ?w = "calm_world [[''run''] \<mapsto> directory_node 0]"
  let ?r = "ensure_service_directory [''run'', ''svc''] 493 ?w"
  have r: "fst ?r = Inr ()" by code_simp
  then have "?r = (Inr (), snd ?r)" by (metis prod.collapse)
  from ensure_service_directory_private [OF this] r show ?thesis
    by (simp add: calm_world_def)
qed

text \<open>
  Securing a state file never alters what any file holds: it either refuses, or finds nothing,
  or leaves a regular file of the service's user with mode 600.
\<close>

lemma secure_file_private:
  "file_data q (snd (secure_private_service_file_if_exists p w)) = file_data q w \<and>
   (is_ok (fst (secure_private_service_file_if_exists p w)) \<longrightarrow>
    fs w p = None \<or> fault w (tick w) = Some NotFound \<or>
    private_file (euid w) (fs (snd (secure_private_service_file_if_exists p w)) p))"
proof (intro conjI impI)
  show "file_data q (snd (secure_private_service_file_if_exists p w)) = file_data q w"
    by (rule keeps_snd) (rule files)
next
  let ?m = "secure_private_service_file_if_exists p"
  assume ok: "is_ok (fst (?m w))"
  obtain r w1 where o: "open_file_nofollow p w = (r, w1)" by (cases "open_file_nofollow p w")
  show "fs w p = None \<or> fault w (tick w) = Some NotFound \<or> private_file (euid w) (fs (snd (?m w)) p)"
  proof (cases r)
    case (Inl k)
    with ok o have "k = NotFound"
      by (auto simp: secure_private_service_file_if_exists_def tryE_eq failE_def split: if_splits)
    with o Inl show ?thesis
      by (auto simp: open_file_nofollow_def syscall_def Let_def split: option.splits if_splits)
  next
    case (Inr x)
    have e1: "euid w1 = euid w" using o keepsD [of euid "open_file_nofollow p" w r w1] by (simp add: blind)
    obtain r2 w2 where st: "fstat p w1 = (r2, w2)" by (cases "fstat p w1")
    have e2: "euid w2 = euid w" using st e1 keepsD [of euid "fstat p" w1 r2 w2] by (simp add: blind)
    from ok o Inr st obtain n where n: "r2 = Inr n" "nd_uid n = euid w" "nd_kind n = RegularFile"
      by (auto simp: secure_private_service_file_if_exists_def tryE_eq failE_def bindE_def get_def e2
          split: if_splits sum.splits)
    then have f2: "fs w2 p = Some n" using fstat_ok st by auto
    have run: "?m w = apply_private_mode p (euid w) w2"
      using o Inr st n e2 by (simp add: secure_private_service_file_if_exists_def tryE_eq bindE_def get_def)
    with ok apply_private_mode_ok [OF f2 n(2)] n(3) show ?thesis
      by (auto simp: private_file_def)
  qed
qed

end
