(* ===== verification/StateFiles.thy ===== *)
theory StateFiles
  imports UnixSecurity
begin

text \<open>
  How the service reads and writes its state files: the directory layout of \<open>src/core/paths.rs\<close>
  and the atomic JSON files of \<open>src/core/desired.rs\<close>. The value a file holds is described by a
  codec, a pair of functions between the type and JSON; the locale \<open>state_codec\<close> is the interface
  between the file operations and the types that are stored.
\<close>

section \<open>Directory layout\<close>

definition ensure_persistent_state_layout :: "params \<Rightarrow> unit act" where
  "ensure_persistent_state_layout E =
     (let paths = paths_of E; root = sp_persistent_state_dir paths in
      bindE (ensure_private_service_directory root) (\<lambda>_.
      bindE (ensure_private_service_directory (root @ [''users''])) (\<lambda>_.
      bindE (ensure_private_service_directory (install_dir paths)) (\<lambda>_.
      bindE (secure_private_service_file_if_exists (active_owner_path paths)) (\<lambda>_.
        secure_private_service_file_if_exists (owner_generation_path paths))))))"

definition prepare_service_install_directory :: "params \<Rightarrow> path act" where
  "prepare_service_install_directory E =
     (let paths = paths_of E; install = install_dir paths in
      bindE (ensure_private_installer_directory (sp_persistent_state_dir paths)) (\<lambda>_.
      bindE (ensure_private_installer_directory install) (\<lambda>_. okE install)))"

definition ensure_owner_state_directory :: "params \<Rightarrow> owner_identity \<Rightarrow> owner_paths act" where
  "ensure_owner_state_directory E identity =
     bindE (ensure_persistent_state_layout E) (\<lambda>_.
       let owner = for_owner (sha256 E) (paths_of E) identity in
       bindE (ensure_private_service_directory owner) (\<lambda>_. okE owner))"

definition layout_directories :: "params \<Rightarrow> path set" where
  "layout_directories E =
     {sp_persistent_state_dir (paths_of E), sp_persistent_state_dir (paths_of E) @ [''users''],
      install_dir (paths_of E)}"

section \<open>State files\<close>

definition secure_state_file_if_exists :: "path \<Rightarrow> unit act" where
  "secure_state_file_if_exists p = secure_private_service_file_if_exists p"

text \<open>
  A name beside the file that no earlier call returned: the file's name, the role, the process id,
  the time and the next sequence number.
\<close>

definition sibling_name :: "string \<Rightarrow> string \<Rightarrow> u32 \<Rightarrow> u64 \<Rightarrow> u64 \<Rightarrow> string" where
  "sibling_name file_name role pid timestamp sequence =
     file_name @ ''.'' @ role @ ''-'' @ show_nat (unat pid) @ ''-'' @ show_nat (unat timestamp) @ ''-'' @
     show_nat (unat sequence)"

definition with_file_name :: "path \<Rightarrow> string \<Rightarrow> path" where
  "with_file_name p name = butlast p @ [name]"

definition sibling_state_path :: "path \<Rightarrow> string \<Rightarrow> path act" where
  "sibling_state_path p role w =
     (let sequence = state_file_sequence w;
          timestamp = now w (tick w);
          file_name = (if p = [] then '''' else last p) in
      (Inr (with_file_name p (sibling_name file_name role (self_pid w) timestamp sequence)),
       w\<lparr>tick := Suc (tick w), state_file_sequence := sequence + 1\<rparr>))"

definition write_state_temp :: "path \<Rightarrow> json \<Rightarrow> unit act" where
  "write_state_temp temp j =
     bindE (ctx_io ''failed to create state temp file'' (fs_create_new temp)) (\<lambda>_.
     bindE (ctx_io ''failed to write state temp file'' (fs_write_all temp (JsonText j))) (\<lambda>_.
     bindE (ctx_io ''failed to flush state temp file'' fs_sync) (\<lambda>_.
     bindE (ctx_io ''failed to sync state temp file'' fs_sync) (\<lambda>_.
       secure_state_file_if_exists temp))))"

definition write_and_replace :: "path \<Rightarrow> path \<Rightarrow> json \<Rightarrow> unit act" where
  "write_and_replace temp p j =
     bindE (write_state_temp temp j) (\<lambda>_.
     bindE (ctx_io ''failed to move state into place'' (atomic_replace temp p)) (\<lambda>_.
       secure_state_file_if_exists p))"

definition write_json_atomic :: "params \<Rightarrow> path \<Rightarrow> json \<Rightarrow> unit act" where
  "write_json_atomic E p j =
     bindE (ensure_persistent_state_layout E) (\<lambda>_.
     bindE (case path_parent p of None \<Rightarrow> okE () | Some parent \<Rightarrow> ensure_private_service_directory parent) (\<lambda>_.
     bindE (sibling_state_path p ''tmp'') (\<lambda>temp.
     tryE (write_and_replace temp p j) (\<lambda>r.
       (case r of
          Inr _ \<Rightarrow> okE ()
        | Inl e \<Rightarrow> tryE (fs_remove_file temp) (\<lambda>_. failE e))))))"

definition read_json_or_default :: "(json \<Rightarrow> 'a option) \<Rightarrow> 'a \<Rightarrow> path \<Rightarrow> 'a act" where
  "read_json_or_default de dflt p =
     bindE (secure_state_file_if_exists p) (\<lambda>_.
     tryE (fs_read p) (\<lambda>r.
       (case r of
          Inr c \<Rightarrow> liftE (ok_or (Msg ''failed to parse state'') (Option.bind (content_json c) de))
        | Inl k \<Rightarrow>
            if k = NotFound then okE dflt else failE (Ctx ''failed to read state'' (Io k)))))"

section \<open>Frames\<close>

definition blind_to_state_files :: "(world \<Rightarrow> 'b) \<Rightarrow> bool" where
  "blind_to_state_files f \<longleftrightarrow> blind_to_files f \<and> (\<forall>w n. f (w\<lparr>state_file_sequence := n\<rparr>) = f w)"

lemma blind_state_files [simp]:
  "blind_to_state_files env" "blind_to_state_files signals" "blind_to_state_files children" "blind_to_state_files dropped_children"
  "blind_to_state_files detached_watchdogs" "blind_to_state_files self_pid" "blind_to_state_files euid" "blind_to_state_files cwd"
  "blind_to_state_files service_cell" "blind_to_state_files core_cell" "blind_to_state_files startup_reconciled" "blind_to_state_files log_writer"
  "blind_to_state_files core_logs" "blind_to_state_files mgr" "blind_to_state_files sys_proxy" "blind_to_state_files pac_proxy"
  "blind_to_state_files staging_temp_sequence"
  by (simp_all add: blind_to_state_files_def)

lemma blind_state_is_file: "blind_to_state_files f \<Longrightarrow> blind_to_files f"
  by (simp add: blind_to_state_files_def)

lemma blind_layout [blind]: "blind_to_files f \<Longrightarrow> keeps f (ensure_persistent_state_layout E)"
  by (simp add: ensure_persistent_state_layout_def Let_def frame blind)

lemma blind_secure_state [blind]: "blind_to_files f \<Longrightarrow> keeps f (secure_state_file_if_exists p)"
  by (simp add: secure_state_file_if_exists_def blind)

lemma secure_state_data [files]: "keeps (file_data p) (secure_state_file_if_exists q)"
  by (simp add: secure_state_file_if_exists_def files)

lemma keeps_sibling:
  "(\<And>w n k. f (w\<lparr>tick := n, state_file_sequence := k\<rparr>) = f w) \<Longrightarrow> keeps f (sibling_state_path p role)"
  by (simp add: keeps_def sibling_state_path_def Let_def)

lemma blind_sibling [blind]: "blind_to_state_files f \<Longrightarrow> keeps f (sibling_state_path p role)"
  by (rule keeps_sibling) (simp add: blind_to_state_files_def blind_to_files_def)

lemma blind_state_ops [blind]:
  assumes f: "blind_to_state_files f"
  shows "keeps f (write_json_atomic E p j)" "keeps f (read_json_or_default de d p)"
proof -
  note b = blind_state_is_file [OF f]
  show "keeps f (write_json_atomic E p j)"
    unfolding write_json_atomic_def write_and_replace_def write_state_temp_def
    by (intro frame blind f b)
  show "keeps f (read_json_or_default de d p)"
    unfolding read_json_or_default_def
    by (intro frame blind f b)
qed

lemma layout_data [files]:
  assumes "p \<notin> layout_directories E"
  shows "keeps (file_data p) (ensure_persistent_state_layout E)"
proof -
  have d: "keeps (file_data p) (ensure_private_service_directory q)" if "q \<in> layout_directories E" for q
    using that assms by (intro file_ops_data(9)) blast
  show ?thesis
    unfolding ensure_persistent_state_layout_def Let_def
    by (intro frame d security_ops_data secure_file_data) (simp_all add: layout_directories_def)
qed

section \<open>What a write does\<close>

lemma sibling_run: "\<exists>name. sibling_state_path p role w =
    (Inr (butlast p @ [(if p = [] then '''' else last p) @ ''.'' @ name]),
     w\<lparr>tick := Suc (tick w), state_file_sequence := state_file_sequence w + 1\<rparr>)"
  by (simp add: sibling_state_path_def Let_def with_file_name_def sibling_name_def)

lemma sibling_differs: "p \<noteq> [] \<Longrightarrow> sibling_state_path p role w = (Inr t, v) \<Longrightarrow> t \<noteq> p"
proof
  assume p: "p \<noteq> []" and run: "sibling_state_path p role w = (Inr t, v)" and "t = p"
  from sibling_run [of p role w] p obtain name where
    "sibling_state_path p role w = (Inr (butlast p @ [last p @ ''.'' @ name]),
       w\<lparr>tick := Suc (tick w), state_file_sequence := state_file_sequence w + 1\<rparr>)" by auto
  with run have "t = butlast p @ [last p @ ''.'' @ name]" by (metis Pair_inject sum.inject(2))
  with \<open>t = p\<close> have "last p = last p @ ''.'' @ name" by (metis last_snoc)
  then show False by simp
qed

lemma create_new_ok: "fs_create_new p w = (Inr u, v) \<Longrightarrow>
    fs w p = None \<and> file_data p v = Some (RegularFile, Bytes '''')"
  by (auto simp: fs_create_new_def syscall_Inr file_data_def new_file_def split: if_splits)

lemma write_all_ok: "fs_write_all p c w = (Inr u, v) \<Longrightarrow>
    file_data p v = map_option (\<lambda>(k, d). (k, c)) (file_data p w) \<and> fs w p \<noteq> None"
  by (auto simp: fs_write_all_def syscall_Inr file_data_def split: option.splits)

lemma rename_ok: "fs_rename p q w = (Inr u, v) \<Longrightarrow>
    fs w p \<noteq> None \<and> file_data q v = file_data p w \<and> (p \<noteq> q \<longrightarrow> fs v p = None)"
  by (auto simp: fs_rename_def syscall_Inr file_data_def split: option.splits if_splits)

lemma rename_err: "fs_rename p q w = (Inl k, v) \<Longrightarrow> fs v = fs w"
  by (auto simp: fs_rename_def syscall_def Let_def split: option.splits if_splits)

lemma write_state_temp_other [files]: "p \<noteq> temp \<Longrightarrow> keeps (file_data p) (write_state_temp temp j)"
  unfolding write_state_temp_def
  by (auto intro!: frame files)

lemma write_state_temp_ok:
  assumes "write_state_temp temp j w = (Inr u, v)"
  shows "file_data temp v = Some (RegularFile, JsonText j)"
proof -
  from assms obtain w1 w2 w3 w4 where
    1: "fs_create_new temp w = (Inr (), w1)" and 2: "fs_write_all temp (JsonText j) w1 = (Inr (), w2)" and
    3: "fs_sync w2 = (Inr (), w3)" and 4: "fs_sync w3 = (Inr (), w4)" and
    5: "secure_state_file_if_exists temp w4 = (Inr u, v)"
    by (auto simp: write_state_temp_def bindE_Inr)
  have "file_data temp v = file_data temp w4" using 5 by (rule keepsD [OF secure_state_data])
  moreover have "file_data temp w4 = file_data temp w3" "file_data temp w3 = file_data temp w2"
    using 3 4 keepsD [OF security_ops_data(8)] by auto
  ultimately show ?thesis
    using create_new_ok [OF 1] write_all_ok [OF 2] by simp
qed

text \<open>
  Whatever fails, the file at \<open>p\<close> holds its old contents or the new document whole.
\<close>

lemma write_and_replace_data:
  assumes "write_and_replace temp p j w = (r, v)" "temp \<noteq> p"
  shows "(file_data p v = file_data p w \<and> r \<noteq> Inr ()) \<or> file_data p v = Some (RegularFile, JsonText j)"
proof -
  obtain r1 w1 where 1: "write_state_temp temp j w = (r1, w1)" by (cases "write_state_temp temp j w")
  have d1: "file_data p w1 = file_data p w" using 1 assms(2) keepsD [OF write_state_temp_other] by metis
  show ?thesis
  proof (cases r1)
    case (Inl e)
    with 1 assms(1) d1 show ?thesis by (auto simp: write_and_replace_def bindE_def)
  next
    case (Inr u)
    then have t1: "file_data temp w1 = Some (RegularFile, JsonText j)" using 1 write_state_temp_ok by auto
    obtain r2 w2 where 2: "fs_rename temp p w1 = (r2, w2)" by (cases "fs_rename temp p w1")
    show ?thesis
    proof (cases r2)
      case (Inl k)
      then have "file_data p w2 = file_data p w1" using rename_err 2 by (auto simp: file_data_def)
      with 1 2 Inr Inl assms(1) d1 show ?thesis
        by (auto simp: write_and_replace_def bindE_def ctx_io_def mapErrE_def atomic_replace_def)
    next
      case (Inr u')
      then have "file_data p w2 = Some (RegularFile, JsonText j)" using rename_ok 2 t1 by auto
      moreover have "secure_state_file_if_exists p w2 = (r, v)"
        using 1 2 \<open>r1 = Inr u\<close> Inr assms(1)
        by (auto simp: write_and_replace_def bindE_def ctx_io_def mapErrE_def atomic_replace_def)
      ultimately show ?thesis using keepsD [OF secure_state_data] by metis
    qed
  qed
qed

text \<open>A path at which the service keeps a state file.\<close>

definition state_path :: "params \<Rightarrow> path \<Rightarrow> bool" where
  "state_path E p \<longleftrightarrow> p \<noteq> [] \<and> p \<notin> layout_directories E"

lemma write_prefix_data:
  assumes "state_path E p"
  shows "keeps (file_data p) (ensure_persistent_state_layout E)"
    and "keeps (file_data p) (case path_parent p of None \<Rightarrow> okE () | Some q \<Rightarrow> ensure_private_service_directory q)"
    and "keeps (file_data p) (sibling_state_path p role)"
proof -
  show "keeps (file_data p) (ensure_persistent_state_layout E)"
    using assms by (simp add: state_path_def files)
  have "butlast p \<noteq> p" using assms by (metis state_path_def append_butlast_last_id not_Cons_self2 append_self_conv)
  then show "keeps (file_data p) (case path_parent p of None \<Rightarrow> okE () | Some q \<Rightarrow> ensure_private_service_directory q)"
    using assms by (cases p) (auto intro!: frame files simp: state_path_def)
  show "keeps (file_data p) (sibling_state_path p role)"
    by (rule keeps_sibling) (simp add: file_data_def)
qed

lemma write_json_atomic_data:
  assumes p: "state_path E p" and run: "write_json_atomic E p j w = (r, v)"
  shows "(file_data p v = file_data p w \<and> r \<noteq> Inr ()) \<or> file_data p v = Some (RegularFile, JsonText j)"
proof -
  let ?parent = "case path_parent p of None \<Rightarrow> okE () | Some q \<Rightarrow> ensure_private_service_directory q"
  note keep = write_prefix_data [OF p]
  obtain r1 w1 where 1: "ensure_persistent_state_layout E w = (r1, w1)" by (cases "ensure_persistent_state_layout E w")
  have d1: "file_data p w1 = file_data p w" using keepsD [OF keep(1) 1] .
  show ?thesis
  proof (cases r1)
    case (Inl e)
    with 1 run d1 show ?thesis by (auto simp: write_json_atomic_def bindE_def)
  next
    case r1: (Inr u1)
    obtain r2 w2 where 2: "?parent w1 = (r2, w2)" by (cases "?parent w1")
    have d2: "file_data p w2 = file_data p w" using keepsD [OF keep(2) 2] d1 by simp
    show ?thesis
    proof (cases r2)
      case (Inl e)
      with 1 2 r1 run d2 show ?thesis by (auto simp: write_json_atomic_def bindE_def)
    next
      case r2: (Inr u2)
      obtain t w3 where 3: "sibling_state_path p ''tmp'' w2 = (Inr t, w3)"
        using sibling_run [of p "''tmp''" w2] by auto
      have d3: "file_data p w3 = file_data p w" using keepsD [OF keep(3) 3] d2 by simp
      have t: "t \<noteq> p" using p sibling_differs [OF _ 3] by (simp add: state_path_def)
      obtain r4 w4 where 4: "write_and_replace t p j w3 = (r4, w4)" by (cases "write_and_replace t p j w3")
      note wr = write_and_replace_data [OF 4 t]
      show ?thesis
      proof (cases r4)
        case (Inr u)
        with 1 2 3 4 r1 r2 run wr d3 show ?thesis
          by (auto simp: write_json_atomic_def bindE_def tryE_eq okE_def)
      next
        case (Inl e)
        with 1 2 3 4 r1 r2 run have v: "v = snd (fs_remove_file t w4)" "r = Inl e"
          by (auto simp: write_json_atomic_def bindE_def tryE_eq failE_def)
        have "file_data p v = file_data p w4"
          unfolding v(1) using t by (intro keeps_snd files) auto
        with wr d3 v show ?thesis by auto
      qed
    qed
  qed
qed

text \<open>A write touches no other state file.\<close>

lemma write_json_atomic_other [files]:
  assumes "q \<notin> layout_directories E" "q \<noteq> butlast p" "q \<noteq> p"
    and sib: "\<And>name. q \<noteq> butlast p @ [last p @ ''.'' @ name]" and "p \<noteq> []"
  shows "keeps (file_data q) (write_json_atomic E p j)"
proof -
  have tail: "keeps (file_data q) (\<lambda>w. tryE (write_and_replace t p j) (\<lambda>r.
       (case r of Inr _ \<Rightarrow> okE () | Inl e \<Rightarrow> tryE (fs_remove_file t) (\<lambda>_. failE e))) w)"
    if "q \<noteq> t" for t
    unfolding write_and_replace_def using that assms(3)
    by (auto intro!: frame files split: sum.splits)
  have rest: "keeps (file_data q) (\<lambda>w. bindE (sibling_state_path p ''tmp'') (\<lambda>t.
     tryE (write_and_replace t p j) (\<lambda>r.
       (case r of Inr _ \<Rightarrow> okE () | Inl e \<Rightarrow> tryE (fs_remove_file t) (\<lambda>_. failE e)))) w)"
    unfolding keeps_def
  proof
    fix w
    obtain name where s: "sibling_state_path p ''tmp'' w = (Inr (butlast p @ [last p @ ''.'' @ name]),
       w\<lparr>tick := Suc (tick w), state_file_sequence := state_file_sequence w + 1\<rparr>)" (is "_ = (Inr ?t, ?w1)")
      using sibling_run [of p "''tmp''" w] assms(5) by auto
    have "file_data q (snd (tryE (write_and_replace ?t p j) (\<lambda>r.
       (case r of Inr _ \<Rightarrow> okE () | Inl e \<Rightarrow> tryE (fs_remove_file ?t) (\<lambda>_. failE e))) ?w1)) = file_data q ?w1"
      using tail [OF sib [of name]] by (simp add: keeps_def)
    moreover have "file_data q ?w1 = file_data q w" by (simp add: file_data_def)
    ultimately show "file_data q (snd (bindE (sibling_state_path p ''tmp'') (\<lambda>t.
     tryE (write_and_replace t p j) (\<lambda>r.
       (case r of Inr _ \<Rightarrow> okE () | Inl e \<Rightarrow> tryE (fs_remove_file t) (\<lambda>_. failE e)))) w)) = file_data q w"
      unfolding bindE_def s prod.case sum.case by (rule trans)
  qed
  have parent: "keeps (file_data q) (case path_parent p of None \<Rightarrow> okE () | Some d \<Rightarrow> ensure_private_service_directory d)"
    using assms(2) by (cases p) (auto intro!: frame files)
  show ?thesis
    unfolding write_json_atomic_def
    by (rule keeps_bindE [OF layout_data [OF assms(1)] keeps_bindE [OF parent rest]])
qed

section \<open>Codecs\<close>

text \<open>
  The contract between a stored type and its files: what was encoded decodes to itself. Under it, a
  file that was written is read back as the value that was written.
\<close>

definition stored :: "(json \<Rightarrow> 'a option) \<Rightarrow> path \<Rightarrow> world \<Rightarrow> 'a option" where
  "stored de p w =
     (case file_data p w of
        Some (RegularFile, c) \<Rightarrow> Option.bind (content_json c) de | _ \<Rightarrow> None)"

lemma stored_data: "file_data p v = file_data p w \<Longrightarrow> stored de p v = stored de p w"
  by (simp add: stored_def)

lemma keeps_stored [files]: "keeps (file_data p) m \<Longrightarrow> keeps (stored de p) m"
  by (simp add: keeps_def stored_def)

locale state_codec =
  fixes ser :: "'a \<Rightarrow> json" and de :: "json \<Rightarrow> 'a option"
  assumes de_ser: "de (ser x) = Some x"
begin

lemma ser_inj: "ser x = ser y \<Longrightarrow> x = y"
  by (metis de_ser option.inject)

lemma write_stored:
  assumes "state_path E p" "write_json_atomic E p (ser x) w = (r, v)"
  shows "(stored de p v = stored de p w \<and> file_data p v = file_data p w \<and> r \<noteq> Inr ()) \<or>
    stored de p v = Some x"
  using write_json_atomic_data [OF assms] by (auto simp: stored_def de_ser)

lemma read_stored:
  assumes "read_json_or_default de d p w = (Inr x, v)" "honest w"
  shows "stored de p w = Some x \<or> (fs w p = None \<and> x = d)"
proof -
  from assms(1) obtain w1 where 1: "secure_state_file_if_exists p w = (Inr (), w1)"
    and 2: "tryE (fs_read p) (\<lambda>r. (case r of
          Inr c \<Rightarrow> liftE (ok_or (Msg ''failed to parse state'') (Option.bind (content_json c) de))
        | Inl k \<Rightarrow> if k = NotFound then okE d else failE (Ctx ''failed to read state'' (Io k)))) w1 = (Inr x, v)"
    by (auto simp: read_json_or_default_def bindE_Inr)
  have h: "honest w1"
    using 1 assms(2) by (subst honest_env [of w1 w]) (auto intro: keepsD [OF blind_secure_state])
  have d: "file_data p w1 = file_data p w" using keepsD [OF secure_state_data 1] .
  obtain r w2 where r: "fs_read p w1 = (r, w2)" by (cases "fs_read p w1")
  show ?thesis
  proof (cases r)
    case (Inl k)
    with 2 r have "k = NotFound" "x = d" by (auto simp: tryE_eq failE_def okE_def split: if_splits)
    with fs_read_not_found [OF h] r Inl d show ?thesis by (metis file_data_None)
  next
    case (Inr c)
    with 2 r have "ok_or (Msg ''failed to parse state'') (Option.bind (content_json c) de) = Inr x"
      by (simp add: tryE_eq liftE_def)
    then have "Option.bind (content_json c) de = Some x" by (auto elim: ok_or.elims)
    moreover from fs_read_ok r Inr have "file_data p w1 = Some (RegularFile, c)"
      by (fastforce simp: file_data_def)
    ultimately show ?thesis using d by (simp add: stored_def)
  qed
qed

end

end
