(* ===== verification/Processes.thy ===== *)
theory Processes
  imports StateFiles
begin

text \<open>
  \<open>src/core/process.rs\<close>, \<open>src/core/runtime.rs\<close> and \<open>src/core/reconcile.rs\<close>: the identity of a
  process, its termination, the record of the running core, and the reconciliation at startup that
  stops a core an earlier service left behind. The signals the service sends are logged in the field
  \<open>signals\<close> with the number of the call.
\<close>

section \<open>The identity of a process\<close>

text \<open>
  The start time in \<open>/proc/<pid>/stat\<close>: the field after the last closing parenthesis is the state, the
  twentieth from there the start time. The text between the parentheses is chosen by the process.
\<close>

definition is_space :: "char \<Rightarrow> bool" where
  "is_space c \<longleftrightarrow> (of_char c :: nat) \<in> {9, 10, 11, 12, 13, 32}"

fun words_from :: "string \<Rightarrow> string \<Rightarrow> string list" where
  "words_from acc [] = (if acc = [] then [] else [rev acc])"
| "words_from acc (c # cs) =
     (if is_space c then (if acc = [] then words_from [] cs else rev acc # words_from [] cs)
      else words_from (c # acc) cs)"

definition split_whitespace :: "string \<Rightarrow> string list" where
  "split_whitespace s = words_from [] s"

definition linux_start_time :: "string \<Rightarrow> err + u64" where
  "linux_start_time stat =
     bindR (ok_or (Msg ''invalid /proc stat for process'') (rsplit_once (CHR '')'') stat)) (\<lambda>(_, rest).
     let fields = split_whitespace rest in
     bindR (if 19 < length fields then Inr (fields ! 19) else Inl (Msg ''missing start time for process'')) (\<lambda>f.
       ok_or (Msg ''invalid digit found in string'') (map_option of_nat (parse_unsigned 64 f))))"

definition saturating_mul :: "'a::len word \<Rightarrow> 'a word \<Rightarrow> 'a word" where
  "saturating_mul a b = (if unat a * unat b < 2 ^ LENGTH('a) then a * b else - 1)"

definition saturating_add :: "'a::len word \<Rightarrow> 'a word \<Rightarrow> 'a word" where
  "saturating_add a b = (if unat a + unat b < 2 ^ LENGTH('a) then a + b else - 1)"

definition identity_of_entry :: "params \<Rightarrow> process_entry \<Rightarrow> err + process_identity" where
  "identity_of_entry E e =
     (case os (bd E) of
        Linux \<Rightarrow>
          bindR (linux_start_time (pe_stat e)) (\<lambda>started.
            Inr \<lparr>pi_executable = pe_executable e, pi_started_at = started\<rparr>)
      | _ \<Rightarrow>
          Inr \<lparr>pi_executable = pe_executable e,
               pi_started_at = saturating_add (saturating_mul (pe_start_sec e) 1000000) (pe_start_usec e)\<rparr>)"

text \<open>
  \<open>is_process_alive\<close>: a process that exists, unless \<open>ps\<close> ran and says that it is a zombie.
\<close>

definition is_process_alive :: "u32 \<Rightarrow> bool act" where
  "is_process_alive pid w =
     (let t = tick w; w' = w\<lparr>tick := Suc (Suc t)\<rparr> in
      case ev_process (env w) t pid of
        None \<Rightarrow> (Inr False, w')
      | Some e \<Rightarrow> (Inr (\<not> (fault w (Suc t) = None \<and> pe_zombie e)), w'))"

definition inspect_process :: "u32 \<Rightarrow> process_entry io" where
  "inspect_process pid = syscall (\<lambda>w.
     (case ev_process (env w) (tick w) pid of None \<Rightarrow> (Inl NotFound, w) | Some e \<Rightarrow> (Inr e, w)))"

definition process_identity :: "params \<Rightarrow> u32 \<Rightarrow> process_identity option act" where
  "process_identity E pid =
     bindE (is_process_alive pid) (\<lambda>alive.
       if \<not> alive then okE None
       else bindE (io_act (inspect_process pid)) (\<lambda>e.
              liftE (map_err id (bindR (identity_of_entry E e) (\<lambda>i. Inr (Some i))))))"

text \<open>\<open>kill\<close>; a process that is gone already is no error.\<close>

definition send_signal :: "u32 \<Rightarrow> signal \<Rightarrow> unit io" where
  "send_signal pid sig = syscall (\<lambda>w.
     (case ev_process (env w) (tick w) pid of
        None \<Rightarrow> (Inr (), w)
      | Some e \<Rightarrow> (Inr (), w\<lparr>signals := signals w @ [(tick w, pid, sig)]\<rparr>)))"

text \<open>Ten looks, a tenth of a second apart: whether the process was seen gone.\<close>

fun wait_until_gone :: "nat \<Rightarrow> u32 \<Rightarrow> bool act" where
  "wait_until_gone 0 pid = okE False"
| "wait_until_gone (Suc n) pid =
     bindE (is_process_alive pid) (\<lambda>alive. if \<not> alive then okE True else wait_until_gone n pid)"

definition terminate_process :: "u32 \<Rightarrow> unit act" where
  "terminate_process pid =
     bindE (io_act (send_signal pid SIGTERM)) (\<lambda>_.
     bindE (wait_until_gone 10 pid) (\<lambda>gone.
       if gone then okE ()
       else
         bindE (io_act (send_signal pid SIGKILL)) (\<lambda>_.
         bindE (wait_until_gone 10 pid) (\<lambda>gone.
           if gone then okE () else failE (Msg ''process is still alive after SIGKILL'')))))"

section \<open>The record of the running core\<close>

record core_runtime_record =
  cr_pid :: u32
  cr_ipc_path :: string
  cr_identity :: process_identity

definition ser_process_identity :: "process_identity \<Rightarrow> json" where
  "ser_process_identity i =
     JObj [(''executable'', JStr (pi_executable i)), (''started_at'', ser_word (pi_started_at i))]"

definition de_process_identity :: "json \<Rightarrow> process_identity option" where
  "de_process_identity j =
     (case as_object j of None \<Rightarrow> None
      | Some ms \<Rightarrow>
          (case (required de_string ''executable'' ms, required de_word ''started_at'' ms) of
             (Some e, Some s) \<Rightarrow> Some \<lparr>pi_executable = e, pi_started_at = s\<rparr>
           | _ \<Rightarrow> None))"

definition ser_runtime_record :: "core_runtime_record \<Rightarrow> json" where
  "ser_runtime_record r = JObj
     [(''pid'', ser_word (cr_pid r)), (''ipc_path'', JStr (cr_ipc_path r)),
      (''identity'', ser_process_identity (cr_identity r))]"

definition de_runtime_record :: "json \<Rightarrow> core_runtime_record option" where
  "de_runtime_record j =
     (case as_object j of None \<Rightarrow> None
      | Some ms \<Rightarrow>
          (case (required de_word ''pid'' ms, required de_string ''ipc_path'' ms,
                 required de_process_identity ''identity'' ms) of
             (Some p, Some i, Some d) \<Rightarrow> Some \<lparr>cr_pid = p, cr_ipc_path = i, cr_identity = d\<rparr>
           | _ \<Rightarrow> None))"

definition write_core_runtime_record :: "params \<Rightarrow> core_runtime_record \<Rightarrow> unit act" where
  "write_core_runtime_record E r =
     (let destination = sp_core_runtime_path (paths_of E);
          temporary = butlast destination @ [SERVICE_SLUG (bd E) @ ''.core.json.tmp''] in
      bindE (ctx_io ''failed to create core runtime directory'' (fs_create_dir_all (butlast destination))) (\<lambda>_.
      bindE (ctx_io ''failed to create temporary core runtime record'' (fs_create temporary)) (\<lambda>_.
      bindE (io_act (fs_write_all temporary (JsonText (ser_runtime_record r)))) (\<lambda>_.
      bindE (io_act fs_sync) (\<lambda>_.
      bindE (io_act fs_sync) (\<lambda>_.
      bindE (ctx_io ''failed to replace core runtime record'' (atomic_replace temporary destination)) (\<lambda>_.
      bindE (io_act (open_directory (butlast destination))) (\<lambda>_.
        io_act fs_sync))))))))"

definition read_core_runtime_record :: "params \<Rightarrow> core_runtime_record option act" where
  "read_core_runtime_record E =
     tryE (fs_read (sp_core_runtime_path (paths_of E))) (\<lambda>r.
       (case r of
          Inr c \<Rightarrow> liftE (ok_or (Msg ''invalid core runtime record'')
                      (map_option Some (Option.bind (content_json c) de_runtime_record)))
        | Inl k \<Rightarrow> if k = NotFound then okE None
                  else failE (Ctx ''failed to read core runtime record'' (Io k))))"

definition remove_core_runtime_record :: "params \<Rightarrow> unit act" where
  "remove_core_runtime_record E =
     tryE (fs_remove_file (sp_core_runtime_path (paths_of E))) (\<lambda>_. okE ())"

definition is_core_socket_reachable :: "string \<Rightarrow> bool act" where
  "is_core_socket_reachable p w =
     (Inr (ev_reachable (env w) (tick w) p), w\<lparr>tick := Suc (tick w)\<rparr>)"

definition cleanup_core_socket :: "string \<Rightarrow> unit act" where
  "cleanup_core_socket p =
     bindE (fs_exists (abs_path p)) (\<lambda>there.
       if there then tryE (fs_remove_file (abs_path p)) (\<lambda>_. okE ()) else okE ())"

section \<open>Reconciliation at startup\<close>

definition set_startup_reconciled :: "bool \<Rightarrow> unit act" where
  "set_startup_reconciled b = modify (\<lambda>w. w\<lparr>startup_reconciled := b\<rparr>)"

definition ensure_startup_reconciled :: "unit act" where
  "ensure_startup_reconciled =
     bindE (get startup_reconciled) (\<lambda>b.
       liftE (ensure b (Msg ''core startup reconciliation has not completed'')))"

definition reconcile_service_startup :: "params \<Rightarrow> unit act" where
  "reconcile_service_startup E =
     bindE (set_startup_reconciled False) (\<lambda>_.
     bindE (read_core_runtime_record E) (\<lambda>found.
       (case found of
          None \<Rightarrow> set_startup_reconciled True
        | Some record \<Rightarrow>
            bindE (process_identity E (cr_pid record)) (\<lambda>current_identity.
            bindE (is_core_socket_reachable (cr_ipc_path record)) (\<lambda>socket_reachable.
              if current_identity = Some (cr_identity record) then
                bindE (terminate_process (cr_pid record)) (\<lambda>_.
                bindE (cleanup_core_socket (cr_ipc_path record)) (\<lambda>_.
                bindE (remove_core_runtime_record E) (\<lambda>_.
                  set_startup_reconciled True)))
              else
                bindE (if \<not> socket_reachable then cleanup_core_socket (cr_ipc_path record) else okE ()) (\<lambda>_.
                bindE (remove_core_runtime_record E) (\<lambda>_.
                  set_startup_reconciled True)))))))"

section \<open>Codec and frames\<close>

lemma de_ser_process_identity [serde_simps]: "de_process_identity (ser_process_identity i) = Some i"
  by (simp add: de_process_identity_def ser_process_identity_def serde_members)

lemma de_ser_runtime_record [serde_simps]: "de_runtime_record (ser_runtime_record r) = Some r"
  by (simp add: de_runtime_record_def ser_runtime_record_def serde_members serde_simps)

interpretation runtime_record_codec: state_codec ser_runtime_record de_runtime_record
  by unfold_locales (rule serde_simps)

text \<open>Looking at processes and sockets changes the clock only.\<close>

lemma keeps_looks [frame]:
  assumes t: "\<And>w n. f (w\<lparr>tick := n\<rparr>) = f w"
  shows "keeps f (is_process_alive pid)" "keeps f (process_identity E pid)"
    "keeps f (wait_until_gone n pid)" "keeps f (is_core_socket_reachable p)"
proof -
  show a: "keeps f (is_process_alive pid)" for pid :: u32
    by (auto simp: keeps_def is_process_alive_def Let_def t split: option.splits)
  have "keeps f (inspect_process pid)"
    unfolding inspect_process_def
    by (rule keeps_syscall) (auto simp: keeps_def t split: option.splits)
  with a show "keeps f (process_identity E pid)"
    unfolding process_identity_def by (intro frame)
  show "keeps f (wait_until_gone n pid)"
    by (induction n) (auto intro!: frame a)
  show "keeps f (is_core_socket_reachable p)"
    by (simp add: keeps_def is_core_socket_reachable_def t)
qed

lemma keeps_signal:
  assumes "\<And>w n s. f (w\<lparr>tick := n\<rparr>) = f w" "\<And>w s. f (w\<lparr>signals := s\<rparr>) = f w"
  shows "keeps f (send_signal pid sig)"
  unfolding send_signal_def
  by (rule keeps_syscall) (auto simp: keeps_def assms split: option.splits)

lemma keeps_terminate:
  assumes "\<And>w n s. f (w\<lparr>tick := n\<rparr>) = f w" "\<And>w s. f (w\<lparr>signals := s\<rparr>) = f w"
  shows "keeps f (terminate_process pid)"
  unfolding terminate_process_def
  by (intro frame keeps_signal assms)

lemma blind_runtime_ops [blind]:
  assumes f: "blind_to_files f"
  shows "keeps f (write_core_runtime_record E r)" "keeps f (read_core_runtime_record E)"
    "keeps f (remove_core_runtime_record E)" "keeps f (cleanup_core_socket p)"
  unfolding write_core_runtime_record_def Let_def read_core_runtime_record_def
    remove_core_runtime_record_def cleanup_core_socket_def
  by (intro frame blind f)+

section \<open>What a signal is sent to\<close>

lemma signal_run: "send_signal pid sig w = (r, v) \<Longrightarrow>
    signals v = signals w \<or> signals v = signals w @ [(Suc (tick w), pid, sig)]"
  by (auto simp: send_signal_def syscall_def Let_def split: option.splits)

text \<open>Every signal since the world \<open>w\<close> went to one process.\<close>

definition signals_only :: "u32 \<Rightarrow> world \<Rightarrow> world \<Rightarrow> bool" where
  "signals_only pid w v \<longleftrightarrow> (\<exists>ss. signals v = signals w @ ss \<and> list_all (\<lambda>(t, p, s). p = pid) ss)"

lemma signals_only_same: "signals v = signals w \<Longrightarrow> signals_only pid w v"
  by (simp add: signals_only_def)

lemma signals_only_kept: "keeps signals m \<Longrightarrow> preserves (signals_only pid w) m"
  by (simp add: keeps_def preserves_def signals_only_def)

lemma signals_only_send: "preserves (signals_only pid w) (send_signal pid sig)"
  unfolding preserves_def
proof (intro allI impI)
  fix s assume "signals_only pid w s"
  then obtain ss where ss: "signals s = signals w @ ss" "list_all (\<lambda>(t, p, s). p = pid) ss"
    by (auto simp: signals_only_def)
  obtain r v where run: "send_signal pid sig s = (r, v)" by (cases "send_signal pid sig s")
  from signal_run [OF run] show "signals_only pid w (snd (send_signal pid sig s))"
  proof
    assume "signals v = signals s"
    with ss run show ?thesis by (auto simp: signals_only_def)
  next
    assume "signals v = signals s @ [(Suc (tick s), pid, sig)]"
    with ss run show ?thesis
      unfolding signals_only_def by (intro exI [of _ "ss @ [(Suc (tick s), pid, sig)]"]) simp
  qed
qed

lemma terminate_signals: "preserves (signals_only pid w) (terminate_process pid)"
proof -
  have gone: "preserves (signals_only pid w) (wait_until_gone 10 pid)"
    by (rule signals_only_kept) (rule keeps_looks, simp)
  show ?thesis
    unfolding terminate_process_def io_act_def
    by (intro preserves_rules preserves_bindE preserves_mapErrE preserves_okE preserves_failE gone signals_only_send)
qed

lemma gone_run: "wait_until_gone n pid w = (Inr True, v) \<Longrightarrow> \<exists>u.  is_process_alive pid u = (Inr False, v)"
proof (induction n arbitrary: w)
  case (Suc n)
  then show ?case by (auto simp: bindE_Inr split: if_splits)
qed simp

lemma terminate_ok: "terminate_process pid w = (Inr u, v) \<Longrightarrow> \<exists>x. is_process_alive pid x = (Inr False, v)"
  by (auto simp: terminate_process_def bindE_Inr dest: gone_run split: if_splits)

lemma cleanups_ok: "\<exists>v. cleanup_core_socket p w = (Inr (), v)" "\<exists>v. remove_core_runtime_record E w = (Inr (), v)"
  by (auto simp: cleanup_core_socket_def remove_core_runtime_record_def fs_exists_def bindE_def tryE_eq okE_def)

lemma read_record_stored:
  assumes "read_core_runtime_record E w = (Inr (Some r), v)"
  shows "stored de_runtime_record (sp_core_runtime_path (paths_of E)) w = Some r"
proof -
  obtain x u where 1: "fs_read (sp_core_runtime_path (paths_of E)) w = (x, u)"
    by (cases "fs_read (sp_core_runtime_path (paths_of E)) w")
  with assms obtain c where c: "x = Inr c" "Option.bind (content_json c) de_runtime_record = Some r"
    by (auto simp: read_core_runtime_record_def tryE_eq liftE_def okE_def failE_def
        split: sum.splits if_splits elim!: ok_or.elims)
  from fs_read_ok [OF 1 [unfolded c(1)]] c(2) show ?thesis
    by (auto simp: stored_def file_data_def)
qed

text \<open>The tail of a reconciliation that has decided: it cannot fail.\<close>

definition close_record :: "params \<Rightarrow> core_runtime_record \<Rightarrow> bool \<Rightarrow> unit act" where
  "close_record E record clean =
     bindE (if clean then cleanup_core_socket (cr_ipc_path record) else okE ()) (\<lambda>_.
     bindE (remove_core_runtime_record E) (\<lambda>_. set_startup_reconciled True))"

lemma close_record_run:
  "\<exists>v. close_record E record clean w = (Inr (), v) \<and> startup_reconciled v \<and> signals v = signals w"
proof -
  obtain w1 where 1: "(if clean then cleanup_core_socket (cr_ipc_path record) else okE ()) w = (Inr (), w1)"
    using cleanups_ok(1) by (cases clean) (auto simp: okE_def)
  obtain w2 where 2: "remove_core_runtime_record E w1 = (Inr (), w2)" using cleanups_ok(2) by blast
  have "signals w1 = signals w"
    using 1 keepsD [OF blind_runtime_ops(4) [OF blind_fields(2)]] by (cases clean) (auto simp: okE_def)
  moreover have "signals w2 = signals w1"
    using keepsD [OF blind_runtime_ops(3) [OF blind_fields(2)] 2] .
  ultimately show ?thesis
    using 1 2 by (simp add: close_record_def bindE_def set_startup_reconciled_def modify_def)
qed



section \<open>The start time of a process\<close>

lemma words_plain: "list_all (\<lambda>c. \<not> is_space c) p \<Longrightarrow> words_from acc (p @ rest) = words_from (rev p @ acc) rest"
  by (induction p arbitrary: acc) auto

lemma words_join:
  "list_all (\<lambda>f. f \<noteq> [] \<and> list_all (\<lambda>c. \<not> is_space c) f) xs \<Longrightarrow> split_whitespace (join_with '' '' xs) = xs"
proof (induction xs)
  case Nil
  show ?case by (simp add: split_whitespace_def)
next
  case (Cons f xs)
  have sp: "is_space (CHR '' '')" by (simp add: is_space_def)
  show ?case
  proof (cases xs)
    case Nil
    with Cons words_plain [of f "[]" "[]"] show ?thesis by (simp add: split_whitespace_def)
  next
    case (Cons g gs)
    with Cons.IH Cons.prems words_plain [of f "[]" "'' '' @ join_with '' '' xs"] sp show ?thesis
      by (simp add: split_whitespace_def)
  qed
qed

text \<open>
  No process can forge its start time through its name. Whatever the name between the parentheses
  of a \<open>stat\<close> line is (blanks, parentheses and digits included), the start time is the twentieth of the
  fields that follow it.
\<close>

lemma linux_start_time_robust:
  assumes "list_all (\<lambda>f. f \<noteq> [] \<and> list_all (\<lambda>c. \<not> is_space c) f \<and> CHR '')'' \<notin> set f) xs"
    and "19 < length xs" and "xs ! 19 = show_nat (unat start)"
  shows "linux_start_time (pid @ '' ('' @ comm @ '') '' @ join_with '' '' xs) = Inr start"
proof -
  have nop: "CHR '')'' \<notin> set (join_with '' '' xs)"
    using assms(1) by (induction "'' ''" xs rule: join_with.induct) auto
  have "pid @ '' ('' @ comm @ '') '' @ join_with '' '' xs = (pid @ '' ('' @ comm) @ CHR '')'' # ('' '' @ join_with '' '' xs)"
    by simp
  then have r: "rsplit_once (CHR '')'') (pid @ '' ('' @ comm @ '') '' @ join_with '' '' xs) =
      Some (pid @ '' ('' @ comm, '' '' @ join_with '' '' xs)"
    unfolding rsplit_once_Some using nop by simp
  have "split_whitespace ('' '' @ join_with '' '' xs) = split_whitespace (join_with '' '' xs)"
    by (simp add: split_whitespace_def is_space_def)
  also have "\<dots> = xs"
    using assms(1) by (intro words_join) (simp add: list_all_iff)
  finally have f: "split_whitespace ('' '' @ join_with '' '' xs) = xs" .
  have "unat start < 2 ^ 64" using unsigned_less [of start, where 'a = nat] by simp
  then have "parse_unsigned 64 (show_nat (unat start)) = Some (unat start)" by (rule parse_show_nat)
  with assms(2,3) show ?thesis
    unfolding linux_start_time_def r by (simp add: f [simplified] Let_def)
qed

end
