(* ===== verification/Desired.thy ===== *)
theory Desired
  imports StateFiles Auth
begin

text \<open>
  \<open>src/core/desired.rs\<close>: what the service remembers across restarts. Every owner has a desired
  state (a recovery hint, best effort); one record names the active owner with the hash of its
  session token and the generation of the session; one file counts the generations. The lock
  \<open>DESIRED_STATE_LOCK\<close> makes each update below one step of the service.
\<close>

section \<open>The persisted records\<close>

record desired_state =
  ds_core_should_be_running :: bool
  ds_last_clash_config :: "clash_config option"
  ds_last_writer_config :: "writer_config option"
  ds_generation :: u64
  ds_updated_at :: u64

definition default_desired_state :: desired_state where
  "default_desired_state =
     \<lparr>ds_core_should_be_running = False, ds_last_clash_config = None, ds_last_writer_config = None,
      ds_generation = 0, ds_updated_at = 0\<rparr>"

record active_owner_state =
  ao_owner_key :: string
  ao_identity :: owner_identity
  ao_app_data_root :: string
  ao_generation :: u64
  ao_session_token_hash :: string

record owner_generation_state =
  og_generation :: u64

definition ser_desired :: "desired_state \<Rightarrow> json" where
  "ser_desired s = JObj
     [(''core_should_be_running'', JBool (ds_core_should_be_running s)),
      (''last_clash_config'', ser_option ser_clash (ds_last_clash_config s)),
      (''last_writer_config'', ser_option ser_writer (ds_last_writer_config s)),
      (''generation'', ser_word (ds_generation s)),
      (''updated_at'', ser_word (ds_updated_at s))]"

definition de_desired :: "json \<Rightarrow> desired_state option" where
  "de_desired j =
     (case as_object j of None \<Rightarrow> None
      | Some ms \<Rightarrow>
          (case (required de_bool ''core_should_be_running'' ms, optional de_clash ''last_clash_config'' ms,
                 optional de_writer ''last_writer_config'' ms, required de_word ''generation'' ms,
                 required de_word ''updated_at'' ms) of
             (Some r, Some c, Some l, Some g, Some u) \<Rightarrow>
               Some \<lparr>ds_core_should_be_running = r, ds_last_clash_config = c, ds_last_writer_config = l,
                     ds_generation = g, ds_updated_at = u\<rparr>
           | _ \<Rightarrow> None))"

definition ser_active :: "active_owner_state \<Rightarrow> json" where
  "ser_active a = JObj
     [(''owner_key'', JStr (ao_owner_key a)), (''identity'', ser_identity (ao_identity a)),
      (''app_data_root'', JStr (ao_app_data_root a)), (''generation'', ser_word (ao_generation a)),
      (''session_token_hash'', JStr (ao_session_token_hash a))]"

definition de_active :: "json \<Rightarrow> active_owner_state option" where
  "de_active j =
     (case as_object j of None \<Rightarrow> None
      | Some ms \<Rightarrow>
          (case (required de_string ''owner_key'' ms, required de_identity ''identity'' ms,
                 required de_string ''app_data_root'' ms, defaulted 0 de_word ''generation'' ms,
                 defaulted [] de_string ''session_token_hash'' ms) of
             (Some k, Some i, Some r, Some g, Some h) \<Rightarrow>
               Some \<lparr>ao_owner_key = k, ao_identity = i, ao_app_data_root = r, ao_generation = g,
                     ao_session_token_hash = h\<rparr>
           | _ \<Rightarrow> None))"

definition ser_generation :: "owner_generation_state \<Rightarrow> json" where
  "ser_generation g = JObj [(''generation'', ser_word (og_generation g))]"

definition de_generation :: "json \<Rightarrow> owner_generation_state option" where
  "de_generation j =
     (case as_object j of None \<Rightarrow> None
      | Some ms \<Rightarrow> map_option (\<lambda>g. \<lparr>og_generation = g\<rparr>) (required de_word ''generation'' ms))"

section \<open>The active owner\<close>

definition load_active_owner :: "params \<Rightarrow> active_owner_state option act" where
  "load_active_owner E =
     (let p = active_owner_path (paths_of E) in
      bindE (secure_state_file_if_exists p) (\<lambda>_.
      tryE (fs_read p) (\<lambda>r.
        (case r of
           Inr c \<Rightarrow> liftE (ok_or (Msg ''failed to parse active owner'')
                       (map_option Some (Option.bind (content_json c) de_active)))
         | Inl k \<Rightarrow>
             if k = NotFound then okE None else failE (Ctx ''failed to read active owner'' (Io k))))))"

definition commit_active_owner_session ::
  "params \<Rightarrow> authenticated_owner \<Rightarrow> string \<Rightarrow> active_owner_state act" where
  "commit_active_owner_session E owner session_token =
     bindE (liftE (hash_session_token (sha256 E) session_token)) (\<lambda>session_token_hash.
     let paths = paths_of E in
     bindE (read_json_or_default de_generation \<lparr>og_generation = 0\<rparr> (owner_generation_path paths)) (\<lambda>generation_state.
     let generation = saturating_inc (og_generation generation_state) in
     bindE (write_json_atomic E (owner_generation_path paths) (ser_generation \<lparr>og_generation = generation\<rparr>)) (\<lambda>_.
     let state = \<lparr>ao_owner_key = au_key owner, ao_identity = au_identity owner,
                  ao_app_data_root = path_text (au_app_data_root owner),
                  ao_generation = generation, ao_session_token_hash = session_token_hash\<rparr> in
     bindE (write_json_atomic E (active_owner_path paths) (ser_active state)) (\<lambda>_. okE state))))"

definition clear_active_owner :: "params \<Rightarrow> unit act" where
  "clear_active_owner E =
     tryE (fs_remove_file (active_owner_path (paths_of E))) (\<lambda>r.
       (case r of
          Inr _ \<Rightarrow> okE ()
        | Inl k \<Rightarrow> if k = NotFound then okE () else failE (Ctx ''failed to remove active owner'' (Io k))))"

section \<open>Desired state\<close>

definition quarantine_corrupt_owner_desired_state :: "path \<Rightarrow> path act" where
  "quarantine_corrupt_owner_desired_state p =
     bindE (sibling_state_path p ''corrupt'') (\<lambda>backup.
     bindE (ctx_io ''failed to quarantine corrupt state'' (fs_rename p backup)) (\<lambda>_. okE backup))"

text \<open>Never fails: whatever cannot be read is the default state.\<close>

definition read_owner_desired_state_resilient :: "path \<Rightarrow> desired_state act" where
  "read_owner_desired_state_resilient p =
     tryE (secure_state_file_if_exists p) (\<lambda>secured.
       (case secured of
          Inl _ \<Rightarrow> okE default_desired_state
        | Inr _ \<Rightarrow>
            tryE (fs_read p) (\<lambda>r.
              (case r of
                 Inl k \<Rightarrow> okE default_desired_state
               | Inr c \<Rightarrow>
                   (case Option.bind (content_json c) de_desired of
                      Some state \<Rightarrow> okE state
                    | None \<Rightarrow>
                        tryE (quarantine_corrupt_owner_desired_state p) (\<lambda>_. okE default_desired_state))))))"

definition desired_path :: "params \<Rightarrow> string \<Rightarrow> path" where
  "desired_path E key = owner_desired_state_path (for_owner_key (paths_of E) key)"

definition load_owner_desired_state :: "params \<Rightarrow> string \<Rightarrow> desired_state act" where
  "load_owner_desired_state E key = read_owner_desired_state_resilient (desired_path E key)"

definition update_owner_desired_state ::
  "params \<Rightarrow> string \<Rightarrow> (desired_state \<Rightarrow> desired_state) \<Rightarrow> desired_state act" where
  "update_owner_desired_state E key update =
     (let p = desired_path E key in
      bindE (read_owner_desired_state_resilient p) (\<lambda>loaded.
      bindE read_clock (\<lambda>now_secs.
      let updated = update loaded;
          state = updated\<lparr>ds_generation := saturating_inc (ds_generation updated), ds_updated_at := now_secs\<rparr> in
      tryE (write_json_atomic E p (ser_desired state)) (\<lambda>_. okE state))))"

definition persist_owner_core_started :: "params \<Rightarrow> authenticated_owner \<Rightarrow> clash_config \<Rightarrow> desired_state act" where
  "persist_owner_core_started E owner config =
     update_owner_desired_state E (au_key owner) (\<lambda>state.
       state\<lparr>ds_core_should_be_running := True,
             ds_last_clash_config := Some config,
             ds_last_writer_config := Some (clash_log config)\<rparr>)"

definition persist_owner_core_stopped_by_key :: "params \<Rightarrow> string \<Rightarrow> desired_state act" where
  "persist_owner_core_stopped_by_key E key =
     update_owner_desired_state E key (\<lambda>state. state\<lparr>ds_core_should_be_running := False\<rparr>)"

definition persist_owner_core_stopped :: "params \<Rightarrow> authenticated_owner \<Rightarrow> desired_state act" where
  "persist_owner_core_stopped E owner = persist_owner_core_stopped_by_key E (au_key owner)"

definition persist_owner_writer_config :: "params \<Rightarrow> authenticated_owner \<Rightarrow> writer_config \<Rightarrow> desired_state act" where
  "persist_owner_writer_config E owner config =
     update_owner_desired_state E (au_key owner) (\<lambda>state.
       state\<lparr>ds_last_writer_config := Some config,
             ds_last_clash_config := map_option (\<lambda>c. c\<lparr>clash_log := config\<rparr>) (ds_last_clash_config state)\<rparr>)"

section \<open>Legacy files\<close>

definition with_extension :: "path \<Rightarrow> string \<Rightarrow> path" where
  "with_extension p ext =
     (if p = [] then []
      else butlast p @ [(case rsplit_once (CHR ''.'') (last p) of
             Some (stem, _) \<Rightarrow> if stem = '''' then last p else stem
           | None \<Rightarrow> last p) @ ''.'' @ ext])"

definition backup_legacy_state_file :: "path \<Rightarrow> path option act" where
  "backup_legacy_state_file p =
     tryE (fs_try_exists p) (\<lambda>r.
       (case r of
          Inl k \<Rightarrow> failE (Ctx ''failed to inspect legacy state'' (Io k))
        | Inr False \<Rightarrow> okE None
        | Inr True \<Rightarrow>
            (let backup = with_extension p ''json.legacy.bak'' in
             bindE (ctx_io ''failed to back up legacy state'' (fs_rename p backup)) (\<lambda>_. okE (Some backup)))))"

definition legacy_desired_states :: "params \<Rightarrow> path list" where
  "legacy_desired_states E =
     sp_desired_state_path (paths_of E) #
     (if os (bd E) = MacOS then
        [[''var'', ''lib'', ''clash-verge-service'', ''desired-state.json''],
         [''var'', ''root'', ''.local'', ''state'', ''clash-verge-service'', ''desired-state.json'']]
      else [])"

definition backup_legacy_desired_states :: "params \<Rightarrow> (world, 'e, unit) op" where
  "backup_legacy_desired_states E =
     eachE (\<lambda>p. tryE (backup_legacy_state_file p) (\<lambda>_. okE ())) (legacy_desired_states E)"

section \<open>Codecs\<close>

lemma de_ser_desired [serde_simps]: "de_desired (ser_desired s) = Some s"
  by (simp add: de_desired_def ser_desired_def serde_members serde_simps de_option_ser_option)

lemma de_ser_active [serde_simps]: "de_active (ser_active a) = Some a"
  by (simp add: de_active_def ser_active_def serde_members serde_simps)

lemma de_ser_generation [serde_simps]: "de_generation (ser_generation g) = Some g"
  by (simp add: de_generation_def ser_generation_def serde_members)

interpretation desired_codec: state_codec ser_desired de_desired
  by unfold_locales (rule serde_simps)

interpretation active_codec: state_codec ser_active de_active
  by unfold_locales (rule serde_simps)

interpretation generation_codec: state_codec ser_generation de_generation
  by unfold_locales (rule serde_simps)



section \<open>Paths of the state files\<close>

lemma state_paths [simp]:
  "state_path E (active_owner_path (paths_of E))"
  "state_path E (owner_generation_path (paths_of E))"
  "state_path E (desired_path E key)"
  by (simp_all add: state_path_def layout_directories_def active_owner_path_def owner_generation_path_def
      desired_path_def owner_desired_state_path_def for_owner_key_def install_dir_def)

text \<open>The three kinds of state files are written independently of each other.\<close>

lemma writes_elsewhere [files]:
  "keeps (file_data (active_owner_path (paths_of E))) (write_json_atomic E (owner_generation_path (paths_of E)) j)"
  "keeps (file_data (owner_generation_path (paths_of E))) (write_json_atomic E (active_owner_path (paths_of E)) j)"
  "keeps (file_data (active_owner_path (paths_of E))) (write_json_atomic E (desired_path E key) j)"
  "keeps (file_data (owner_generation_path (paths_of E))) (write_json_atomic E (desired_path E key) j)"
  "key' \<noteq> key \<Longrightarrow> keeps (file_data (desired_path E key')) (write_json_atomic E (desired_path E key) j)"
  by (rule write_json_atomic_other;
      simp add: layout_directories_def active_owner_path_def owner_generation_path_def
      desired_path_def owner_desired_state_path_def for_owner_key_def install_dir_def butlast_append)+

lemma read_state_data [files]: "keeps (file_data q) (read_json_or_default de d p)"
  unfolding read_json_or_default_def by (intro frame files)

lemma read_resilient_other:
  assumes "p \<noteq> []" "q \<noteq> p" "\<And>name. q \<noteq> butlast p @ [last p @ ''.'' @ name]"
  shows "keeps (file_data q) (read_owner_desired_state_resilient p)"
proof -
  have quarantine: "keeps (file_data q) (quarantine_corrupt_owner_desired_state p)"
    unfolding keeps_def
  proof
    fix w
    obtain name where s: "sibling_state_path p ''corrupt'' w = (Inr (butlast p @ [last p @ ''.'' @ name]),
       w\<lparr>tick := Suc (tick w), state_file_sequence := state_file_sequence w + 1\<rparr>)" (is "_ = (Inr ?t, ?w1)")
      using sibling_run [of p "''corrupt''" w] assms(1) by auto
    have "keeps (file_data q) (bindE (ctx_io ''failed to quarantine corrupt state'' (fs_rename p ?t)) (\<lambda>_. okE ?t))"
      using assms(2) assms(3) [of name] by (intro frame files)
    then have "file_data q (snd (bindE (ctx_io ''failed to quarantine corrupt state'' (fs_rename p ?t))
        (\<lambda>_. okE ?t) ?w1)) = file_data q ?w1" by (rule keeps_snd)
    moreover have "file_data q ?w1 = file_data q w" by (simp add: file_data_def)
    ultimately show "file_data q (snd (quarantine_corrupt_owner_desired_state p w)) = file_data q w"
      unfolding quarantine_corrupt_owner_desired_state_def bindE_def [of "sibling_state_path p ''corrupt''"]
        s prod.case sum.case by (rule trans)
  qed
  show ?thesis
    unfolding read_owner_desired_state_resilient_def
    by (intro frame files quarantine)
qed

lemma read_resilient_elsewhere [files]:
  "keeps (file_data (active_owner_path (paths_of E))) (read_owner_desired_state_resilient (desired_path E key))"
  "keeps (file_data (owner_generation_path (paths_of E))) (read_owner_desired_state_resilient (desired_path E key))"
  "key' \<noteq> key \<Longrightarrow> keeps (file_data (desired_path E key')) (read_owner_desired_state_resilient (desired_path E key))"
  by (rule read_resilient_other;
      simp add: active_owner_path_def owner_generation_path_def
      desired_path_def owner_desired_state_path_def for_owner_key_def butlast_append)+

lemma keeps_clock_data [files]: "keeps (file_data p) read_clock"
  by (rule keeps_read_clock) (simp add: file_data_def)

lemma update_elsewhere [files]:
  "keeps (file_data (active_owner_path (paths_of E))) (update_owner_desired_state E key f)"
  "keeps (file_data (owner_generation_path (paths_of E))) (update_owner_desired_state E key f)"
  "key' \<noteq> key \<Longrightarrow> keeps (file_data (desired_path E key')) (update_owner_desired_state E key f)"
  unfolding update_owner_desired_state_def Let_def
  by (intro frame files, assumption?)+

lemma blind_desired_ops [blind]:
  assumes "blind_to_state_files f"
  shows "keeps f (load_active_owner E)" "keeps f (commit_active_owner_session E owner token)"
    "keeps f (clear_active_owner E)" "keeps f (load_owner_desired_state E key)"
    "keeps f (update_owner_desired_state E key g)"
  unfolding load_active_owner_def commit_active_owner_session_def clear_active_owner_def
    load_owner_desired_state_def update_owner_desired_state_def read_owner_desired_state_resilient_def
    quarantine_corrupt_owner_desired_state_def read_clock_def
  by (intro frame blind assms blind_state_is_file [OF assms] keeps_read_clock [unfolded read_clock_def]
      blind_tick [OF blind_state_is_file [OF assms]])+

section \<open>Sessions\<close>

definition stored_active :: "params \<Rightarrow> world \<Rightarrow> active_owner_state option" where
  "stored_active E w = stored de_active (active_owner_path (paths_of E)) w"

definition stored_generation :: "params \<Rightarrow> world \<Rightarrow> u64" where
  "stored_generation E w =
     (case stored de_generation (owner_generation_path (paths_of E)) w of Some g \<Rightarrow> og_generation g | None \<Rightarrow> 0)"

lemma stored_views:
  "file_data (active_owner_path (paths_of E)) v = file_data (active_owner_path (paths_of E)) w \<Longrightarrow>
   stored_active E v = stored_active E w"
  "file_data (owner_generation_path (paths_of E)) v = file_data (owner_generation_path (paths_of E)) w \<Longrightarrow>
   stored_generation E v = stored_generation E w"
  by (simp_all add: stored_active_def stored_generation_def stored_def)

lemma stored_absent: "fs w p = None \<Longrightarrow> stored de p w = None"
  by (simp add: stored_def file_data_def)

lemma read_generation:
  assumes "read_json_or_default de_generation \<lparr>og_generation = 0\<rparr> (owner_generation_path (paths_of E)) w = (Inr g, v)"
    and "honest w"
  shows "og_generation g = stored_generation E w"
  using generation_codec.read_stored [OF assms] stored_absent [of w "owner_generation_path (paths_of E)" de_generation]
  by (auto simp: stored_generation_def)

lemma session_commit_outcome:
  assumes "honest w" and "commit_active_owner_session E owner token w = (r, v)"
  shows "(stored_generation E v = stored_generation E w \<or>
          stored_generation E v = saturating_inc (stored_generation E w)) \<and>
    (case r of
       Inr a \<Rightarrow> stored_active E v = Some a \<and> stored_generation E v = ao_generation a \<and>
         ao_generation a = saturating_inc (stored_generation E w) \<and> ao_owner_key a = au_key owner \<and>
         hash_session_token (sha256 E) token = Inr (ao_session_token_hash a)
     | Inl e \<Rightarrow> stored_active E v = stored_active E w \<or>
         (\<exists>a. stored_active E v = Some a \<and> stored_generation E v = ao_generation a \<and>
            ao_generation a = saturating_inc (stored_generation E w) \<and> ao_owner_key a = au_key owner \<and>
            hash_session_token (sha256 E) token = Inr (ao_session_token_hash a)))"
proof (cases "hash_session_token (sha256 E) token")
  case (Inl e)
  with assms(2) have "v = w" "r = Inl e"
    by (auto simp: commit_active_owner_session_def Let_def bindE_def liftE_def)
  then show ?thesis by simp
next
  case hash: (Inr h)
  let ?gen = "owner_generation_path (paths_of E)" and ?act = "active_owner_path (paths_of E)"
  let ?read = "read_json_or_default de_generation \<lparr>og_generation = 0\<rparr> ?gen"
  obtain r1 w1 where 1: "?read w = (r1, w1)" by (cases "?read w")
  have same1: "stored_generation E w1 = stored_generation E w" "stored_active E w1 = stored_active E w"
    using keepsD [OF read_state_data 1] by (auto intro: stored_views)
  show ?thesis
  proof (cases r1)
    case (Inl e)
    with assms(2) hash 1 have "v = w1" "r = Inl e"
      by (auto simp: commit_active_owner_session_def Let_def bindE_def liftE_def)
    with same1 show ?thesis by simp
  next
    case r1: (Inr g)
    have g: "og_generation g = stored_generation E w" using 1 r1 assms(1) read_generation by blast
    define n where "n = saturating_inc (stored_generation E w)"
    let ?wg = "write_json_atomic E ?gen (ser_generation \<lparr>og_generation = n\<rparr>)"
    obtain r2 w2 where 2: "?wg w1 = (r2, w2)" by (cases "?wg w1")
    have act2: "stored_active E w2 = stored_active E w"
      using keepsD [OF writes_elsewhere(1) 2] same1 by (metis stored_views(1))
    have gen2: "(stored_generation E w2 = stored_generation E w \<and> r2 \<noteq> Inr ()) \<or> stored_generation E w2 = n"
      using generation_codec.write_stored [OF state_paths(2) 2] same1 by (auto simp: stored_generation_def)
    show ?thesis
    proof (cases r2)
      case (Inl e)
      with assms(2) hash 1 r1 g 2 have "v = w2" "r = Inl e"
        by (auto simp: commit_active_owner_session_def Let_def bindE_def liftE_def n_def)
      with gen2 act2 show ?thesis by (auto simp: n_def)
    next
      case r2: (Inr u)
      define a where "a = \<lparr>ao_owner_key = au_key owner, ao_identity = au_identity owner,
                  ao_app_data_root = path_text (au_app_data_root owner),
                  ao_generation = n, ao_session_token_hash = h\<rparr>"
      let ?wa = "write_json_atomic E ?act (ser_active a)"
      obtain r3 w3 where 3: "?wa w2 = (r3, w3)" by (cases "?wa w2")
      have gen3: "stored_generation E w3 = n"
        using keepsD [OF writes_elsewhere(2) 3] gen2 r2 by (auto dest: stored_views(2))
      have act3: "(stored_active E w3 = stored_active E w \<and> r3 \<noteq> Inr ()) \<or> stored_active E w3 = Some a"
        using active_codec.write_stored [OF state_paths(1) 3] act2 by (auto simp: stored_active_def)
      have run: "v = w3" "r = (case r3 of Inl e \<Rightarrow> Inl e | Inr _ \<Rightarrow> Inr a)"
        using assms(2) hash 1 r1 g 2 r2 3
        by (auto simp: commit_active_owner_session_def Let_def bindE_def liftE_def n_def a_def okE_def split: sum.splits)
      show ?thesis
        using act3 gen3 hash unfolding run
        by (cases r3) (auto simp: n_def a_def)
    qed
  qed
qed

text \<open>
  Committing a session moves the generation forward. Whatever fails on the way, the stored
  generation is the old one or the next, and the active owner is the old record, or a new one
  that carries the next generation and the hash of the session token. A commit that succeeds
  has stored both, and a commit that fails leaves no record other than those two.
\<close>

lemma commit_session_advances:
  assumes "honest w" and "commit_active_owner_session E owner token w = (r, v)"
  shows "(stored_generation E v = stored_generation E w \<or>
          stored_generation E v = saturating_inc (stored_generation E w)) \<and>
    (case r of
       Inr a \<Rightarrow> stored_active E v = Some a \<and> stored_generation E v = ao_generation a \<and>
         ao_generation a = saturating_inc (stored_generation E w) \<and> ao_owner_key a = au_key owner \<and>
         hash_session_token (sha256 E) token = Inr (ao_session_token_hash a)
     | Inl e \<Rightarrow> stored_active E v = stored_active E w \<or>
         (\<exists>a. stored_active E v = Some a \<and> stored_generation E v = ao_generation a \<and>
            ao_generation a = saturating_inc (stored_generation E w) \<and> ao_owner_key a = au_key owner \<and>
            hash_session_token (sha256 E) token = Inr (ao_session_token_hash a)))"
  using assms by (rule session_commit_outcome)

text \<open>
  A step of the session files: one of the service's updates, or any other work of the service, which
  leaves both files and the environment as they are.
\<close>

inductive session_step :: "params \<Rightarrow> world \<Rightarrow> world \<Rightarrow> bool" for E where
  commit: "commit_active_owner_session E owner token w = (r, v) \<Longrightarrow> session_step E w v"
| clear: "clear_active_owner E w = (r, v) \<Longrightarrow> session_step E w v"
| update: "update_owner_desired_state E key f w = (r, v) \<Longrightarrow> session_step E w v"
| other: "stored_active E v = stored_active E w \<Longrightarrow> stored_generation E v = stored_generation E w \<Longrightarrow>
    env v = env w \<Longrightarrow> session_step E w v"

inductive_cases session_stepE: "session_step E w v"

lemma clear_run:
  assumes "clear_active_owner E w = (r, v)"
  shows "stored_active E v \<in> {None, stored_active E w}" "stored_generation E v = stored_generation E w"
proof -
  let ?p = "active_owner_path (paths_of E)"
  obtain r1 w1 where 1: "fs_remove_file ?p w = (r1, w1)" by (cases "fs_remove_file ?p w")
  have v: "v = w1" using assms 1
    by (auto simp: clear_active_owner_def tryE_eq okE_def failE_def split: sum.splits if_splits)
  have "owner_generation_path (paths_of E) \<noteq> ?p" by simp
  from keepsD [OF file_ops_data(1) [OF this] 1] show "stored_generation E v = stored_generation E w"
    unfolding v by (rule stored_views(2))
  have "file_data ?p w1 = None \<or> file_data ?p w1 = file_data ?p w"
    using 1 by (auto simp: fs_remove_file_def syscall_def Let_def file_data_def split: option.splits if_splits)
  moreover have "file_data ?p w1 = None \<Longrightarrow> stored_active E w1 = None"
    by (simp only: stored_active_def stored_def option.case)
  ultimately show "stored_active E v \<in> {None, stored_active E w}"
    unfolding v using stored_views(1) by blast
qed

lemma session_step_env: "session_step E w v \<Longrightarrow> env v = env w"
  by (erule session_stepE)
    (auto dest: keepsD [OF blind_desired_ops(2) [OF blind_state_files(1)]]
      keepsD [OF blind_desired_ops(3) [OF blind_state_files(1)]]
      keepsD [OF blind_desired_ops(5) [OF blind_state_files(1)]])

lemma session_step_honest: "session_step E w v \<Longrightarrow> honest w \<Longrightarrow> honest v"
  using honest_env session_step_env by blast

lemma session_step_advances:
  assumes "session_step E w v" "honest w"
  shows "stored_generation E w \<le> stored_generation E v \<and>
    (stored_active E v \<in> {None, stored_active E w} \<or>
     (\<exists>a. stored_active E v = Some a \<and> ao_generation a = saturating_inc (stored_generation E w)))"
  using assms(1)
proof (cases rule: session_step.cases)
  case (commit owner token r)
  from session_commit_outcome [OF assms(2) commit] show ?thesis
    by (auto split: sum.splits)
next
  case (clear r)
  from clear_run [OF clear] show ?thesis by auto
next
  case (update key f r)
  from keepsD [OF update_elsewhere(1) update] keepsD [OF update_elsewhere(2) update]
  show ?thesis using stored_views [of E v w] by simp
next
  case other
  then show ?thesis by simp
qed

lemma session_history:
  assumes "(session_step E)\<^sup>*\<^sup>* w v" and "honest w"
    and "stored_active E v = Some b" and "ao_generation b \<le> stored_generation E w"
    and "ao_generation b \<noteq> - 1"
  shows "stored_active E w = Some b"
proof -
  have "honest v \<and> stored_generation E w \<le> stored_generation E v \<and>
    (\<forall>b. stored_active E v = Some b \<and> ao_generation b \<le> stored_generation E w \<and> ao_generation b \<noteq> - 1 \<longrightarrow>
       stored_active E w = Some b)"
    using assms(1)
  proof (induction rule: rtranclp_induct)
    case base
    show ?case using assms(2) by simp
  next
    case (step x y)
    then have x: "honest x" "stored_generation E w \<le> stored_generation E x" by auto
    from session_step_advances [OF step.hyps(2) x(1)]
    have le: "stored_generation E x \<le> stored_generation E y"
      and cases: "stored_active E y \<in> {None, stored_active E x} \<or>
        (\<exists>a. stored_active E y = Some a \<and> ao_generation a = saturating_inc (stored_generation E x))" by auto
    have "stored_active E w = Some c"
      if c: "stored_active E y = Some c" "ao_generation c \<le> stored_generation E w" "ao_generation c \<noteq> - 1" for c
      using cases
    proof
      assume "stored_active E y \<in> {None, stored_active E x}"
      then have "stored_active E x = Some c" using c(1) by auto
      with c(2,3) step.IH show ?thesis by blast
    next
      assume "\<exists>a. stored_active E y = Some a \<and> ao_generation a = saturating_inc (stored_generation E x)"
      with c have g: "ao_generation c = saturating_inc (stored_generation E x)" by auto
      with c(3) have "stored_generation E x \<noteq> - 1" by (auto simp: saturating_inc_def)
      then have "stored_generation E x < ao_generation c" using g saturating_inc_less by metis
      with c(2) x(2) show ?thesis by simp
    qed
    with x le session_step_honest [OF step.hyps(2)] show ?case by auto
  qed
  with assms(3-5) show ?thesis by blast
qed

text \<open>
  A session that has been replaced or cleared never comes back. From any state of the service,
  whatever the service then does and whatever fails, an active owner record whose generation is no
  newer than the stored one is the record that was active already: every other record carries a
  strictly greater generation. (The generation counter stops at its largest value; a record with
  that generation is left out.)
\<close>

lemma session_never_revived:
  assumes "(session_step E)\<^sup>*\<^sup>* w v" and "honest w"
    and "stored_active E v = Some b" and "ao_generation b \<le> stored_generation E w"
    and "ao_generation b \<noteq> - 1"
  shows "stored_active E w = Some b"
  using assms by (rule session_history)

lemma read_resilient_run: "\<exists>s v. read_owner_desired_state_resilient p w = (Inr s, v)"
proof -
  obtain r w1 where 1: "secure_state_file_if_exists p w = (r, w1)" by (cases "secure_state_file_if_exists p w")
  obtain r2 w2 where 2: "fs_read p w1 = (r2, w2)" by (cases "fs_read p w1")
  show ?thesis
    using 1 2 by (auto simp: read_owner_desired_state_resilient_def tryE_eq okE_def split: sum.splits option.splits)
qed

lemma rename_then_state: "snd (bindE (ctx_io c (fs_rename p t)) (\<lambda>_. okE t) w) = snd (fs_rename p t w)"
  by (cases "fs_rename p t w"; cases "fst (fs_rename p t w)") (auto simp: bindE_def ctx_io_def mapErrE_def okE_def)

lemma quarantine_none:
  assumes "stored de_desired p w = None" "p \<noteq> []"
  shows "stored de_desired p (snd (quarantine_corrupt_owner_desired_state p w)) = None"
proof -
  obtain name where s: "sibling_state_path p ''corrupt'' w = (Inr (butlast p @ [last p @ ''.'' @ name]),
       w\<lparr>tick := Suc (tick w), state_file_sequence := state_file_sequence w + 1\<rparr>)" (is "_ = (Inr ?t, ?w1)")
    using sibling_run [of p "''corrupt''" w] assms(2) by auto
  have w1: "stored de_desired p ?w1 = None" using assms(1) by (simp add: stored_def file_data_def)
  have ne: "p \<noteq> ?t" using assms(2) sibling_differs [OF _ s] by simp
  obtain r w2 where 2: "fs_rename p ?t ?w1 = (r, w2)" by (cases "fs_rename p ?t ?w1")
  have fin: "snd (quarantine_corrupt_owner_desired_state p w) = w2"
    unfolding quarantine_corrupt_owner_desired_state_def bindE_def [of "sibling_state_path p ''corrupt''"]
      s prod.case sum.case rename_then_state 2 by simp
  show ?thesis
  proof (cases r)
    case (Inl k)
    from rename_err [OF 2 [unfolded Inl]] have "stored de_desired p w2 = stored de_desired p ?w1"
      by (simp only: stored_def file_data_def)
    with fin w1 show ?thesis by metis
  next
    case (Inr u)
    with rename_ok [OF 2 [unfolded Inr]] ne have "fs w2 p = None" by blast
    with fin show ?thesis by (simp add: stored_absent)
  qed
qed

lemma read_resilient_stored:
  assumes "p \<noteq> []" "read_owner_desired_state_resilient p w = (r, v)"
  shows "stored de_desired p v = stored de_desired p w"
proof -
  obtain r1 w1 where 1: "secure_state_file_if_exists p w = (r1, w1)" by (cases "secure_state_file_if_exists p w")
  have s1: "stored de_desired p w1 = stored de_desired p w"
    by (rule stored_data) (rule keepsD [OF secure_state_data 1])
  obtain r2 w2 where 2: "fs_read p w1 = (r2, w2)" by (cases "fs_read p w1")
  have s2: "stored de_desired p w2 = stored de_desired p w"
    unfolding s1 [symmetric] by (rule stored_data) (rule keepsD [OF security_ops_data(6) 2])
  show ?thesis
  proof (cases "\<exists>u c. r1 = Inr u \<and> r2 = Inr c \<and> Option.bind (content_json c) de_desired = None")
    case True
    then obtain u c where c: "r1 = Inr u" "r2 = Inr c" "Option.bind (content_json c) de_desired = None" by blast
    from fs_read_ok [OF 2 [unfolded c(2)]] have "file_data p w1 = Some (RegularFile, c)"
      by (auto simp: file_data_def)
    with c(3) have "stored de_desired p w1 = None" by (simp add: stored_def)
    with s1 s2 have "stored de_desired p w2 = None" "stored de_desired p w = None" by simp_all
    moreover have "v = snd (quarantine_corrupt_owner_desired_state p w2)"
      using assms(2) 1 2 c
      by (simp add: read_owner_desired_state_resilient_def tryE_eq okE_def)
    ultimately show ?thesis using quarantine_none [of p w2] assms(1) by simp
  next
    case False
    with assms(2) 1 2 have "v = w1 \<or> v = w2"
      by (auto simp: read_owner_desired_state_resilient_def tryE_eq okE_def split: sum.splits option.splits)
    with s1 s2 show ?thesis by auto
  qed
qed

text \<open>
  Recording an owner's desired state always succeeds, and one owner's record never touches
  another's: every other owner's file, the active owner and the generation counter are as before.
  The owner's own file holds the old state or the returned one, whose generation has moved on from
  the loaded state's.
\<close>

lemma update_desired_state_isolated:
  "\<exists>loaded s v. update_owner_desired_state E key f w = (Inr s, v) \<and>
     fst (load_owner_desired_state E key w) = Inr loaded \<and>
     ds_generation s = saturating_inc (ds_generation (f loaded)) \<and>
     ds_core_should_be_running s = ds_core_should_be_running (f loaded) \<and>
     ds_last_clash_config s = ds_last_clash_config (f loaded) \<and>
     stored de_desired (desired_path E key) v \<in> {stored de_desired (desired_path E key) w, Some s} \<and>
     (\<forall>key'. key' \<noteq> key \<longrightarrow> file_data (desired_path E key') v = file_data (desired_path E key') w) \<and>
     stored_active E v = stored_active E w \<and> stored_generation E v = stored_generation E w"
proof -
  let ?p = "desired_path E key"
  obtain loaded w1 where 1: "read_owner_desired_state_resilient ?p w = (Inr loaded, w1)"
    using read_resilient_run by blast
  define s where "s = (f loaded)\<lparr>ds_generation := saturating_inc (ds_generation (f loaded)),
     ds_updated_at := now w1 (tick w1)\<rparr>"
  let ?w2 = "w1\<lparr>tick := Suc (tick w1)\<rparr>"
  let ?wr = "write_json_atomic E ?p (ser_desired s)"
  obtain r3 w3 where 3: "?wr ?w2 = (r3, w3)" by (cases "?wr ?w2")
  have run: "update_owner_desired_state E key f w = (Inr s, w3)"
    using 1 3 by (simp add: update_owner_desired_state_def Let_def bindE_def read_clock_def tryE_eq okE_def s_def)
  have ne: "?p \<noteq> []" using state_paths(3) by (simp add: state_path_def)
  have "stored de_desired ?p ?w2 = stored de_desired ?p w"
    using read_resilient_stored [OF ne 1] by (simp add: stored_def file_data_def)
  with desired_codec.write_stored [OF state_paths(3) 3]
  have st: "stored de_desired ?p w3 \<in> {stored de_desired ?p w, Some s}" by auto
  have "fst (load_owner_desired_state E key w) = Inr loaded"
    using 1 by (simp add: load_owner_desired_state_def)
  moreover have "\<forall>key'. key' \<noteq> key \<longrightarrow> file_data (desired_path E key') w3 = file_data (desired_path E key') w"
    using keepsD [OF update_elsewhere(3) run] by blast
  moreover have "stored_active E w3 = stored_active E w" "stored_generation E w3 = stored_generation E w"
    using keepsD [OF update_elsewhere(1) run] keepsD [OF update_elsewhere(2) run] stored_views by blast+
  ultimately show ?thesis
    using run st by (intro exI [of _ loaded] exI [of _ s] exI [of _ w3]) (simp add: s_def)
qed

end
