(* ===== verification/Maintenance.thy ===== *)
theory Maintenance
  imports Desired
begin

text \<open>
  \<open>src/core/maintenance.rs\<close>: the removal of the state of owners whose account no longer exists, run
  while the service is stopped, and the record of an owner's identity beside its state. The model is
  that of a Unix build, where the directory name alone gives the identity.
\<close>

text \<open>\<open>flock\<close> without waiting: it fails while another process holds the lock.\<close>

definition try_lock :: "path \<Rightarrow> unit io" where
  "try_lock p = syscall (\<lambda>w. (Inr (), w))"

definition open_or_create :: "path \<Rightarrow> unit io" where
  "open_or_create p = syscall (\<lambda>w.
     (case fs w p of
        Some n \<Rightarrow> if nd_kind n = Directory then (Inl OtherIo, w) else (Inr (), w)
      | None \<Rightarrow>
          if \<not> is_dir (fs w) (butlast p) then (Inl NotFound, w)
          else (Inr (), set_node p (Some (new_file w (Bytes ''''))) w)))"

definition acquire_stopped_service_guard :: "params \<Rightarrow> unit act" where
  "acquire_stopped_service_guard E =
     (let paths = paths_of E in
      bindE (ensure_service_directory (sp_runtime_dir paths) 493) (\<lambda>_.
      bindE (io_act (open_or_create (sp_owner_lock_path paths))) (\<lambda>_.
        ctx_io ''service owner lock is held; stop the service before stale-owner maintenance''
          (try_lock (sp_owner_lock_path paths)))))"

definition read_active_owner :: "params \<Rightarrow> active_owner_state option act" where
  "read_active_owner E =
     tryE (fs_read (active_owner_path (paths_of E))) (\<lambda>r.
       (case r of
          Inr c \<Rightarrow> liftE (ok_or (Msg ''failed to parse active owner'')
                     (map_option Some (Option.bind (content_json c) de_active)))
        | Inl k \<Rightarrow> if k = NotFound then okE None else failE (Ctx ''failed to read active owner'' (Io k))))"

definition owner_identity_for_directory :: "params \<Rightarrow> string \<Rightarrow> owner_identity option" where
  "owner_identity_for_directory E key =
     (case parse_unsigned 32 key of
        None \<Rightarrow> None
      | Some uid \<Rightarrow>
          (let identity = UnixOwner (of_nat uid) 0 in
           if owner_key (sha256 E) identity \<noteq> key then None else Some identity))"

text \<open>A lookup in the user database, which may fail.\<close>

definition identity_exists :: "owner_identity \<Rightarrow> bool act" where
  "identity_exists identity =
     (case identity of
        UnixOwner uid gid \<Rightarrow> io_act (syscall (\<lambda>w. (Inr (ev_user_exists (env w) (tick w) uid), w)))
      | WindowsOwner sid \<Rightarrow> okE False)"

definition lstat :: "path \<Rightarrow> node io" where
  "lstat p = syscall (\<lambda>w. (case fs w p of None \<Rightarrow> (Inl NotFound, w) | Some n \<Rightarrow> (Inr n, w)))"

fun remove_stale_owners ::
  "params \<Rightarrow> path \<Rightarrow> active_owner_state option \<Rightarrow> string list \<Rightarrow> string list \<Rightarrow> string list act" where
  "remove_stale_owners E users_root active removed [] = okE removed"
| "remove_stale_owners E users_root active removed (key # keys) =
     bindE (io_act (lstat (users_root @ [key]))) (\<lambda>metadata.
       if nd_kind metadata = Symlink \<or> nd_kind metadata \<noteq> Directory
       then remove_stale_owners E users_root active removed keys
       else
         (case owner_identity_for_directory E key of
            None \<Rightarrow> remove_stale_owners E users_root active removed keys
          | Some identity \<Rightarrow>
              bindE (identity_exists identity) (\<lambda>exists.
                if exists then remove_stale_owners E users_root active removed keys
                else
                  bindE (if (case active of None \<Rightarrow> False | Some a \<Rightarrow> ao_owner_key a = key)
                         then tryE (fs_remove_file (active_owner_path (paths_of E))) (\<lambda>r.
                                (case r of
                                   Inr _ \<Rightarrow> okE ()
                                 | Inl k \<Rightarrow> if k = NotFound then okE ()
                                            else failE (Ctx ''failed to clear stale active owner'' (Io k))))
                         else okE ()) (\<lambda>_.
                  bindE (ctx_io ''failed to remove stale owner state'' (fs_remove_dir_all (users_root @ [key]))) (\<lambda>_.
                    remove_stale_owners E users_root active (removed @ [key]) keys)))))"

definition cleanup_stale_owner_state :: "params \<Rightarrow> string list act" where
  "cleanup_stale_owner_state E =
     bindE (acquire_stopped_service_guard E) (\<lambda>_.
     let users_root = sp_persistent_state_dir (paths_of E) @ [''users''] in
     tryE (fs_read_dir users_root) (\<lambda>entries.
       (case entries of
          Inl k \<Rightarrow> if k = NotFound then okE [] else failE (Ctx ''failed to enumerate users'' (Io k))
        | Inr keys \<Rightarrow>
            tryE (read_active_owner E) (\<lambda>r.
              remove_stale_owners E users_root (case r of Inr a \<Rightarrow> a | Inl _ \<Rightarrow> None) [] keys))))"

definition persist_owner_identity :: "owner_identity \<Rightarrow> path \<Rightarrow> unit act" where
  "persist_owner_identity identity owner_root =
     bindE (ctx_io ''failed to write owner identity'' (fs_create (owner_root @ [''owner.json.tmp'']))) (\<lambda>_.
     bindE (ctx_io ''failed to write owner identity''
              (fs_write_all (owner_root @ [''owner.json.tmp'']) (JsonText (ser_identity identity)))) (\<lambda>_.
       ctx_io ''failed to activate owner identity''
         (atomic_replace (owner_root @ [''owner.json.tmp'']) (owner_root @ [''owner.json'']))))"

section \<open>Whose state is removed\<close>

lemma identity_for_directory:
  "owner_identity_for_directory E key = Some i \<Longrightarrow> \<exists>uid. i = UnixOwner uid 0 \<and> key = show_nat (unat uid)"
  by (auto simp: owner_identity_for_directory_def Let_def split: option.splits if_splits)

text \<open>
  An account was missing when it was looked up: at some call of the run the user database answered,
  and it did not know the user.
\<close>

definition account_missing :: "world \<Rightarrow> u32 \<Rightarrow> bool" where
  "account_missing w uid \<longleftrightarrow> (\<exists>t. \<not> ev_user_exists (env w) t uid)"

lemma identity_missing: "identity_exists (UnixOwner uid g) w = (Inr False, v) \<Longrightarrow> account_missing w uid \<and> env v = env w"
  by (auto simp: identity_exists_def io_act_def syscall_Inr account_missing_def)

text \<open>A path outside every directory of a missing account.\<close>

definition of_known_owner :: "params \<Rightarrow> world \<Rightarrow> path \<Rightarrow> bool" where
  "of_known_owner E w p \<longleftrightarrow>
     p \<noteq> active_owner_path (paths_of E) \<and>
     (\<forall>uid. account_missing w uid \<longrightarrow>
        \<not> path_starts_with (sp_persistent_state_dir (paths_of E) @ [''users'', show_nat (unat uid)]) p)"

lemma env_keeps [simp]: "keeps env (lstat p)" "keeps env (identity_exists i)"
proof -
  show "keeps env (lstat p)"
    unfolding lstat_def by (rule blind_syscall) (simp_all add: keeps_def split: option.splits)
  have s: "keeps env (syscall (\<lambda>w. (Inr (ev_user_exists (env w) (tick w) uid), w)))" for uid
    by (rule blind_syscall) (simp_all add: keeps_def)
  show "keeps env (identity_exists i)"
    by (cases i) (auto simp: identity_exists_def intro!: frame s)
qed

lemma remove_stale_keeps_known:
  assumes "of_known_owner E w0 p" and root: "root = sp_persistent_state_dir (paths_of E) @ [''users'']"
  shows "preserves (\<lambda>w. env w = env w0 \<and> fs w p = fs w0 p)
    (remove_stale_owners E root active removed keys)"
proof (induction keys arbitrary: removed)
  case Nil
  show ?case by (simp add: preserves_okE)
next
  case (Cons key keys)
  let ?P = "\<lambda>w. env w = env w0 \<and> fs w p = fs w0 p"
  have both: "keeps env m \<Longrightarrow> keeps (\<lambda>w. fs w p) m \<Longrightarrow> preserves ?P m" for m :: "world \<Rightarrow> 'r \<times> world"
    by (simp add: keeps_def preserves_def)
  have look: "preserves ?P (io_act (lstat q))" for q
    by (intro both frame env_keeps) (simp add: lstat_def, rule keeps_file_syscall, simp split: option.splits)
  have exists: "preserves ?P (identity_exists i)" for i
    by (intro both env_keeps)
      (cases i; simp add: identity_exists_def frame; intro frame keeps_file_syscall; simp)
  have active: "active_owner_path (paths_of E) \<noteq> p" using assms by (auto simp: of_known_owner_def)
  have clear: "preserves ?P (tryE (fs_remove_file (active_owner_path (paths_of E))) (\<lambda>r.
        (case r of Inr _ \<Rightarrow> okE ()
         | Inl k \<Rightarrow> if k = NotFound then okE () else failE (Ctx ''failed to clear stale active owner'' (Io k)))))"
    using active by (intro both frame blind files) auto
  have remove: "preserves ?P (ctx_io c (fs_remove_dir_all (root @ [show_nat (unat uid)])))"
    if "account_missing w0 uid" for uid c
    using assms that by (intro both frame blind files) (auto simp: of_known_owner_def root)
  show ?case
    unfolding preserves_def
  proof (intro allI impI)
    fix w :: world assume w: "?P w"
    obtain r1 w1 where 1: "io_act (lstat (root @ [key])) w = (r1, w1)" by (cases "io_act (lstat (root @ [key])) w")
    have w1: "?P w1" using preservesD [OF look 1 w] .
    show "?P (snd (remove_stale_owners E root active removed (key # keys) w))"
    proof (cases "\<exists>n i. r1 = Inr n \<and> nd_kind n = Directory \<and> owner_identity_for_directory E key = Some i")
      case False
      then show ?thesis
        using 1 w1 Cons.IH [of removed]
        by (auto simp: bindE_def preserves_def split: sum.splits option.splits)
    next
      case True
      then obtain n uid where n: "r1 = Inr n" "nd_kind n = Directory"
        and i: "owner_identity_for_directory E key = Some (UnixOwner uid 0)" "key = show_nat (unat uid)"
        using identity_for_directory by blast
      obtain r2 w2 where 2: "identity_exists (UnixOwner uid 0) w1 = (r2, w2)" by (cases "identity_exists (UnixOwner uid 0) w1")
      have w2: "?P w2" using preservesD [OF exists 2 w1] .
      show ?thesis
      proof (cases "r2 = Inr False")
        case False
        have rest: "?P (snd (remove_stale_owners E root active removed keys w2))"
          using Cons.IH [of removed] w2 unfolding preserves_def by blast
        show ?thesis
        proof (cases r2)
          case (Inl e)
          with w2 show ?thesis by (simp add: bindE_def 1 2 n i(1))
        next
          case (Inr b)
          with False have "b" by simp
          with rest Inr show ?thesis by (simp add: bindE_def 1 2 n i(1))
        qed
      next
        case True
        have "account_missing w0 uid"
          using identity_missing [OF 2 [unfolded True]] w1 by (simp add: account_missing_def)
        then have rest: "preserves ?P (bindE (if (case active of None \<Rightarrow> False | Some a \<Rightarrow> ao_owner_key a = key)
             then tryE (fs_remove_file (active_owner_path (paths_of E))) (\<lambda>r.
                    (case r of Inr _ \<Rightarrow> okE ()
                     | Inl k \<Rightarrow> if k = NotFound then okE () else failE (Ctx ''failed to clear stale active owner'' (Io k))))
             else okE ()) (\<lambda>_.
           bindE (ctx_io ''failed to remove stale owner state'' (fs_remove_dir_all (root @ [key]))) (\<lambda>_.
             remove_stale_owners E root active (removed @ [key]) keys)))"
          unfolding i(2) using Cons.IH
          by (intro preserves_bindE preserves_if preserves_okE clear remove) auto
        have rest': "?P (snd (bindE (if (case active of None \<Rightarrow> False | Some a \<Rightarrow> ao_owner_key a = key)
             then tryE (fs_remove_file (active_owner_path (paths_of E))) (\<lambda>r.
                    (case r of Inr _ \<Rightarrow> okE ()
                     | Inl k \<Rightarrow> if k = NotFound then okE () else failE (Ctx ''failed to clear stale active owner'' (Io k))))
             else okE ()) (\<lambda>_.
           bindE (ctx_io ''failed to remove stale owner state'' (fs_remove_dir_all (root @ [key]))) (\<lambda>_.
             remove_stale_owners E root active (removed @ [key]) keys)) w2))"
          using rest w2 unfolding preserves_def by blast
        have "remove_stale_owners E root active removed (key # keys) w =
           bindE (if (case active of None \<Rightarrow> False | Some a \<Rightarrow> ao_owner_key a = key)
             then tryE (fs_remove_file (active_owner_path (paths_of E))) (\<lambda>r.
                    (case r of Inr _ \<Rightarrow> okE ()
                     | Inl k \<Rightarrow> if k = NotFound then okE () else failE (Ctx ''failed to clear stale active owner'' (Io k))))
             else okE ()) (\<lambda>_.
           bindE (ctx_io ''failed to remove stale owner state'' (fs_remove_dir_all (root @ [key]))) (\<lambda>_.
             remove_stale_owners E root active (removed @ [key]) keys)) w2"
          unfolding remove_stale_owners.simps bindE_def [of "io_act (lstat (root @ [key]))"] 1 prod.case
          by (simp add: n i(1) bindE_def [of "identity_exists (UnixOwner uid 0)"] 2 True)
        with rest' show ?thesis by simp
      qed
    qed
  qed
qed



end
