(* ===== verification/Owner.thy ===== *)
theory Owner
  imports Processes Maintenance
begin

text \<open>
  \<open>src/core/owner.rs\<close> and \<open>src/core/repair.rs\<close>: the lock that makes one process the service, its
  takeover from an owner that no longer answers, and the gate that lets one repair run at a time. An
  operating system lock that is held shows as a failing call with \<open>WouldBlock\<close>.
\<close>

definition OWNER_HEALTH_ATTEMPTS :: nat where "OWNER_HEALTH_ATTEMPTS = 20"
definition OWNER_REACQUIRE_ATTEMPTS :: nat where "OWNER_REACQUIRE_ATTEMPTS = 10"
definition REPAIR_IN_PROGRESS_EXIT_CODE :: int where "REPAIR_IN_PROGRESS_EXIT_CODE = 75"

section \<open>Owner metadata\<close>

definition trim :: "string \<Rightarrow> string" where
  "trim s = rev (dropWhile is_space (rev (dropWhile is_space s)))"

definition newline :: string where "newline = [CHR 0x0A]"

fun content_text :: "content \<Rightarrow> string option" where
  "content_text (Bytes s) = Some s"
| "content_text (JsonText j) = None"

definition write_owner_metadata :: "params \<Rightarrow> u32 \<Rightarrow> unit act" where
  "write_owner_metadata E pid =
     (let paths = paths_of E; lock = sp_owner_lock_path paths;
          line1 = ''pid='' @ show_nat (unat pid) @ newline;
          line2 = ''version='' @ pkg_version E @ newline in
      bindE (io_act (fs_write_all lock (Bytes ''''))) (\<lambda>_.
      bindE (io_act (fs_write_all lock (Bytes line1))) (\<lambda>_.
      bindE (io_act (fs_write_all lock (Bytes (line1 @ line2)))) (\<lambda>_.
      bindE (io_act fs_sync) (\<lambda>_.
      bindE (ctx_io ''failed to write pid file'' (fs_create (sp_pid_file_path paths))) (\<lambda>_.
        ctx_io ''failed to write pid file''
          (fs_write_all (sp_pid_file_path paths) (Bytes (show_nat (unat pid))))))))))"

definition read_text :: "path \<Rightarrow> string option act" where
  "read_text p = tryE (fs_read p) (\<lambda>r. okE (case r of Inl _ \<Rightarrow> None | Inr c \<Rightarrow> content_text c))"

definition parse_pid :: "string \<Rightarrow> u32 option" where
  "parse_pid s = map_option of_nat (parse_unsigned 32 (trim s))"

definition lock_pid_of_text :: "string \<Rightarrow> u32 option" where
  "lock_pid_of_text s =
     (case List.map_filter (\<lambda>line. Option.bind (strip_prefix ''pid='' line) parse_pid) (split_char (CHR 0x0A) s) of
        [] \<Rightarrow> None | p # _ \<Rightarrow> Some p)"

definition read_pid_file :: "path \<Rightarrow> u32 option act" where
  "read_pid_file p = bindE (read_text p) (\<lambda>t. okE (Option.bind t parse_pid))"

definition read_owner_lock_pid :: "path \<Rightarrow> u32 option act" where
  "read_owner_lock_pid p = bindE (read_text p) (\<lambda>t. okE (Option.bind t lock_pid_of_text))"

definition read_owner_pid :: "params \<Rightarrow> u32 option act" where
  "read_owner_pid E =
     bindE (read_pid_file (sp_pid_file_path (paths_of E))) (\<lambda>p.
       (case p of
          Some pid \<Rightarrow> okE (Some pid)
        | None \<Rightarrow> read_owner_lock_pid (sp_owner_lock_path (paths_of E))))"

section \<open>The lock\<close>

text \<open>One attempt: whether the lock was taken.\<close>

definition try_acquire_owner_once :: "params \<Rightarrow> bool act" where
  "try_acquire_owner_once E =
     (let lock = sp_owner_lock_path (paths_of E) in
      bindE (ctx_io ''failed to open owner lock'' (open_or_create lock)) (\<lambda>_.
      tryE (try_lock lock) (\<lambda>r.
        (case r of
           Inr _ \<Rightarrow>
             bindE (get self_pid) (\<lambda>pid.
             bindE (write_owner_metadata E pid) (\<lambda>_. okE True))
         | Inl k \<Rightarrow>
             if k = WouldBlock \<or> k = PermissionDenied then okE False
             else failE (Ctx ''failed to lock'' (Io k))))))"

text \<open>The health probe asks the old owner for \<open>/magic\<close> over its socket; the environment answers.\<close>

definition is_ipc_healthy :: "params \<Rightarrow> bool act" where
  "is_ipc_healthy E = is_core_socket_reachable (IPC_PATH (bd E))"

fun probe_owner :: "params \<Rightarrow> nat \<Rightarrow> bool act" where
  "probe_owner E 0 = okE False"
| "probe_owner E (Suc n) = bindE (is_ipc_healthy E) (\<lambda>healthy. if healthy then okE True else probe_owner E n)"

definition wait_for_owner_health :: "params \<Rightarrow> bool act" where
  "wait_for_owner_health E = probe_owner E OWNER_HEALTH_ATTEMPTS"

definition cleanup_runtime_artifacts :: "params \<Rightarrow> unit act" where
  "cleanup_runtime_artifacts E =
     tryE (fs_remove_file (sp_pid_file_path (paths_of E))) (\<lambda>_.
     tryE (fs_remove_file (sp_ipc_path (paths_of E))) (\<lambda>_. okE ()))"

fun reacquire :: "params \<Rightarrow> nat \<Rightarrow> bool act" where
  "reacquire E 0 = failE (Msg ''failed to acquire service owner lock after stale owner cleanup'')"
| "reacquire E (Suc n) =
     bindE (try_acquire_owner_once E) (\<lambda>taken. if taken then okE True else reacquire E n)"

text \<open>The old owner is stopped, its files are removed, and the lock is tried again.\<close>

definition replace_owner :: "params \<Rightarrow> u32 \<Rightarrow> bool act" where
  "replace_owner E old_pid =
     bindE (is_process_alive old_pid) (\<lambda>alive.
     bindE (if alive then terminate_process old_pid else okE ()) (\<lambda>_.
     bindE (is_process_alive old_pid) (\<lambda>still.
       if still then failE (Msg ''old service owner process is still alive; refusing lock takeover'')
       else
         bindE (cleanup_runtime_artifacts E) (\<lambda>_.
           reacquire E OWNER_REACQUIRE_ATTEMPTS))))"

definition take_over :: "params \<Rightarrow> bool act" where
  "take_over E =
     bindE (read_owner_pid E) (\<lambda>old.
     bindE (wait_for_owner_health E) (\<lambda>healthy.
       if healthy then okE False
       else
         (case old of
            None \<Rightarrow>
              failE (Msg ''service owner lock is held but its PID is unavailable; refusing unsafe lock takeover'')
          | Some old_pid \<Rightarrow>
              bindE (get self_pid) (\<lambda>self.
                if old_pid = self then failE (Msg ''current process already holds the service owner lock'')
                else replace_owner E old_pid))))"

text \<open>The result is whether this process owns the service; \<open>False\<close> means a healthy owner exists.\<close>

definition acquire_service_owner :: "params \<Rightarrow> bool act" where
  "acquire_service_owner E =
     bindE (ensure_persistent_state_layout E) (\<lambda>_.
     bindE (ensure_service_directory (sp_runtime_dir (paths_of E)) 493) (\<lambda>_.
     bindE (try_acquire_owner_once E) (\<lambda>taken.
       if taken then okE True else take_over E)))"

text \<open>Dropping the guard removes the pid file; the lock goes with the file handle.\<close>

definition release_service_owner :: "params \<Rightarrow> unit act" where
  "release_service_owner E = tryE (fs_remove_file (sp_pid_file_path (paths_of E))) (\<lambda>_. okE ())"

definition acquire_service_repair_gate :: "params \<Rightarrow> bool act" where
  "acquire_service_repair_gate E =
     bindE (prepare_service_install_directory E) (\<lambda>directory.
     let p = directory @ [''.repair.lock''] in
     bindE (ctx_io ''failed to open service repair gate'' (open_or_create p)) (\<lambda>_.
     bindE (ctx_io ''failed to secure service repair gate'' (fchmod p 384)) (\<lambda>_.
     tryE (try_lock p) (\<lambda>r.
       (case r of
          Inr _ \<Rightarrow> okE True
        | Inl k \<Rightarrow> if k = WouldBlock then okE False else failE (Ctx ''failed to lock service repair gate'' (Io k)))))))"

section \<open>What the metadata says\<close>

lemma digit_not_space: "is_digit c \<Longrightarrow> \<not> is_space c"
  by (auto simp: is_digit_def is_space_def)

lemma trim_digits: "list_all (\<lambda>c. \<not> is_space c) s \<Longrightarrow> trim s = s"
proof -
  assume s: "list_all (\<lambda>c. \<not> is_space c) s"
  have d: "dropWhile is_space t = t" if "list_all (\<lambda>c. \<not> is_space c) t" for t
    using that by (cases t) auto
  have "list_all (\<lambda>c. \<not> is_space c) (rev s)" using s by simp
  with d s show ?thesis by (simp add: trim_def)
qed

lemma parse_pid_show: "parse_pid (show_nat (unat (p :: u32))) = Some p"
proof -
  have "list_all (\<lambda>c. \<not> is_space c) (show_nat (unat p))"
    using show_nat_digits digit_not_space by (simp add: list_all_iff)
  moreover have "unat p < 2 ^ 32" using unsigned_less [of p, where 'a = nat] by simp
  ultimately show ?thesis by (simp add: parse_pid_def trim_digits parse_show_nat del: power_numeral)
qed

text \<open>
  The next owner finds the process id this one wrote: both the text of the pid file and the text of
  the lock file give back the id, whatever the version string is.
\<close>

lemma owner_pid_roundtrip:
  "parse_pid (show_nat (unat p)) = Some p \<and>
   lock_pid_of_text (''pid='' @ show_nat (unat p) @ newline @ ''version='' @ version @ newline) = Some p"
proof
  show "parse_pid (show_nat (unat p)) = Some p" by (rule parse_pid_show)
  have "CHR 0x0A \<notin> set (''pid='' @ show_nat (unat p))"
  proof -
    have "\<not> is_digit (CHR 0x0A)" by (simp add: is_digit_def)
    then show ?thesis using show_nat_no_char by simp
  qed
  from split_char_app [OF this, of "''version='' @ version @ newline"]
  have "split_char (CHR 0x0A) (''pid='' @ show_nat (unat p) @ newline @ ''version='' @ version @ newline) =
      (''pid='' @ show_nat (unat p)) # split_char (CHR 0x0A) (''version='' @ version @ newline)"
    by (simp add: newline_def)
  moreover have "Option.bind (strip_prefix ''pid='' (''pid='' @ show_nat (unat p))) parse_pid = Some p"
    by (simp only: strip_prefix_append bind.simps parse_pid_show)
  ultimately show "lock_pid_of_text (''pid='' @ show_nat (unat p) @ newline @ ''version='' @ version @ newline) = Some p"
    by (simp add: lock_pid_of_text_def List.map_filter_simps del: strip_prefix.simps)
qed

section \<open>Takeover\<close>

lemma lock_keeps: "blind_to_files f \<Longrightarrow> keeps f (try_lock p)" "blind_to_files f \<Longrightarrow> keeps f (open_or_create p)"
proof -
  assume f: "blind_to_files f"
  show "keeps f (try_lock p)" unfolding try_lock_def by (rule blind_syscall [OF f]) (simp add: keeps_def)
  show "keeps f (open_or_create p)" unfolding open_or_create_def
    by (rule blind_syscall [OF f]) (simp add: keeps_def blind_node [OF f] split: option.splits)
qed

lemma blind_owner_ops [blind]:
  assumes f: "blind_to_files f"
  shows "keeps f (try_acquire_owner_once E)" "keeps f (read_owner_pid E)" "keeps f (wait_for_owner_health E)"
    "keeps f (cleanup_runtime_artifacts E)" "keeps f (reacquire E n)"
proof -
  have once: "keeps f (try_acquire_owner_once E)"
    unfolding try_acquire_owner_once_def write_owner_metadata_def Let_def
    by (intro frame blind lock_keeps f)
  then show "keeps f (try_acquire_owner_once E)" .
  show "keeps f (read_owner_pid E)"
    unfolding read_owner_pid_def read_pid_file_def read_owner_lock_pid_def read_text_def
    by (intro frame blind f)
  have "keeps f (probe_owner E n)" for n
    by (induction n) (auto intro!: frame keeps_looks blind_tick f simp: is_ipc_healthy_def)
  then show "keeps f (wait_for_owner_health E)" by (simp add: wait_for_owner_health_def)
  show "keeps f (cleanup_runtime_artifacts E)"
    unfolding cleanup_runtime_artifacts_def by (intro frame blind f)
  show "keeps f (reacquire E n)"
    by (induction n) (auto intro!: frame once)
qed

lemma reacquire_true: "reacquire E n w = (Inr owned, v) \<Longrightarrow> owned"
  by (induction n arbitrary: w) (auto simp: bindE_Inr split: if_splits)

lemma replace_owner_signals:
  assumes "replace_owner E old w = (r, v)"
  shows "signals_only old w v"
    and "is_ok r \<Longrightarrow> r = Inr True \<and> (\<exists>x y. is_process_alive old x = (Inr False, y))"
proof -
  have "preserves (signals_only old w) (replace_owner E old)"
    unfolding replace_owner_def
    by (intro preserves_rules terminate_signals)
      (rule signals_only_kept, (intro keeps_looks blind_owner_ops, simp)+)+
  then show "signals_only old w v" using assms signals_only_same [of w w] by (auto dest: preservesD)
  show "is_ok r \<Longrightarrow> r = Inr True \<and> (\<exists>x y. is_process_alive old x = (Inr False, y))"
    using assms by (cases r) (auto simp: replace_owner_def bindE_Inr split: if_splits dest: reacquire_true, blast+)
qed



end
