(* ===== verification/BTree.thy ===== *)
theory BTree
  imports Prelude "HOL-Library.List_Lexorder" "HOL-Library.Char_ord"
begin

text \<open>
  \<open>BTreeMap\<close> and \<open>BTreeSet\<close> of the standard library: association lists sorted by key. The order of
  a traversal is the order of the keys, which decides the order of the plans built from them. Strings
  are ordered by their bytes.
\<close>

type_synonym ('k, 'v) btree = "('k \<times> 'v) list"

fun bt_insert :: "'k::linorder \<Rightarrow> 'v \<Rightarrow> ('k, 'v) btree \<Rightarrow> ('k, 'v) btree" where
  "bt_insert k v [] = [(k, v)]"
| "bt_insert k v ((k', v') # m) =
     (if k < k' then (k, v) # (k', v') # m
      else if k = k' then (k, v) # m
      else (k', v') # bt_insert k v m)"

definition bt_remove :: "'k \<Rightarrow> ('k, 'v) btree \<Rightarrow> ('k, 'v) btree" where
  "bt_remove k m = filter (\<lambda>(k', v). k' \<noteq> k) m"

definition bt_keys :: "('k, 'v) btree \<Rightarrow> 'k list" where
  "bt_keys m = map fst m"

definition bt_wf :: "('k::linorder, 'v) btree \<Rightarrow> bool" where
  "bt_wf m \<longleftrightarrow> sorted_wrt (<) (map fst m)"

text \<open>\<open>BTreeMap\<close> deserialization inserts the members of the object one by one.\<close>

definition bt_of :: "('k::linorder \<times> 'v) list \<Rightarrow> ('k, 'v) btree" where
  "bt_of xs = foldl (\<lambda>m (k, v). bt_insert k v m) [] xs"

lemma set_keys_insert [simp]: "fst ` set (bt_insert k v m) = insert k (fst ` set m)"
  by (induction k v m rule: bt_insert.induct) auto

lemma map_of_insert: "bt_wf m \<Longrightarrow> map_of (bt_insert k v m) = (map_of m)(k \<mapsto> v)"
proof (induction k v m rule: bt_insert.induct)
  case (2 k v k' v' m)
  have "map_of m k = None" if "k < k'"
    using 2(2) that by (fastforce simp: bt_wf_def map_of_eq_None_iff)
  with 2 show ?case by (auto simp: bt_wf_def fun_eq_iff)
qed simp

lemma wf_Nil [simp]: "bt_wf []"
  by (simp add: bt_wf_def)

lemma wf_insert [simp]: "bt_wf m \<Longrightarrow> bt_wf (bt_insert k v m)"
proof (induction k v m rule: bt_insert.induct)
  case (2 k v k' v' m)
  then have wf: "bt_wf m" and gt: "\<forall>x \<in> fst ` set m. k' < x" by (auto simp: bt_wf_def)
  show ?case
  proof (cases "k < k'")
    case True
    with 2 gt show ?thesis by (auto simp: bt_wf_def)
  next
    case False
    show ?thesis
    proof (cases "k = k'")
      case True
      with False 2 show ?thesis by (simp add: bt_wf_def)
    next
      case ne: False
      with False have "k' < k" by simp
      moreover have "fst ` set (bt_insert k v m) = insert k (fst ` set m)" by simp
      ultimately have "\<forall>x \<in> fst ` set (bt_insert k v m). k' < x" using gt by auto
      with ne False 2 wf show ?thesis by (simp add: bt_wf_def)
    qed
  qed
qed (simp add: bt_wf_def)

lemma wf_of [simp]: "bt_wf (bt_of xs)"
proof -
  have "bt_wf m \<Longrightarrow> bt_wf (foldl (\<lambda>m (k, v). bt_insert k v m) m xs)" for m
    by (induction xs arbitrary: m) auto
  then show ?thesis by (simp add: bt_of_def)
qed

lemma wf_remove [simp]: "bt_wf m \<Longrightarrow> bt_wf (bt_remove k m)"
  by (induction m) (auto simp: bt_wf_def bt_remove_def)

lemma map_of_remove: "map_of (bt_remove k m) = (map_of m)(k := None)"
  by (induction m) (auto simp: bt_remove_def fun_eq_iff)

text \<open>Inserting in increasing order appends, so a sorted map is rebuilt as it was.\<close>

lemma insert_last: "\<forall>x \<in> fst ` set m. x < k \<Longrightarrow> bt_insert k v m = m @ [(k, v)]"
  by (induction k v m rule: bt_insert.induct) (auto simp: less_imp_not_less)

lemma of_sorted:
  assumes "bt_wf m"
  shows "bt_of m = m"
proof -
  have "bt_wf (a @ xs) \<Longrightarrow> foldl (\<lambda>m (k, v). bt_insert k v m) a xs = a @ xs" for a xs
  proof (induction xs arbitrary: a)
    case (Cons x xs)
    obtain k v where x: "x = (k, v)" by (cases x)
    have "\<forall>y \<in> fst ` set a. y < k"
      using Cons.prems by (auto simp: bt_wf_def sorted_wrt_append x)
    with Cons x show ?case by (simp add: insert_last)
  qed simp
  from this [of "[]" m] assms show ?thesis by (simp add: bt_of_def)
qed

end
