(* ===== verification/Assets.thy ===== *)
theory Assets
  imports Auth BTree
begin

text \<open>
  The validation half of \<open>src/core/runtime_generation/assets.rs\<close>: which client files may be read,
  and which names below the runtime directory a bundle may claim. A destination is a text given by
  the client or found in a manifest; the file it names is always computed by
  \<open>resolve_in_generation\<close>.
\<close>

definition invalid_asset :: "string \<Rightarrow> service_error" where
  "invalid_asset m = service_error_new InvalidRuntimeAsset m"

definition RUNTIME_GENERATION_DIRECTORY_NAME :: string where
  "RUNTIME_GENERATION_DIRECTORY_NAME = ''runtime''"

definition RUNTIME_CONFIG_FILE_NAME :: string where
  "RUNTIME_CONFIG_FILE_NAME = ''config.yaml''"

definition MANIFEST_FILE_NAME :: string where
  "MANIFEST_FILE_NAME = ''.runtime-manifest.json''"

definition STAGING_TEMP_INFIX :: string where
  "STAGING_TEMP_INFIX = ''.staging-''"

lemmas generation_names =
  RUNTIME_GENERATION_DIRECTORY_NAME_def RUNTIME_CONFIG_FILE_NAME_def MANIFEST_FILE_NAME_def
  STAGING_TEMP_INFIX_def

section \<open>Sources\<close>

text \<open>Two paths are equal when their components are.\<close>

definition same_path :: "string \<Rightarrow> path \<Rightarrow> bool" where
  "same_path s p \<longleftrightarrow> components s = RootDir # map Normal p"

definition canonical_regular_file :: "string \<Rightarrow> string \<Rightarrow> (world, service_error, path) op" where
  "canonical_regular_file s label =
     (if \<not> path_is_absolute s then failE (invalid_asset (label @ '' path must be absolute''))
      else
        bindE (mapErrE (\<lambda>_. invalid_asset (label @ '' is unavailable'')) (client_symlink_metadata s)) (\<lambda>metadata.
          if nd_kind metadata = Symlink \<or> nd_kind metadata \<noteq> RegularFile
          then failE (invalid_asset (label @ '' must be an ordinary file''))
          else mapErrE (\<lambda>_. invalid_asset (''failed to canonicalize '' @ label)) (client_canonicalize s)))"

text \<open>\<open>Path::ancestors\<close>: the path itself first, the root last.\<close>

fun ancestors_from :: "nat \<Rightarrow> path \<Rightarrow> path list" where
  "ancestors_from 0 p = [[]]"
| "ancestors_from (Suc n) p = take (Suc n) p # ancestors_from n p"

definition ancestors :: "path \<Rightarrow> path list" where
  "ancestors p = ancestors_from (length p) p"

definition file_extension :: "path \<Rightarrow> string option" where
  "file_extension p =
     (if p = [] then None
      else (case rsplit_once (CHR ''.'') (last p) of
              Some (stem, ext) \<Rightarrow> if stem = '''' then None else Some ext
            | None \<Rightarrow> None))"

definition home_applications :: "path \<Rightarrow> path option" where
  "home_applications root =
     map_option (\<lambda>p. butlast p @ [''Applications''])
       (find (\<lambda>p. p \<noteq> [] \<and> last p = ''Library'') (ancestors root))"

definition is_permitted_macos_core_location :: "path \<Rightarrow> path option \<Rightarrow> bool" where
  "is_permitted_macos_core_location p home =
     (path_starts_with [''Applications''] p \<or>
      (case home of None \<Rightarrow> False | Some root \<Rightarrow> path_starts_with root p))"

definition validate_core_path ::
  "params \<Rightarrow> authenticated_owner \<Rightarrow> string \<Rightarrow> (world, service_error, path) op" where
  "validate_core_path E owner core_path =
     bindE (canonical_regular_file core_path ''core'') (\<lambda>p.
       if os (bd E) = MacOS \<and>
          \<not> is_permitted_macos_core_location p (home_applications (au_app_data_root owner))
       then failE (service_error_new InvalidInstallLocation
              ''macOS core path is outside an allowed Applications directory'')
       else okE p)"

definition application_bundle_root :: "params \<Rightarrow> path \<Rightarrow> path option" where
  "application_bundle_root E core_path =
     (if os (bd E) = MacOS then find (\<lambda>p. file_extension p = Some ''app'') (ancestors core_path)
      else path_parent core_path)"

definition validate_source ::
  "authenticated_owner \<Rightarrow> path option \<Rightarrow> string \<Rightarrow> (world, service_error, path) op" where
  "validate_source owner app_bundle_root source =
     bindE (canonical_regular_file source ''runtime asset'') (\<lambda>p.
       if \<not> same_path source p
       then failE (invalid_asset ''runtime asset path contains a symlink or non-canonical component'')
       else if \<not> path_starts_with (au_app_data_root owner) p \<and>
               \<not> (case app_bundle_root of None \<Rightarrow> False | Some root \<Rightarrow> path_starts_with root p)
       then failE (invalid_asset ''runtime asset is outside the authenticated application roots'')
       else okE p)"

section \<open>Destinations\<close>

definition validate_destination :: "string \<Rightarrow> service_error + string" where
  "validate_destination destination =
     (if destination = '''' \<or> path_is_absolute destination \<or>
         list_ex (\<lambda>c. normal_name c = None) (components destination)
      then Inl (invalid_asset ''runtime asset destination must be a non-traversing relative path'')
      else Inr destination)"

text \<open>The shape of staging's temporary names: a dot, any name, the infix, digits, a dash, digits.\<close>

definition is_staging_temporary :: "string \<Rightarrow> bool" where
  "is_staging_temporary name =
     (case Option.bind (strip_prefix ''.'' name) (rsplit_once_str STAGING_TEMP_INFIX) of
        None \<Rightarrow> False
      | Some (_, tail) \<Rightarrow>
          (case split_once (CHR ''-'') tail of
             None \<Rightarrow> False
           | Some (pid, sequence) \<Rightarrow>
               pid \<noteq> '''' \<and> sequence \<noteq> '''' \<and> list_all is_digit pid \<and> list_all is_digit sequence))"

fun destination_parts :: "component list \<Rightarrow> service_error + string list" where
  "destination_parts [] = Inr []"
| "destination_parts (c # cs) =
     (case normal_name c of
        None \<Rightarrow> Inl (invalid_asset ''runtime asset destination must be a non-traversing relative path'')
      | Some part \<Rightarrow>
          if is_staging_temporary part
          then Inl (invalid_asset ''runtime asset destination is reserved for staging temporaries'')
          else bindR (destination_parts cs) (\<lambda>parts. Inr (part # parts)))"

definition destination_key :: "string \<Rightarrow> service_error + string" where
  "destination_key destination =
     bindR (destination_parts (components destination)) (\<lambda>parts.
       (case parts of
          [] \<Rightarrow> Inl (invalid_asset ''runtime asset destination is empty'')
        | [single] \<Rightarrow>
            if eq_ignore_ascii_case single RUNTIME_CONFIG_FILE_NAME \<or>
               eq_ignore_ascii_case single MANIFEST_FILE_NAME
            then Inl (invalid_asset ''runtime asset destination is owned by the runtime generation'')
            else Inr single
        | _ \<Rightarrow> Inr (join_with ''/'' parts)))"

definition path_join :: "path \<Rightarrow> string \<Rightarrow> path" where
  "path_join base s = (if path_is_absolute s then abs_path s else base @ abs_path s)"

definition resolve_in_generation :: "path \<Rightarrow> string \<Rightarrow> service_error + path" where
  "resolve_in_generation generation destination =
     bindR (validate_destination destination) (\<lambda>d.
     bindR (destination_key d) (\<lambda>key. Inr (path_join generation key)))"

section \<open>What a destination can name\<close>

definition plain_name :: "string \<Rightarrow> bool" where
  "plain_name p \<longleftrightarrow> p \<noteq> '''' \<and> p \<noteq> ''.'' \<and> p \<noteq> ''..'' \<and> CHR ''/'' \<notin> set p"

lemma components_normal: "Normal p \<in> set (components s) \<Longrightarrow> plain_name p"
proof -
  assume "Normal p \<in> set (components s)"
  then have "Normal p \<in> set (map component_of (filter kept_piece (split_char (CHR ''/'') s)))"
    by (auto simp: components_def Let_def split: if_splits)
  then obtain q where q: "q \<in> set (split_char (CHR ''/'') s)" "kept_piece q" "component_of q = Normal p"
    by auto
  then have "p = q" "q \<noteq> ''..''" by (auto simp: component_of_def split: if_splits)
  with q split_char_no_sep [of "CHR ''/''" s] show ?thesis
    by (auto simp: plain_name_def kept_piece_def)
qed

lemma destination_parts_Inr:
  "destination_parts cs = Inr parts \<Longrightarrow> cs = map Normal parts \<and> list_all (\<lambda>p. \<not> is_staging_temporary p) parts"
proof (induction cs arbitrary: parts)
  case (Cons c cs)
  then show ?case
    by (cases c) (auto simp: bindR_Inr split: if_splits)
qed simp

lemma join_not_absolute: "list_all plain_name ps \<Longrightarrow> ps \<noteq> [] \<Longrightarrow> \<not> path_is_absolute (join_with ''/'' ps)"
proof -
  assume ps: "list_all plain_name ps" "ps \<noteq> []"
  then obtain c cs qs where c: "ps = (c # cs) # qs" "c \<noteq> CHR ''/''"
    by (cases ps; cases "hd ps") (auto simp: plain_name_def)
  then have "join_with ''/'' ps = c # cs @ (if qs = [] then [] else ''/'' @ join_with ''/'' qs)"
    by (cases qs) auto
  with c show ?thesis by (simp add: path_is_absolute_def starts_with_iff)
qed

lemma abs_path_join:
  assumes "list_all plain_name ps" "ps \<noteq> []"
  shows "abs_path (join_with ''/'' ps) = ps"
proof -
  have sep: "split_char (CHR ''/'') (join_with ''/'' ps) = ps"
    using assms by (intro split_char_join) (auto simp: list_all_iff plain_name_def)
  have "filter kept_piece ps = ps"
    using assms by (auto simp: filter_id_conv list_all_iff plain_name_def kept_piece_def)
  moreover have "hd ps \<noteq> ''.''"
    using assms by (cases ps) (auto simp: plain_name_def)
  ultimately have "components (join_with ''/'' ps) = map component_of ps"
    using join_not_absolute [OF assms] by (simp add: components_def sep)
  moreover have "List.map_filter normal_name (map component_of ps) = ps"
    using assms(1) by (induction ps) (auto simp: component_of_def plain_name_def List.map_filter_simps)
  ultimately show ?thesis by (simp add: abs_path_def)
qed

lemma destination_key_Inr:
  assumes "destination_key d = Inr key"
  shows "\<exists>parts. components d = map Normal parts \<and> parts \<noteq> [] \<and> list_all plain_name parts \<and>
    list_all (\<lambda>p. \<not> is_staging_temporary p) parts \<and> key = join_with ''/'' parts \<and>
    (\<forall>single. parts = [single] \<longrightarrow> single \<noteq> RUNTIME_CONFIG_FILE_NAME \<and> single \<noteq> MANIFEST_FILE_NAME)"
proof -
  from assms obtain parts where parts: "destination_parts (components d) = Inr parts"
    by (auto simp: destination_key_def bindR_Inr)
  from destination_parts_Inr [OF parts] have c: "components d = map Normal parts"
    and t: "list_all (\<lambda>p. \<not> is_staging_temporary p) parts" by auto
  have plain: "list_all plain_name parts"
    using c components_normal [of _ d] by (auto simp: list_all_iff)
  from assms parts have "parts \<noteq> []" "key = join_with ''/'' parts"
    "\<forall>single. parts = [single] \<longrightarrow> single \<noteq> RUNTIME_CONFIG_FILE_NAME \<and> single \<noteq> MANIFEST_FILE_NAME"
    by (auto simp: destination_key_def eq_ignore_ascii_case_def split: list.splits if_splits)
  with c t plain show ?thesis by blast
qed

lemma resolve_Inr:
  assumes "resolve_in_generation g d = Inr p"
  shows "\<exists>parts. p = g @ parts \<and> parts \<noteq> [] \<and> list_all plain_name parts \<and>
    list_all (\<lambda>q. \<not> is_staging_temporary q) parts \<and>
    parts \<noteq> [RUNTIME_CONFIG_FILE_NAME] \<and> parts \<noteq> [MANIFEST_FILE_NAME]"
proof -
  from assms obtain key where k: "destination_key d = Inr key" "p = path_join g key"
    by (auto simp: resolve_in_generation_def bindR_Inr validate_destination_def split: if_splits)
  from destination_key_Inr [OF k(1)] obtain parts where p: "parts \<noteq> []" "list_all plain_name parts"
    "list_all (\<lambda>q. \<not> is_staging_temporary q) parts" "key = join_with ''/'' parts"
    "\<forall>single. parts = [single] \<longrightarrow> single \<noteq> RUNTIME_CONFIG_FILE_NAME \<and> single \<noteq> MANIFEST_FILE_NAME" by blast
  then have "p = g @ parts"
    using k(2) join_not_absolute abs_path_join by (simp add: path_join_def)
  with p show ?thesis by blast
qed

section \<open>Names reserved for staging\<close>

definition staging_temp_name :: "string \<Rightarrow> u32 \<Rightarrow> u64 \<Rightarrow> string" where
  "staging_temp_name name pid sequence =
     ''.'' @ name @ ''.staging-'' @ show_nat (unat pid) @ ''-'' @ show_nat (unat sequence)"

lemma split_str_skip:
  "c \<noteq> d \<Longrightarrow> split_once_str (d # p) (c # xs) = map_option (\<lambda>(a, b). (c # a, b)) (split_once_str (d # p) xs)"
  by (auto split: option.splits)

lemma split_str_skip_list:
  "d \<notin> set cs \<Longrightarrow> split_once_str (d # p) (cs @ xs) = map_option (\<lambda>(a, b). (cs @ a, b)) (split_once_str (d # p) xs)"
proof (induction cs)
  case Nil
  then show ?case by (cases "split_once_str (d # p) xs") auto
next
  case (Cons c cs)
  then have "split_once_str (d # p) ((c # cs) @ xs) =
      map_option (\<lambda>(a, b). (c # a, b)) (split_once_str (d # p) (cs @ xs))"
    unfolding append_Cons by (intro split_str_skip) auto
  with Cons show ?case
    by (cases "split_once_str (d # p) xs") (auto simp del: split_once_str.simps)
qed

lemma split_str_here: "split_once_str p (p @ xs) = Some ([], xs)"
proof (cases "p @ xs")
  case Nil
  then show ?thesis by simp
next
  case (Cons y ys)
  with strip_prefix_append [of p xs] have "strip_prefix p (y # ys) = Some xs" by simp
  with Cons show ?thesis by simp
qed

text \<open>Every temporary staging creates has a name no destination can claim.\<close>

lemma staging_name_reserved: "is_staging_temporary (staging_temp_name name pid sequence)"
proof -
  let ?p = "show_nat (unat pid)" and ?s = "show_nat (unat sequence)"
  let ?tail = "?p @ ''-'' @ ?s"
  have digits: "CHR ''-'' \<notin> set ?p" "CHR ''-'' \<notin> set ?s" by (simp_all add: show_nat_no_char)
  have rp: "CHR ''-'' \<notin> set (rev ?p)" "CHR ''-'' \<notin> set (rev ?s)" using digits by simp_all
  have g: "hd (rev ?p) \<noteq> CHR ''g''" "rev ?p \<noteq> []"
  proof -
    have "hd (rev ?p) \<in> set ?p" by (simp add: hd_rev)
    then have "is_digit (hd (rev ?p))" using show_nat_digits by blast
    then show "hd (rev ?p) \<noteq> CHR ''g''" by (auto simp: is_digit_def)
  qed simp
  have rinf: "rev ''.staging-'' = CHR ''-'' # ''gnigats.''" by simp
  let ?rp = "CHR ''-'' # ''gnigats.''"
  have a: "split_once_str ?rp (rev ?p @ ?rp @ rev name) = Some (rev ?p, rev name)"
    using split_str_skip_list [OF rp(1), of "''gnigats.''" "?rp @ rev name"] split_str_here [of ?rp "rev name"]
    by simp
  have b: "split_once_str ?rp (CHR ''-'' # rev ?p @ ?rp @ rev name) = Some (CHR ''-'' # rev ?p, rev name)"
  proof -
    obtain x xs where x: "rev ?p = x # xs" "x \<noteq> CHR ''g''" using g by (cases "rev ?p") auto
    then have "strip_prefix ?rp (CHR ''-'' # rev ?p @ ?rp @ rev name) = None" by simp
    with a show ?thesis by (simp del: strip_prefix.simps split: option.splits)
  qed
  have c: "split_once_str ?rp (rev ?s @ CHR ''-'' # rev ?p @ ?rp @ rev name) =
      Some (rev ?s @ CHR ''-'' # rev ?p, rev name)"
    using split_str_skip_list [OF rp(2), of "''gnigats.''" "CHR ''-'' # rev ?p @ ?rp @ rev name"] b by simp
  have "rev (name @ ''.staging-'' @ ?tail) = rev ?s @ CHR ''-'' # rev ?p @ ?rp @ rev name" by simp
  with c have "rsplit_once_str ''.staging-'' (name @ ''.staging-'' @ ?tail) = Some (name, ?tail)"
    unfolding rsplit_once_str_def rinf by simp
  moreover have "split_once (CHR ''-'') ?tail = Some (?p, ?s)"
    using digits by simp
  moreover have "list_all is_digit ?p" "list_all is_digit ?s"
    using show_nat_digits by (simp_all add: list_all_iff)
  ultimately show ?thesis
    by (simp add: is_staging_temporary_def staging_temp_name_def generation_names)
qed

text \<open>
  C13. A destination never leaves the runtime directory and never names a file the service keeps
  there. Whatever text a client or a manifest gives, the file it resolves to is the runtime
  directory followed by one or more ordinary names (no \<open>..\<close>, no \<open>.\<close>, no slash inside a name); it is
  not the configuration, not the manifest, and no temporary of staging, whatever file, process and
  sequence number that temporary is for.
\<close>

theorem destination_stays_inside:
  assumes "resolve_in_generation generation destination = Inr p"
  shows "(\<exists>parts. p = generation @ parts \<and> parts \<noteq> [] \<and> list_all plain_name parts) \<and>
    p \<noteq> generation @ [RUNTIME_CONFIG_FILE_NAME] \<and> p \<noteq> generation @ [MANIFEST_FILE_NAME] \<and>
    last p \<noteq> staging_temp_name name pid sequence"
proof -
  from resolve_Inr [OF assms] obtain parts where p: "p = generation @ parts" "parts \<noteq> []"
    "list_all plain_name parts" "list_all (\<lambda>q. \<not> is_staging_temporary q) parts"
    "parts \<noteq> [RUNTIME_CONFIG_FILE_NAME]" "parts \<noteq> [MANIFEST_FILE_NAME]" by blast
  then have "\<not> is_staging_temporary (last p)" by (simp add: list_all_iff)
  with p staging_name_reserved [of name pid sequence] show ?thesis by auto
qed

theorem destination_stays_inside_witness:
  "resolve_in_generation [''var'', ''rt''] ''providers/a.yaml'' = Inr [''var'', ''rt'', ''providers'', ''a.yaml''] \<and>
   [''var'', ''rt'', ''providers'', ''a.yaml''] \<noteq> [''var'', ''rt''] @ [RUNTIME_CONFIG_FILE_NAME]"
proof -
  have r: "resolve_in_generation [''var'', ''rt''] ''providers/a.yaml'' = Inr [''var'', ''rt'', ''providers'', ''a.yaml'']"
    by code_simp
  from destination_stays_inside [OF r] r show ?thesis by simp
qed

text \<open>
  Only a destination of one component is compared with the names of the generation's own files: one of them is
  accepted as the directory of a destination.
\<close>

lemma reserved_name_as_directory: "destination_key ''config.yaml/x'' = Inr ''config.yaml/x''"
  by code_simp

end
