(* ===== verification/Staging.thy ===== *)
theory Staging
  imports Assets StateFiles
begin

text \<open>
  \<open>src/core/runtime_generation/staging.rs\<close> and the writing half of \<open>assets.rs\<close>: the manifest of the
  files the service manages, the pure plan that turns a bundle into deletions and copies, and the
  file operations that carry a plan out and commit the configuration last.
\<close>

section \<open>The manifest\<close>

record source_identity =
  sid_source :: string
  sid_len :: u64
  sid_mtime_ns :: "u128 option"

record runtime_manifest =
  rm_assets :: "(string, source_identity) btree"
  rm_remote_providers :: "(string, string) btree"

definition default_manifest :: runtime_manifest where
  "default_manifest = \<lparr>rm_assets = [], rm_remote_providers = []\<rparr>"

definition still_matches :: "source_identity \<Rightarrow> source_identity \<Rightarrow> bool" where
  "still_matches recorded current \<longleftrightarrow> sid_mtime_ns recorded \<noteq> None \<and> recorded = current"

definition ser_source :: "source_identity \<Rightarrow> json" where
  "ser_source i = JObj
     [(''source'', JStr (sid_source i)), (''len'', ser_word (sid_len i)),
      (''mtime_ns'', ser_option ser_word (sid_mtime_ns i))]"

definition de_source :: "json \<Rightarrow> source_identity option" where
  "de_source j =
     (case as_object j of None \<Rightarrow> None
      | Some ms \<Rightarrow>
          (case (required de_string ''source'' ms, required de_word ''len'' ms, optional de_word ''mtime_ns'' ms) of
             (Some s, Some l, Some t) \<Rightarrow> Some \<lparr>sid_source = s, sid_len = l, sid_mtime_ns = t\<rparr>
           | _ \<Rightarrow> None))"

definition ser_tree :: "('a \<Rightarrow> json) \<Rightarrow> (string, 'a) btree \<Rightarrow> json" where
  "ser_tree s m = JObj (map (\<lambda>(k, x). (k, s x)) m)"

definition de_tree :: "(json \<Rightarrow> 'a option) \<Rightarrow> json \<Rightarrow> (string, 'a) btree option" where
  "de_tree d j = (case as_object j of None \<Rightarrow> None | Some ms \<Rightarrow> map_option bt_of (de_members d ms))"

definition ser_manifest :: "runtime_manifest \<Rightarrow> json" where
  "ser_manifest m = JObj
     [(''assets'', ser_tree ser_source (rm_assets m)),
      (''remote_providers'', ser_tree JStr (rm_remote_providers m))]"

definition de_manifest :: "json \<Rightarrow> runtime_manifest option" where
  "de_manifest j =
     (case as_object j of None \<Rightarrow> None
      | Some ms \<Rightarrow>
          (case (defaulted [] (de_tree de_source) ''assets'' ms,
                 defaulted [] (de_tree de_string) ''remote_providers'' ms) of
             (Some a, Some r) \<Rightarrow> Some \<lparr>rm_assets = a, rm_remote_providers = r\<rparr>
           | _ \<Rightarrow> None))"

section \<open>The plan\<close>

record planned_copy =
  pc_source :: string
  pc_destination :: string
  pc_identity :: source_identity

record stage_plan =
  sp_required_deletes :: "string list"
  sp_copies :: "planned_copy list"
  sp_skipped :: "string list"
  sp_hygiene_deletes :: "string list"
  sp_manifest :: runtime_manifest

record asset_source =
  as_asset :: runtime_asset
  as_len :: u64
  as_mtime_ns :: "u128 option"

definition empty_plan :: stage_plan where
  "empty_plan =
     \<lparr>sp_required_deletes = [], sp_copies = [], sp_skipped = [], sp_hygiene_deletes = [],
      sp_manifest = default_manifest\<rparr>"

definition identity_of :: "asset_source \<Rightarrow> source_identity" where
  "identity_of s =
     \<lparr>sid_source = ra_source (as_asset s), sid_len = as_len s, sid_mtime_ns = as_mtime_ns s\<rparr>"

definition up_to_date :: "runtime_manifest \<Rightarrow> asset_source \<Rightarrow> bool" where
  "up_to_date previous s \<longleftrightarrow>
     (case map_of (rm_assets previous) (ra_destination (as_asset s)) of
        None \<Rightarrow> False | Some recorded \<Rightarrow> still_matches recorded (identity_of s))"

definition plan_source :: "runtime_manifest \<Rightarrow> stage_plan \<Rightarrow> asset_source \<Rightarrow> stage_plan" where
  "plan_source previous plan s =
     (let identity = identity_of s;
          destination = ra_destination (as_asset s);
          plan' = (if up_to_date previous s
                   then plan\<lparr>sp_skipped := sp_skipped plan @ [destination]\<rparr>
                   else plan\<lparr>sp_copies := sp_copies plan @
                          [\<lparr>pc_source = ra_source (as_asset s), pc_destination = destination,
                            pc_identity = identity\<rparr>]\<rparr>) in
      plan'\<lparr>sp_manifest := (sp_manifest plan')
              \<lparr>rm_assets := bt_insert destination identity (rm_assets (sp_manifest plan'))\<rparr>\<rparr>)"

definition plan_remote :: "runtime_manifest \<Rightarrow> stage_plan \<Rightarrow> remote_provider \<Rightarrow> stage_plan" where
  "plan_remote previous plan p =
     (let plan' = (if map_of (rm_remote_providers previous) (rp_destination p) \<noteq> Some (rp_url p)
                   then plan\<lparr>sp_required_deletes := sp_required_deletes plan @ [rp_destination p]\<rparr>
                   else plan) in
      plan'\<lparr>sp_manifest := (sp_manifest plan')
              \<lparr>rm_remote_providers :=
                 bt_insert (rp_destination p) (rp_url p) (rm_remote_providers (sp_manifest plan'))\<rparr>\<rparr>)"

definition plan_stage :: "runtime_manifest \<Rightarrow> asset_source list \<Rightarrow> remote_provider list \<Rightarrow> stage_plan" where
  "plan_stage previous sources remote =
     (let plan = foldl (plan_remote previous) (foldl (plan_source previous) empty_plan sources) remote;
          declared = (\<lambda>k. k \<in> set (bt_keys (rm_assets (sp_manifest plan))) \<or>
                          k \<in> set (bt_keys (rm_remote_providers (sp_manifest plan)))) in
      plan\<lparr>sp_hygiene_deletes :=
        remdups_adj (sort (filter (\<lambda>k. \<not> declared k)
          (bt_keys (rm_assets previous) @ bt_keys (rm_remote_providers previous))))\<rparr>)"

section \<open>Gathering a bundle\<close>

fun declare_providers ::
  "string list \<Rightarrow> (string, string) btree \<Rightarrow> remote_provider list \<Rightarrow> service_error + (string, string) btree" where
  "declare_providers assets seen [] = Inr seen"
| "declare_providers assets seen (p # ps) =
     bindR (validate_destination (rp_destination p)) (\<lambda>d.
     bindR (destination_key d) (\<lambda>destination.
       if destination \<in> set assets
       then Inl (invalid_asset ''runtime destination is declared both as a copied asset and as a remote provider'')
       else (case map_of seen destination of
               None \<Rightarrow> declare_providers assets (bt_insert destination (rp_url p) seen) ps
             | Some url \<Rightarrow>
                 if url = rp_url p then declare_providers assets seen ps
                 else Inl (invalid_asset ''runtime destination is declared for two different provider sources''))))"

definition declared_remote_providers ::
  "remote_provider list \<Rightarrow> string list \<Rightarrow> service_error + remote_provider list" where
  "declared_remote_providers declared asset_destinations =
     bindR (declare_providers asset_destinations [] declared) (\<lambda>seen.
       Inr (map (\<lambda>(d, u). \<lparr>rp_destination = d, rp_url = u\<rparr>) seen))"

fun gather_assets ::
  "authenticated_owner \<Rightarrow> path option \<Rightarrow> runtime_asset list \<Rightarrow> string list \<Rightarrow>
   (world, service_error, asset_source list \<times> string list) op" where
  "gather_assets owner root [] seen = okE ([], seen)"
| "gather_assets owner root (a # as) seen =
     bindE (validate_source owner root (ra_source a)) (\<lambda>source.
     bindE (liftE (bindR (validate_destination (ra_destination a)) destination_key)) (\<lambda>destination.
     bindE (mapErrE (\<lambda>_. invalid_asset ''failed to inspect runtime asset'') (client_metadata (path_text source)))
       (\<lambda>metadata.
       if destination \<in> set seen
       then failE (invalid_asset ''runtime destination is declared as a copied asset twice'')
       else bindE (gather_assets owner root as (destination # seen)) (\<lambda>(sources, keys).
         okE (\<lparr>as_asset = \<lparr>ra_source = path_text source, ra_destination = destination\<rparr>,
                as_len = nd_len metadata, as_mtime_ns = nd_mtime metadata\<rparr> # sources, keys)))))"

definition gather_bundle ::
  "params \<Rightarrow> authenticated_owner \<Rightarrow> runtime_bundle \<Rightarrow> path \<Rightarrow>
   (world, service_error, asset_source list \<times> remote_provider list) op" where
  "gather_bundle E owner bundle core_path =
     bindE (gather_assets owner (application_bundle_root E core_path) (rb_assets bundle) []) (\<lambda>(sources, keys).
     bindE (liftE (declared_remote_providers (rb_remote_providers bundle) keys)) (\<lambda>remote.
       okE (sources, remote)))"

section \<open>File operations\<close>

definition client_read :: "string \<Rightarrow> node io" where
  "client_read s = syscall (\<lambda>w.
     (case resolve (client_view w) 40 (cwd w) (components s) of
        None \<Rightarrow> (Inl NotFound, w)
      | Some p \<Rightarrow>
          (case client_view w p of
             None \<Rightarrow> (Inl NotFound, w)
           | Some n \<Rightarrow> if nd_kind n = RegularFile then (Inr n, w) else (Inl OtherIo, w))))"

text \<open>\<open>tokio::fs::copy\<close>: reads the source, creates the destination, writes it, and gives it the mode.\<close>

definition fs_copy :: "string \<Rightarrow> path \<Rightarrow> unit io" where
  "fs_copy source p =
     bindE (client_read source) (\<lambda>n.
     bindE (fs_create p) (\<lambda>_.
     bindE (fs_write_all p (nd_data n)) (\<lambda>_.
       fchmod p (nd_mode n))))"

text \<open>The delays in milliseconds; outside Windows nothing is retried.\<close>

definition WINDOWS_RUNTIME_RETRY_DELAYS :: "nat list" where
  "WINDOWS_RUNTIME_RETRY_DELAYS = [25, 50, 100, 200, 400, 800]"

definition runtime_cleanup_retry_delay :: "params \<Rightarrow> io_kind \<Rightarrow> nat \<Rightarrow> nat option" where
  "runtime_cleanup_retry_delay E k retry_index =
     (if os (bd E) = Windows \<and> k = HeldOpen \<and> retry_index < length WINDOWS_RUNTIME_RETRY_DELAYS
      then Some (WINDOWS_RUNTIME_RETRY_DELAYS ! retry_index) else None)"

function while_the_core_lets_go :: "params \<Rightarrow> unit io \<Rightarrow> nat \<Rightarrow> unit io" where
  "while_the_core_lets_go E operation i w =
     (case operation w of
        (Inr u, v) \<Rightarrow> (Inr u, v)
      | (Inl k, v) \<Rightarrow>
          (case runtime_cleanup_retry_delay E k i of
             None \<Rightarrow> (Inl k, v)
           | Some delay \<Rightarrow> while_the_core_lets_go E operation (Suc i) v))"
  by pat_completeness auto

termination
  by (relation "measure (\<lambda>(E, operation, i, w). length WINDOWS_RUNTIME_RETRY_DELAYS - i)")
    (auto simp: runtime_cleanup_retry_delay_def split: if_splits)

declare while_the_core_lets_go.simps [simp del]

definition remove_staged_file :: "params \<Rightarrow> path \<Rightarrow> unit io" where
  "remove_staged_file E p =
     while_the_core_lets_go E
       (tryE (fs_remove_file p) (\<lambda>r. liftE (if r = Inl NotFound then Inr () else r))) 0"

definition replace_staged_file :: "params \<Rightarrow> path \<Rightarrow> path \<Rightarrow> unit io" where
  "replace_staged_file E staged destination =
     tryE (while_the_core_lets_go E (atomic_replace staged destination) 0) (\<lambda>r.
       (case r of
          Inr u \<Rightarrow> okE u
        | Inl k \<Rightarrow> tryE (fs_remove_file staged) (\<lambda>_. failE k)))"

definition staging_temp_path :: "path \<Rightarrow> path io" where
  "staging_temp_path destination w =
     (Inr (with_file_name destination
        (staging_temp_name (if destination = [] then ''staged'' else last destination)
           (self_pid w) (staging_temp_sequence w))),
      w\<lparr>staging_temp_sequence := staging_temp_sequence w + 1\<rparr>)"

definition copy_staged_file :: "params \<Rightarrow> string \<Rightarrow> path \<Rightarrow> unit io" where
  "copy_staged_file E source destination =
     bindE (case path_parent destination of None \<Rightarrow> okE () | Some parent \<Rightarrow> fs_create_dir_all parent) (\<lambda>_.
     bindE (staging_temp_path destination) (\<lambda>staged.
     tryE (fs_copy source staged) (\<lambda>r.
       (case r of
          Inl k \<Rightarrow> tryE (fs_remove_file staged) (\<lambda>_. failE k)
        | Inr _ \<Rightarrow> replace_staged_file E staged destination))))"

definition write_temp :: "path \<Rightarrow> content \<Rightarrow> unit io" where
  "write_temp staged c =
     bindE (fs_create staged) (\<lambda>_. bindE (fs_write_all staged c) (\<lambda>_. fs_sync))"

definition write_atomically :: "params \<Rightarrow> path \<Rightarrow> content \<Rightarrow> unit io" where
  "write_atomically E destination c =
     bindE (staging_temp_path destination) (\<lambda>staged.
     tryE (write_temp staged c) (\<lambda>r.
       (case r of
          Inl k \<Rightarrow> tryE (fs_remove_file staged) (\<lambda>_. failE k)
        | Inr _ \<Rightarrow> replace_staged_file E staged destination)))"

definition commit_staged_config :: "params \<Rightarrow> path \<Rightarrow> path \<Rightarrow> string \<Rightarrow> runtime_manifest \<Rightarrow> unit io" where
  "commit_staged_config E generation config_path yaml manifest =
     bindE (write_atomically E (generation @ [MANIFEST_FILE_NAME]) (JsonText (ser_manifest manifest))) (\<lambda>_.
       write_atomically E config_path (Bytes yaml))"

definition source_identity_changed :: "string \<Rightarrow> source_identity \<Rightarrow> (world, 'e, bool) op" where
  "source_identity_changed source recorded =
     tryE (client_metadata source) (\<lambda>r.
       okE (case r of
              Inl _ \<Rightarrow> True
            | Inr n \<Rightarrow> nd_len n \<noteq> sid_len recorded \<or> nd_mtime n \<noteq> sid_mtime_ns recorded))"

definition read_manifest :: "path \<Rightarrow> (world, string, runtime_manifest) op" where
  "read_manifest generation =
     tryE (fs_read (generation @ [MANIFEST_FILE_NAME])) (\<lambda>r.
       (case r of
          Inr c \<Rightarrow> liftE (ok_or ''runtime manifest is unreadable'' (Option.bind (content_json c) de_manifest))
        | Inl k \<Rightarrow> if k = NotFound then okE default_manifest
                  else failE (''runtime manifest cannot be read: '' @ io_text k)))"

section \<open>Carrying a plan out\<close>

definition discard_stale_caches :: "params \<Rightarrow> path \<Rightarrow> string list \<Rightarrow> (world, service_error, unit) op" where
  "discard_stale_caches E runtime destinations =
     eachE (\<lambda>d. bindE (liftE (resolve_in_generation runtime d)) (\<lambda>target.
       mapErrE (\<lambda>k. invalid_asset (''failed to discard the stale cache: '' @ io_text k))
         (remove_staged_file E target))) destinations"

fun write_assets ::
  "params \<Rightarrow> path \<Rightarrow> planned_copy list \<Rightarrow> runtime_manifest \<Rightarrow> (world, service_error, runtime_manifest) op" where
  "write_assets E runtime [] manifest = okE manifest"
| "write_assets E runtime (c # cs) manifest =
     bindE (liftE (resolve_in_generation runtime (pc_destination c))) (\<lambda>target.
     bindE (mapErrE (\<lambda>k. invalid_asset (''failed to write the runtime asset: '' @ io_text k))
              (copy_staged_file E (pc_source c) target)) (\<lambda>_.
     bindE (source_identity_changed (pc_source c) (pc_identity c)) (\<lambda>changed.
       write_assets E runtime cs
         (if changed then manifest\<lparr>rm_assets := bt_remove (pc_destination c) (rm_assets manifest)\<rparr>
          else manifest))))"

definition sweep_obsolete :: "params \<Rightarrow> path \<Rightarrow> string list \<Rightarrow> (world, service_error, unit) op" where
  "sweep_obsolete E runtime destinations =
     eachE (\<lambda>d. (case resolve_in_generation runtime d of
         Inr target \<Rightarrow> tryE (remove_staged_file E target) (\<lambda>_. okE ())
       | Inl _ \<Rightarrow> okE ())) destinations"

definition materialize_plan :: "params \<Rightarrow> path \<Rightarrow> stage_plan \<Rightarrow> string \<Rightarrow> (world, service_error, unit) op" where
  "materialize_plan E runtime plan yaml =
     bindE (discard_stale_caches E runtime (sp_required_deletes plan)) (\<lambda>_.
     bindE (write_assets E runtime (sp_copies plan) (sp_manifest plan)) (\<lambda>manifest.
     tryE (commit_staged_config E runtime (runtime @ [RUNTIME_CONFIG_FILE_NAME]) yaml manifest) (\<lambda>r.
       (case r of
          Inl k \<Rightarrow>
            tryE (remove_staged_file E (runtime @ [MANIFEST_FILE_NAME])) (\<lambda>_.
              failE (invalid_asset (''failed to commit the runtime configuration: '' @ io_text k)))
        | Inr _ \<Rightarrow> sweep_obsolete E runtime (sp_hygiene_deletes plan)))))"

section \<open>What a plan contains\<close>

lemma fold_sources:
  "sp_required_deletes (foldl (plan_source previous) plan ss) = sp_required_deletes plan"
  "sp_copies (foldl (plan_source previous) plan ss) = sp_copies plan @
     map (\<lambda>s. \<lparr>pc_source = ra_source (as_asset s), pc_destination = ra_destination (as_asset s),
              pc_identity = identity_of s\<rparr>) (filter (\<lambda>s. \<not> up_to_date previous s) ss)"
  "sp_skipped (foldl (plan_source previous) plan ss) = sp_skipped plan @
     map (\<lambda>s. ra_destination (as_asset s)) (filter (up_to_date previous) ss)"
  "rm_remote_providers (sp_manifest (foldl (plan_source previous) plan ss)) = rm_remote_providers (sp_manifest plan)"
  "fst ` set (rm_assets (sp_manifest (foldl (plan_source previous) plan ss))) =
     fst ` set (rm_assets (sp_manifest plan)) \<union> (ra_destination \<circ> as_asset) ` set ss"
  by (induction ss arbitrary: plan) (auto simp: plan_source_def Let_def)

lemma fold_remote:
  "sp_required_deletes (foldl (plan_remote previous) plan ps) = sp_required_deletes plan @
     map rp_destination (filter (\<lambda>p. map_of (rm_remote_providers previous) (rp_destination p) \<noteq> Some (rp_url p)) ps)"
  "sp_copies (foldl (plan_remote previous) plan ps) = sp_copies plan"
  "sp_skipped (foldl (plan_remote previous) plan ps) = sp_skipped plan"
  "rm_assets (sp_manifest (foldl (plan_remote previous) plan ps)) = rm_assets (sp_manifest plan)"
  "fst ` set (rm_remote_providers (sp_manifest (foldl (plan_remote previous) plan ps))) =
     fst ` set (rm_remote_providers (sp_manifest plan)) \<union> rp_destination ` set ps"
  by (induction ps arbitrary: plan) (auto simp: plan_remote_def Let_def)

lemma plan_stage_fields:
  "sp_required_deletes (plan_stage previous sources remote) =
     map rp_destination (filter (\<lambda>p. map_of (rm_remote_providers previous) (rp_destination p) \<noteq> Some (rp_url p)) remote)"
  "sp_copies (plan_stage previous sources remote) =
     map (\<lambda>s. \<lparr>pc_source = ra_source (as_asset s), pc_destination = ra_destination (as_asset s),
              pc_identity = identity_of s\<rparr>) (filter (\<lambda>s. \<not> up_to_date previous s) sources)"
  "sp_skipped (plan_stage previous sources remote) =
     map (\<lambda>s. ra_destination (as_asset s)) (filter (up_to_date previous) sources)"
  "fst ` set (rm_assets (sp_manifest (plan_stage previous sources remote))) = (ra_destination \<circ> as_asset) ` set sources"
  "fst ` set (rm_remote_providers (sp_manifest (plan_stage previous sources remote))) = rp_destination ` set remote"
  by (simp_all add: plan_stage_def Let_def fold_remote fold_sources empty_plan_def default_manifest_def)

lemma plan_stage_hygiene:
  "set (sp_hygiene_deletes (plan_stage previous sources remote)) =
     (fst ` set (rm_assets previous) \<union> fst ` set (rm_remote_providers previous)) -
     ((ra_destination \<circ> as_asset) ` set sources \<union> rp_destination ` set remote)"
  by (auto simp: plan_stage_def Let_def fold_remote fold_sources empty_plan_def default_manifest_def bt_keys_def)



section \<open>The manifest survives its file\<close>

lemma de_ser_source [serde_simps]: "de_source (ser_source i) = Some i"
  by (simp add: de_source_def ser_source_def serde_members de_option_ser_option)

lemma de_ser_tree:
  assumes "\<And>x. d (s x) = Some x" "bt_wf m"
  shows "de_tree d (ser_tree s m) = Some m"
  by (simp add: de_tree_def ser_tree_def de_members_map assms of_sorted)

text \<open>
  The manifest of a plan survives its file: what \<open>plan_stage\<close> records is a sorted map on both
  sides and decodes to itself, so the next run trusts exactly what this one recorded; an empty
  object decodes to the manifest that records nothing.
\<close>

lemma manifest_roundtrip:
  "de_manifest (ser_manifest (sp_manifest (plan_stage previous sources remote))) =
     Some (sp_manifest (plan_stage previous sources remote)) \<and>
   de_manifest (JObj []) = Some default_manifest"
proof -
  have a: "bt_wf (rm_assets (sp_manifest plan)) \<Longrightarrow>
      bt_wf (rm_assets (sp_manifest (foldl (plan_source previous) plan ss)))" for plan ss
    by (induction ss arbitrary: plan) (auto simp: plan_source_def Let_def)
  have r: "bt_wf (rm_remote_providers (sp_manifest plan)) \<Longrightarrow>
      bt_wf (rm_remote_providers (sp_manifest (foldl (plan_remote previous) plan ps)))" for plan ps
    by (induction ps arbitrary: plan) (auto simp: plan_remote_def Let_def)
  let ?m = "sp_manifest (plan_stage previous sources remote)"
  have "bt_wf (rm_assets ?m)" "bt_wf (rm_remote_providers ?m)"
    using a r by (simp_all add: plan_stage_def Let_def fold_remote fold_sources empty_plan_def default_manifest_def)
  then show ?thesis
    by (simp add: de_manifest_def ser_manifest_def serde_members de_ser_tree serde_simps default_manifest_def)
qed

end
