(* ===== verification/Materialize.thy ===== *)
theory Materialize
  imports Staging
begin

text \<open>
  What carrying out a staging plan does to the files of the runtime directory: the frame facts of the
  staging operations, and the properties that the configuration is committed last and that files the
  bundle and the manifest do not name survive.
\<close>

section \<open>Retries\<close>

lemma lets_go_keeps:
  assumes "keeps f operation"
  shows "keeps f (while_the_core_lets_go E operation i)"
proof -
  have "f (snd (while_the_core_lets_go E operation i w)) = f w" for w
    using assms
  proof (induction E operation i w rule: while_the_core_lets_go.induct)
    case (1 E operation i w)
    obtain r v where run: "operation w = (r, v)" by (cases "operation w")
    have fv: "f v = f w" using keepsD [OF 1(2) run] .
    show ?case
      using 1(1) [OF run [symmetric]] 1(2) run fv
      by (cases r) (auto simp: while_the_core_lets_go.simps [of E operation i w] split: option.splits)
  qed
  then show ?thesis by (simp add: keeps_def)
qed

lemma lets_go_preserves:
  assumes "preserves P operation"
  shows "preserves P (while_the_core_lets_go E operation i)"
proof -
  have "P w \<longrightarrow> P (snd (while_the_core_lets_go E operation i w))" for w
    using assms
  proof (induction E operation i w rule: while_the_core_lets_go.induct)
    case (1 E operation i w)
    obtain r v where run: "operation w = (r, v)" by (cases "operation w")
    have fv: "P w \<Longrightarrow> P v" using preservesD [OF 1(2) run] .
    show ?case
      using 1(1) [OF run [symmetric]] 1(2) run fv
      by (cases r) (auto simp: while_the_core_lets_go.simps [of E operation i w] split: option.splits)
  qed
  then show ?thesis by (simp add: preserves_def)
qed

text \<open>If failing attempts leave the files alone, the last attempt ran on the files of the first.\<close>

lemma lets_go_last:
  assumes "\<And>w k v. operation w = (Inl k, v) \<Longrightarrow> fs v = fs w"
    and "while_the_core_lets_go E operation i w = (r, v)"
  shows "\<exists>w'. fs w' = fs w \<and> operation w' = (r, v)"
  using assms
proof (induction E operation i w rule: while_the_core_lets_go.induct)
  case (1 E operation i w)
  obtain r1 v1 where run: "operation w = (r1, v1)" by (cases "operation w")
  show ?case
  proof (cases r1)
    case (Inr u)
    with run 1(3) show ?thesis by (auto simp: while_the_core_lets_go.simps [of E operation i w])
  next
    case (Inl k)
    show ?thesis
    proof (cases "runtime_cleanup_retry_delay E k i")
      case None
      with run Inl 1(3) show ?thesis by (auto simp: while_the_core_lets_go.simps [of E operation i w])
    next
      case (Some d)
      have again: "while_the_core_lets_go E operation (Suc i) v1 = (r, v)"
        using run Inl Some 1(3) by (simp add: while_the_core_lets_go.simps [of E operation i w])
      have "\<exists>w'. fs w' = fs v1 \<and> operation w' = (r, v)"
        by (rule 1(1) [OF run [symmetric] Inl Some _ again]) (rule 1(2))
      moreover have "fs v1 = fs w" using 1(2) [of w k v1] run Inl by simp
      ultimately show ?thesis by simp
    qed
  qed
qed

section \<open>Frames\<close>

lemma blind_client_read [blind]: "blind_to_files f \<Longrightarrow> keeps f (client_read s)"
  unfolding client_read_def
  by (rule blind_syscall) (simp_all add: keeps_def split: option.splits)

lemma client_ops_data [files]:
  "keeps (file_data q) (client_read s)" "keeps (file_data q) (client_metadata s)"
  "keeps (file_data q) (client_canonicalize s)" "keeps (file_data q) (client_symlink_metadata s)"
  unfolding client_read_def client_metadata_def client_canonicalize_def client_symlink_metadata_def Let_def
  by (intro file_data_other keeps_file_syscall; simp split: option.splits)+

definition blind_to_staging :: "(world \<Rightarrow> 'b) \<Rightarrow> bool" where
  "blind_to_staging f \<longleftrightarrow> blind_to_files f \<and> (\<forall>w n. f (w\<lparr>staging_temp_sequence := n\<rparr>) = f w)"

lemma blind_staging_fields [simp]:
  "blind_to_staging env" "blind_to_staging signals" "blind_to_staging children" "blind_to_staging dropped_children"
  "blind_to_staging detached_watchdogs" "blind_to_staging self_pid" "blind_to_staging euid" "blind_to_staging cwd"
  "blind_to_staging service_cell" "blind_to_staging core_cell" "blind_to_staging startup_reconciled" "blind_to_staging log_writer"
  "blind_to_staging core_logs" "blind_to_staging mgr" "blind_to_staging sys_proxy" "blind_to_staging pac_proxy"
  "blind_to_staging state_file_sequence"
  by (simp_all add: blind_to_staging_def)

lemma blind_staging_is_file: "blind_to_staging f \<Longrightarrow> blind_to_files f"
  by (simp add: blind_to_staging_def)

lemma blind_staging_ops [blind]:
  assumes f: "blind_to_staging f"
  shows "keeps f (remove_staged_file E p)" "keeps f (replace_staged_file E p q)"
    "keeps f (staging_temp_path p)" "keeps f (copy_staged_file E s p)" "keeps f (write_atomically E p c)"
    "keeps f (commit_staged_config E g p y m)" "keeps f (source_identity_changed s i)"
    "keeps f (read_manifest g)"
proof -
  note b = blind_staging_is_file [OF f]
  have t: "keeps f (staging_temp_path p)" for p
    using f by (simp add: keeps_def staging_temp_path_def blind_to_staging_def)
  show "keeps f (staging_temp_path p)" by (rule t)
  show "keeps f (remove_staged_file E p)"
    unfolding remove_staged_file_def by (intro lets_go_keeps frame blind b)
  have r: "keeps f (replace_staged_file E p q)" for p q
    unfolding replace_staged_file_def by (intro lets_go_keeps frame blind b)
  then show "keeps f (replace_staged_file E p q)" .
  show "keeps f (copy_staged_file E s p)"
    unfolding copy_staged_file_def fs_copy_def by (intro frame blind b t r)
  have w: "keeps f (write_atomically E p c)" for p c
    unfolding write_atomically_def write_temp_def by (intro frame blind b t r)
  then show "keeps f (write_atomically E p c)" .
  show "keeps f (commit_staged_config E g p y m)"
    unfolding commit_staged_config_def by (intro frame w)
  show "keeps f (source_identity_changed s i)"
    unfolding source_identity_changed_def by (intro frame client_ops_keep blind_tick b)
  show "keeps f (read_manifest g)"
    unfolding read_manifest_def by (intro frame blind b)
qed

text \<open>A plan is carried out by these operations alone, so a view blind to them is kept.\<close>

lemma blind_write_assets: "blind_to_staging f \<Longrightarrow> keeps f (write_assets E runtime cs m)"
  by (induction cs arbitrary: m) (auto intro!: frame blind)

lemma blind_materialize [blind]:
  assumes f: "blind_to_staging f"
  shows "keeps f (materialize_plan E runtime plan yaml)"
  unfolding materialize_plan_def discard_stale_caches_def sweep_obsolete_def
  by (intro frame blind f blind_write_assets)

section \<open>Files that stay\<close>

text \<open>A file that is there and whose contents stay the same.\<close>

definition holds :: "path \<Rightarrow> file_kind \<times> content \<Rightarrow> world \<Rightarrow> bool" where
  "holds q d w \<longleftrightarrow> file_data q w = Some d"

lemma holds_keeps: "keeps (file_data q) m \<Longrightarrow> preserves (holds q d) m"
  by (simp add: holds_def keeps_def preserves_def)

lemma holds_make_dirs: "preserves (holds q d) (make_dirs ps)"
proof (induction ps)
  case Nil
  show ?case by (simp add: preserves_okE)
next
  case (Cons p ps)
  have "preserves (holds q d) (syscall (\<lambda>w.
     if is_dir (fs w) p then (Inr (), w)
     else if fs w p \<noteq> None then (Inl AlreadyExists, w)
     else (Inr (), set_node p (Some (new_dir w)) w)))"
    by (auto simp: preserves_def syscall_def Let_def holds_def file_data_def set_node_def split: option.splits)
  with Cons show ?case
    by (simp add: preserves_bindE)
qed

lemma holds_create_dir_all: "preserves (holds q d) (fs_create_dir_all p)"
  by (simp add: fs_create_dir_all_def holds_make_dirs)

lemma staging_temp_run:
  "staging_temp_path p w = (Inr t, v) \<Longrightarrow>
   is_staging_temporary (last t) \<and> butlast t = butlast p \<and> fs v = fs w \<and> t \<noteq> []"
  by (auto simp: staging_temp_path_def with_file_name_def staging_name_reserved)

lemma keeps_staging_temp [files]: "keeps (file_data q) (staging_temp_path p)"
  by (simp add: keeps_def staging_temp_path_def file_data_def)

text \<open>No staging operation touches a file other than its target, unless it has a temporary's name.\<close>

definition untouchable :: "path \<Rightarrow> bool" where
  "untouchable q \<longleftrightarrow> \<not> is_staging_temporary (last q)"

lemma staging_temp_other:
  "untouchable q \<Longrightarrow> staging_temp_path p w = (Inr t, v) \<Longrightarrow> q \<noteq> t"
  using staging_temp_run [of p w t v] by (auto simp: untouchable_def)

lemma remove_staged_other [files]: "q \<noteq> p \<Longrightarrow> keeps (file_data q) (remove_staged_file E p)"
  unfolding remove_staged_file_def by (intro lets_go_keeps frame files)

lemma replace_staged_other [files]: "q \<noteq> p \<Longrightarrow> q \<noteq> p' \<Longrightarrow> keeps (file_data q) (replace_staged_file E p p')"
  unfolding replace_staged_file_def by (intro lets_go_keeps frame files)

lemma holds_copy_staged:
  assumes "q \<noteq> p" "untouchable q"
  shows "preserves (holds q d) (copy_staged_file E s p)"
  unfolding copy_staged_file_def
proof (rule preserves_bindE)
  show "preserves (holds q d) (case path_parent p of None \<Rightarrow> okE () | Some parent \<Rightarrow> fs_create_dir_all parent)"
    by (intro preserves_rules preserves_okE holds_create_dir_all)
  show "preserves (holds q d) (bindE (staging_temp_path p) (\<lambda>t. tryE (fs_copy s t) (\<lambda>r.
       (case r of Inl k \<Rightarrow> tryE (fs_remove_file t) (\<lambda>_. failE k) | Inr _ \<Rightarrow> replace_staged_file E t p))))"
  proof (rule preserves_bindE_val [where Q = "\<lambda>t. q \<noteq> t"])
    show "preserves (holds q d) (staging_temp_path p)" by (rule holds_keeps) (rule files)
    show "\<And>w t v. staging_temp_path p w = (Inr t, v) \<Longrightarrow> q \<noteq> t"
      using staging_temp_other [OF assms(2)] .
    show "\<And>t. q \<noteq> t \<Longrightarrow> preserves (holds q d) (tryE (fs_copy s t) (\<lambda>r.
       (case r of Inl k \<Rightarrow> tryE (fs_remove_file t) (\<lambda>_. failE k) | Inr _ \<Rightarrow> replace_staged_file E t p)))"
      unfolding fs_copy_def using assms(1) by (intro holds_keeps frame files)
  qed
qed

lemma holds_write_atomically:
  assumes "q \<noteq> p" "untouchable q"
  shows "preserves (holds q d) (write_atomically E p c)"
  unfolding write_atomically_def
proof (rule preserves_bindE_val [where Q = "\<lambda>t. q \<noteq> t"])
  show "preserves (holds q d) (staging_temp_path p)" by (rule holds_keeps) (rule files)
  show "\<And>w t v. staging_temp_path p w = (Inr t, v) \<Longrightarrow> q \<noteq> t"
    using staging_temp_other [OF assms(2)] .
  show "\<And>t. q \<noteq> t \<Longrightarrow> preserves (holds q d) (tryE (write_temp t c) (\<lambda>r.
       (case r of Inl k \<Rightarrow> tryE (fs_remove_file t) (\<lambda>_. failE k) | Inr _ \<Rightarrow> replace_staged_file E t p)))"
    unfolding write_temp_def using assms(1) by (intro holds_keeps frame files)
qed

section \<open>A write that succeeds\<close>

lemma atomic_replace_err: "atomic_replace p q w = (Inl k, v) \<Longrightarrow> fs v = fs w"
  unfolding atomic_replace_def by (rule rename_err)

lemma create_ok: "fs_create p w = (Inr u, v) \<Longrightarrow> \<exists>c. file_data p v = Some (RegularFile, c)"
  by (auto simp: fs_create_def syscall_Inr file_data_def new_file_def split: if_splits)

lemma write_temp_ok: "write_temp p c w = (Inr u, v) \<Longrightarrow> file_data p v = Some (RegularFile, c)"
proof -
  assume "write_temp p c w = (Inr u, v)"
  then obtain w1 w2 where 1: "fs_create p w = (Inr (), w1)" and 2: "fs_write_all p c w1 = (Inr (), w2)"
    and 3: "fs_sync w2 = (Inr u, v)"
    by (auto simp: write_temp_def bindE_Inr)
  have "file_data p v = file_data p w2" using keepsD [OF security_ops_data(8) 3] .
  with create_ok [OF 1] write_all_ok [OF 2] show ?thesis by auto
qed

lemma replace_staged_ok:
  assumes "replace_staged_file E s p w = (r, v)" "s \<noteq> p"
  shows "(r = Inr () \<and> file_data p v = file_data s w \<and> fs w s \<noteq> None) \<or> (r \<noteq> Inr () \<and> file_data p v = file_data p w)"
proof -
  obtain r1 w1 where 1: "while_the_core_lets_go E (atomic_replace s p) 0 w = (r1, w1)"
    by (cases "while_the_core_lets_go E (atomic_replace s p) 0 w")
  have "\<exists>w'. fs w' = fs w \<and> atomic_replace s p w' = (r1, w1)"
    by (rule lets_go_last [OF _ 1]) (rule atomic_replace_err)
  then obtain w' where w': "fs w' = fs w" "atomic_replace s p w' = (r1, w1)" by blast
  show ?thesis
  proof (cases r1)
    case (Inr u)
    with 1 assms(1) have "r = Inr ()" "v = w1" by (simp_all add: replace_staged_file_def tryE_eq okE_def)
    with rename_ok [of s p w' u w1] w' Inr show ?thesis by (simp add: atomic_replace_def file_data_def)
  next
    case (Inl k)
    with 1 assms(1) have r: "r = Inl k" "v = snd (fs_remove_file s w1)"
      by (simp_all add: replace_staged_file_def tryE_eq failE_def)
    have "fs w1 = fs w'" using w'(2) Inl atomic_replace_err by blast
    then have "file_data p w1 = file_data p w" using w'(1) by (simp add: file_data_def)
    moreover have "file_data p v = file_data p w1"
      unfolding r using assms(2) by (intro keeps_snd files) auto
    ultimately show ?thesis using r by simp
  qed
qed

lemma write_atomically_run:
  assumes run: "write_atomically E p c w = (r, v)" and p: "untouchable p"
  shows "(r = Inr () \<and> file_data p v = Some (RegularFile, c)) \<or> (r \<noteq> Inr () \<and> file_data p v = file_data p w)"
proof -
  obtain t w1 where 1: "staging_temp_path p w = (Inr t, w1)" by (auto simp: staging_temp_path_def)
  have ne: "p \<noteq> t" using staging_temp_other [OF p 1] .
  have d1: "file_data p w1 = file_data p w" using keepsD [OF keeps_staging_temp 1] .
  obtain r2 w2 where 2: "write_temp t c w1 = (r2, w2)" by (cases "write_temp t c w1")
  have "keeps (file_data p) (write_temp t c)" unfolding write_temp_def using ne by (intro frame files)
  from keepsD [OF this 2] d1 have d2: "file_data p w2 = file_data p w" by simp
  show ?thesis
  proof (cases r2)
    case (Inl k)
    with run 1 2 have r: "r = Inl k" "v = snd (fs_remove_file t w2)"
      by (simp_all add: write_atomically_def bindE_def tryE_eq failE_def)
    have "file_data p v = file_data p w2"
      unfolding r using ne by (intro keeps_snd files) auto
    with d2 r show ?thesis by simp
  next
    case (Inr u)
    with run 1 2 have "replace_staged_file E t p w2 = (r, v)"
      by (simp add: write_atomically_def bindE_def tryE_eq)
    from replace_staged_ok [OF this] ne d2 write_temp_ok [of t c w1 u w2] 2 Inr show ?thesis by auto
  qed
qed

section \<open>Runs of a plan\<close>

text \<open>The files a plan names.\<close>

definition plan_targets :: "path \<Rightarrow> stage_plan \<Rightarrow> path set" where
  "plan_targets runtime plan =
     {p. \<exists>d \<in> set (sp_required_deletes plan) \<union> pc_destination ` set (sp_copies plan) \<union>
              set (sp_hygiene_deletes plan). resolve_in_generation runtime d = Inr p}"

lemma holds_each:
  "(\<And>x. x \<in> set xs \<Longrightarrow> preserves P (f x)) \<Longrightarrow> preserves P (eachE f xs)"
  by (induction xs) (auto intro: preserves_bindE preserves_okE)

lemma holds_discard:
  assumes "\<And>d p. d \<in> set ds \<Longrightarrow> resolve_in_generation runtime d = Inr p \<Longrightarrow> q \<noteq> p"
  shows "preserves (holds q c) (discard_stale_caches E runtime ds)"
  unfolding discard_stale_caches_def
proof (rule holds_each)
  fix d assume d: "d \<in> set ds"
  show "preserves (holds q c) (bindE (liftE (resolve_in_generation runtime d)) (\<lambda>target.
       mapErrE (\<lambda>k. invalid_asset (''failed to discard the stale cache: '' @ io_text k))
         (remove_staged_file E target)))"
    by (rule preserves_bindE_val [where Q = "\<lambda>p. q \<noteq> p"])
      (auto intro: preserves_liftE preserves_mapErrE holds_keeps files simp: liftE_def assms [OF d])
qed

lemma holds_sweep:
  assumes "\<And>d p. d \<in> set ds \<Longrightarrow> resolve_in_generation runtime d = Inr p \<Longrightarrow> q \<noteq> p"
  shows "preserves (holds q c) (sweep_obsolete E runtime ds)"
  unfolding sweep_obsolete_def
proof (rule holds_each)
  fix d assume d: "d \<in> set ds"
  show "preserves (holds q c) (case resolve_in_generation runtime d of
         Inr target \<Rightarrow> tryE (remove_staged_file E target) (\<lambda>_. okE ())
       | Inl _ \<Rightarrow> okE ())"
    using assms [OF d]
    by (cases "resolve_in_generation runtime d") (auto intro!: holds_keeps frame files)
qed

lemma holds_write_assets:
  assumes "untouchable q"
    and "\<And>x p. x \<in> set cs \<Longrightarrow> resolve_in_generation runtime (pc_destination x) = Inr p \<Longrightarrow> q \<noteq> p"
  shows "preserves (holds q c) (write_assets E runtime cs m)"
  using assms(2)
proof (induction cs arbitrary: m)
  case Nil
  show ?case by (simp add: preserves_okE)
next
  case (Cons x xs)
  have changed: "preserves (holds q c) (source_identity_changed s i)" for s i
    unfolding source_identity_changed_def by (intro holds_keeps frame files)
  show ?case
    unfolding write_assets.simps
  proof (rule preserves_bindE_val [where Q = "\<lambda>p. q \<noteq> p"])
    show "preserves (holds q c) (liftE (resolve_in_generation runtime (pc_destination x)))"
      by (rule preserves_liftE)
    show "\<And>w p v. liftE (resolve_in_generation runtime (pc_destination x)) w = (Inr p, v) \<Longrightarrow> q \<noteq> p"
      using Cons.prems by (auto simp: liftE_def)
    show "\<And>p. q \<noteq> p \<Longrightarrow> preserves (holds q c)
       (bindE (mapErrE (\<lambda>k. invalid_asset (''failed to write the runtime asset: '' @ io_text k))
              (copy_staged_file E (pc_source x) p)) (\<lambda>_.
     bindE (source_identity_changed (pc_source x) (pc_identity x)) (\<lambda>ch.
       write_assets E runtime xs (if ch then m\<lparr>rm_assets := bt_remove (pc_destination x) (rm_assets m)\<rparr> else m))))"
      using Cons by (intro preserves_rules preserves_bindE preserves_mapErrE holds_copy_staged assms(1) changed) auto
  qed
qed

lemma sweep_ok: "fst (sweep_obsolete E runtime ds w) = Inr ()"
  unfolding sweep_obsolete_def
  by (induction ds arbitrary: w) (auto simp: okE_def bindE_def tryE_eq split: sum.splits prod.splits)

lemma reserved_names_untouchable [simp]:
  "untouchable (runtime @ [RUNTIME_CONFIG_FILE_NAME])" "untouchable (runtime @ [MANIFEST_FILE_NAME])"
  by (simp_all add: untouchable_def generation_names, code_simp+)

lemma config_not_manifest [simp]:
  "RUNTIME_CONFIG_FILE_NAME \<noteq> MANIFEST_FILE_NAME"
  by (simp add: generation_names)

lemma targets_not_reserved:
  "resolve_in_generation runtime d = Inr p \<Longrightarrow>
   runtime @ [RUNTIME_CONFIG_FILE_NAME] \<noteq> p \<and> runtime @ [MANIFEST_FILE_NAME] \<noteq> p"
  using resolve_Inr [of runtime d p] by auto

lemma commit_config_run:
  assumes "commit_staged_config E runtime (runtime @ [RUNTIME_CONFIG_FILE_NAME]) yaml m w = (r, v)"
    and "holds (runtime @ [RUNTIME_CONFIG_FILE_NAME]) d w \<or> r = Inr ()"
  shows "if r = Inr () then holds (runtime @ [RUNTIME_CONFIG_FILE_NAME]) (RegularFile, Bytes yaml) v
    else holds (runtime @ [RUNTIME_CONFIG_FILE_NAME]) d v"
proof -
  let ?cfg = "runtime @ [RUNTIME_CONFIG_FILE_NAME]"
  let ?wm = "write_atomically E (runtime @ [MANIFEST_FILE_NAME]) (JsonText (ser_manifest m))"
  obtain r1 w1 where 1: "?wm w = (r1, w1)" by (cases "?wm w")
  have keep: "preserves (holds ?cfg d) ?wm" by (intro holds_write_atomically) simp_all
  show ?thesis
  proof (cases r1)
    case (Inl k)
    with 1 assms(1) have "r = Inl k" "v = w1" by (auto simp: commit_staged_config_def bindE_def)
    with assms(2) preservesD [OF keep 1] show ?thesis by auto
  next
    case (Inr u)
    with 1 assms(1) have "write_atomically E ?cfg (Bytes yaml) w1 = (r, v)"
      by (auto simp: commit_staged_config_def bindE_def)
    from write_atomically_run [OF this] have
      "r = Inr () \<and> file_data ?cfg v = Some (RegularFile, Bytes yaml) \<or> r \<noteq> Inr () \<and> file_data ?cfg v = file_data ?cfg w1"
      by simp
    with assms(2) preservesD [OF keep 1] show ?thesis by (auto simp: holds_def)
  qed
qed

text \<open>
  C11. The configuration is committed last. When writing a runtime succeeds, \<open>config.yaml\<close> holds exactly
  the new configuration; when it fails, at whatever step and for whatever reason, the
  \<open>config.yaml\<close> that was there holds what it held.
\<close>

theorem materialize_commits_config_last:
  assumes "materialize_plan E runtime plan yaml w = (r, v)"
    and "file_data (runtime @ [RUNTIME_CONFIG_FILE_NAME]) w = Some d"
  shows "file_data (runtime @ [RUNTIME_CONFIG_FILE_NAME]) v =
    (if r = Inr () then Some (RegularFile, Bytes yaml) else Some d)"
proof -
  let ?cfg = "runtime @ [RUNTIME_CONFIG_FILE_NAME]"
  have h: "holds ?cfg d w" using assms(2) by (simp add: holds_def)
  note ne = targets_not_reserved [THEN conjunct1]
  let ?d = "discard_stale_caches E runtime (sp_required_deletes plan)"
  obtain r1 w1 where 1: "?d w = (r1, w1)" by (cases "?d w")
  have h1: "holds ?cfg d w1" using preservesD [OF holds_discard 1 h] ne by blast
  show ?thesis
  proof (cases r1)
    case (Inl e)
    with 1 assms(1) h1 show ?thesis by (auto simp: materialize_plan_def bindE_def holds_def)
  next
    case r1: (Inr u)
    let ?a = "write_assets E runtime (sp_copies plan) (sp_manifest plan)"
    obtain r2 w2 where 2: "?a w1 = (r2, w2)" by (cases "?a w1")
    have h2: "holds ?cfg d w2" using preservesD [OF holds_write_assets 2 h1] ne by simp
    show ?thesis
    proof (cases r2)
      case (Inl e)
      with 1 2 r1 assms(1) h2 show ?thesis by (auto simp: materialize_plan_def bindE_def holds_def)
    next
      case r2: (Inr m)
      let ?c = "commit_staged_config E runtime ?cfg yaml m"
      obtain r3 w3 where 3: "?c w2 = (r3, w3)" by (cases "?c w2")
      note h3 = commit_config_run [OF 3, of d]
      show ?thesis
      proof (cases r3)
        case (Inl k)
        with 1 2 3 r1 r2 assms(1) have r: "r \<noteq> Inr ()"
          and v: "v = snd (remove_staged_file E (runtime @ [MANIFEST_FILE_NAME]) w3)"
          by (auto simp: materialize_plan_def bindE_def tryE_eq failE_def)
        have "file_data ?cfg v = file_data ?cfg w3" unfolding v by (intro keeps_snd files) simp
        with h3 h2 Inl r show ?thesis by (auto simp: holds_def)
      next
        case (Inr u')
        with 1 2 3 r1 r2 assms(1) have s: "sweep_obsolete E runtime (sp_hygiene_deletes plan) w3 = (r, v)"
          by (auto simp: materialize_plan_def bindE_def tryE_eq)
        then have "r = Inr ()" using sweep_ok by (metis fst_conv)
        moreover from h3 Inr have "holds ?cfg (RegularFile, Bytes yaml) w3" by simp
        then have "holds ?cfg (RegularFile, Bytes yaml) v"
          using preservesD [OF holds_sweep s] ne by blast
        ultimately show ?thesis by (simp add: holds_def)
      qed
    qed
  qed
qed

text \<open>
  C12. Files of the running core survive. Whatever a plan does and however it fails, a file that neither
  the bundle nor the manifest names, such as the core's own cache, keeps its contents.
\<close>

theorem materialize_keeps_unknown_files:
  assumes "materialize_plan E runtime plan yaml w = (r, v)" and "file_data q w = Some d"
    and "q \<notin> plan_targets runtime plan" and "\<not> is_staging_temporary (last q)"
    and "q \<noteq> runtime @ [RUNTIME_CONFIG_FILE_NAME]" and "q \<noteq> runtime @ [MANIFEST_FILE_NAME]"
  shows "file_data q v = Some d"
proof -
  have u: "untouchable q" using assms(4) by (simp add: untouchable_def)
  have t: "\<And>x p. x \<in> set (sp_required_deletes plan) \<union> pc_destination ` set (sp_copies plan) \<union>
      set (sp_hygiene_deletes plan) \<Longrightarrow> resolve_in_generation runtime x = Inr p \<Longrightarrow> q \<noteq> p"
    using assms(3) by (auto simp: plan_targets_def)
  have commit: "preserves (holds q d) (commit_staged_config E runtime (runtime @ [RUNTIME_CONFIG_FILE_NAME]) yaml m)" for m
    unfolding commit_staged_config_def
    by (intro preserves_bindE holds_write_atomically u assms(5,6))
  have remove: "preserves (holds q d) (tryE (remove_staged_file E (runtime @ [MANIFEST_FILE_NAME])) (\<lambda>_. failE e))" for e
    by (intro holds_keeps frame files assms(6))
  have "preserves (holds q d) (materialize_plan E runtime plan yaml)"
    unfolding materialize_plan_def
    by (intro preserves_bindE preserves_tryE preserves_rules commit remove holds_discard holds_sweep
        holds_write_assets u; rule t; auto)
  from preservesD [OF this assms(1)] assms(2) show ?thesis by (simp add: holds_def)
qed

text \<open>A run for the witnesses: one fresh asset over an old configuration.\<close>

definition sample_runtime_world :: world where
  "sample_runtime_world =
     (calm_world [[''r''] \<mapsto> directory_node 0, [''r'', ''config.yaml''] \<mapsto> file_node 0 (Bytes ''old''),
                  [''r'', ''cache.db''] \<mapsto> file_node 0 (Bytes ''core'')])
       \<lparr>env := calm_env\<lparr>ev_client := \<lambda>_. [[''a''] \<mapsto> file_node 501 (Bytes ''x'')]\<rparr>\<rparr>"

definition sample_plan :: stage_plan where
  "sample_plan = plan_stage default_manifest
     [\<lparr>as_asset = \<lparr>ra_source = ''/a'', ra_destination = ''geo''\<rparr>, as_len = 0, as_mtime_ns = None\<rparr>] []"

lemma sample_plan_targets: "q \<noteq> [''r'', ''geo''] \<Longrightarrow> q \<notin> plan_targets [''r''] sample_plan"
proof -
  have "resolve_in_generation [''r''] ''geo'' = Inr [''r'', ''geo'']" by code_simp
  moreover have "sp_required_deletes sample_plan = []" "sp_hygiene_deletes sample_plan = []"
    "map pc_destination (sp_copies sample_plan) = [''geo'']" by code_simp+
  ultimately show "q \<noteq> [''r'', ''geo''] \<Longrightarrow> q \<notin> plan_targets [''r''] sample_plan"
    by (auto simp: plan_targets_def simp flip: set_map)
qed

theorem materialize_commits_config_last_witness:
  "file_data [''r'', ''config.yaml''] (snd (materialize_plan plain_params [''r''] sample_plan ''new'' sample_runtime_world))
     \<in> {Some (RegularFile, Bytes ''new''), Some (RegularFile, Bytes ''old'')}"
proof -
  have "file_data ([''r''] @ [RUNTIME_CONFIG_FILE_NAME]) sample_runtime_world = Some (RegularFile, Bytes ''old'')"
    by (simp add: sample_runtime_world_def calm_world_def file_data_def generation_names file_node_def)
  from materialize_commits_config_last [OF surjective_pairing this, of plain_params sample_plan "''new''"]
  show ?thesis by (simp add: generation_names split: if_splits)
qed

theorem materialize_keeps_unknown_files_witness:
  "file_data [''r'', ''cache.db''] (snd (materialize_plan plain_params [''r''] sample_plan ''new'' sample_runtime_world))
     = Some (RegularFile, Bytes ''core'')"
proof (rule materialize_keeps_unknown_files [OF surjective_pairing])
  show "file_data [''r'', ''cache.db''] sample_runtime_world = Some (RegularFile, Bytes ''core'')"
    by (simp add: sample_runtime_world_def calm_world_def file_data_def file_node_def)
  show "[''r'', ''cache.db''] \<notin> plan_targets [''r''] sample_plan"
    by (rule sample_plan_targets) simp
  show "\<not> is_staging_temporary (last [''r'', ''cache.db''])" by code_simp
qed (simp_all add: generation_names)

end
