(* ===== verification/Generation.thy ===== *)
theory Generation
  imports Materialize Maintenance
begin

text \<open>
  The runtime generation of an owner (\<open>prepare_runtime\<close>, \<open>PreparedRuntime\<close> in
  \<open>src/core/runtime_generation/assets.rs\<close>): the directories a core start needs, the plan of the
  refresh, and the retirement of the directories of the old per-start layout. Planning and writing are
  two operations, since the running core still holds the files while a start is planned.
\<close>

section \<open>Directories\<close>

definition set_private_directory_permissions :: "path \<Rightarrow> (world, service_error, unit) op" where
  "set_private_directory_permissions p =
     mapErrE (\<lambda>k. invalid_asset (''failed to secure owner directory: '' @ io_text k)) (fchmod p 448)"

definition ensure_runtime_generation :: "path \<Rightarrow> (world, service_error, path) op" where
  "ensure_runtime_generation owner_root =
     (let runtime = owner_root @ [RUNTIME_GENERATION_DIRECTORY_NAME] in
      bindE (mapErrE (\<lambda>k. invalid_asset (''failed to create runtime generation: '' @ io_text k))
               (fs_create_dir_all runtime)) (\<lambda>_.
      bindE (set_private_directory_permissions runtime) (\<lambda>_.
        okE runtime)))"

text \<open>The file type bits of the mode are the kind of the node.\<close>

definition owner_ipc_directory_is_usable :: "bool \<Rightarrow> file_kind \<Rightarrow> u32 \<Rightarrow> u32 \<Rightarrow> bool \<Rightarrow> bool" where
  "owner_ipc_directory_is_usable inspected kind directory_uid uid process_owned \<longleftrightarrow>
     inspected \<and> kind = Directory \<and>
     (directory_uid = 0 \<or> directory_uid = uid \<or> process_owned)"

text \<open>The two permission calls: the directory is handed to root only by a service that runs as root.\<close>

definition take_ipc_directory :: "path \<Rightarrow> (world, service_error, unit) op" where
  "take_ipc_directory directory =
     bindE (get euid) (\<lambda>effective_uid.
     tryE (if effective_uid \<noteq> 0 then okE () else fchown_root directory) (\<lambda>chown_ok.
     tryE (fchmod directory 448) (\<lambda>chmod_ok.
       if is_ok chown_ok \<and> is_ok chmod_ok then okE ()
       else failE (invalid_asset ''failed to secure owner IPC directory''))))"

definition claim_ipc_directory :: "owner_identity \<Rightarrow> path \<Rightarrow> (world, service_error, unit) op" where
  "claim_ipc_directory identity directory =
     bindE (mapErrE (\<lambda>k. invalid_asset (''failed to open owner IPC directory: '' @ io_text k))
              (open_directory directory)) (\<lambda>_.
       (case identity of
          WindowsOwner sid \<Rightarrow> failE (invalid_asset ''Unix IPC directory requires a Unix owner'')
        | UnixOwner uid gid \<Rightarrow>
            tryE (fstat directory) (\<lambda>st.
              if owner_ipc_directory_is_usable (is_ok st)
                   (case st of Inr n \<Rightarrow> nd_kind n | Inl _ \<Rightarrow> SpecialFile)
                   (case st of Inr n \<Rightarrow> nd_uid n | Inl _ \<Rightarrow> 0) uid False
              then take_ipc_directory directory
              else failE (invalid_asset ''owner IPC directory has an unexpected owner or file type''))))"

definition prepare_owner_ipc_directory :: "params \<Rightarrow> authenticated_owner \<Rightarrow> (world, service_error, unit) op" where
  "prepare_owner_ipc_directory E owner =
     (case path_parent (abs_path (mihomo_ipc_path (sha256 E) (bd E) (au_identity owner))) of
        None \<Rightarrow> failE (invalid_asset ''owner IPC path has no parent directory'')
      | Some directory \<Rightarrow>
          (case path_parent directory of
             None \<Rightarrow> failE (invalid_asset ''owner IPC directory has no users root'')
           | Some users_directory \<Rightarrow>
               bindE (mapErrE (\<lambda>e. invalid_asset (''failed to secure IPC users directory: '' @ show_err e))
                        (ensure_service_directory users_directory 493)) (\<lambda>_.
               tryE (fs_create_dir directory) (\<lambda>r.
                 if r = Inr () \<or> r = Inl AlreadyExists then claim_ipc_directory (au_identity owner) directory
                 else failE (invalid_asset ''failed to create owner IPC directory'')))))"

section \<open>Directories of the old layout\<close>

definition is_runtime_directory_name :: "string \<Rightarrow> bool" where
  "is_runtime_directory_name name \<longleftrightarrow>
     name = ''runtime'' \<or> name = ''runtime.backup'' \<or>
     starts_with ''runtime.generation-'' name \<or> starts_with ''runtime.staging-'' name"

text \<open>The entries are read one by one; an error ends the walk with what was found.\<close>

fun stale_entries :: "path \<Rightarrow> path \<Rightarrow> string list \<Rightarrow> path list \<Rightarrow> (world, service_error, path list) op" where
  "stale_entries owner_root active_runtime [] stale = okE stale"
| "stale_entries owner_root active_runtime (name # names) stale =
     tryE (syscall (\<lambda>w. (Inr (), w))) (\<lambda>r.
       (case r of
          Inl k \<Rightarrow> okE stale
        | Inr _ \<Rightarrow>
            stale_entries owner_root active_runtime names
              (if owner_root @ [name] = active_runtime \<or> \<not> is_runtime_directory_name name then stale
               else stale @ [owner_root @ [name]])))"

definition snapshot_stale_runtime_directories :: "path \<Rightarrow> path \<Rightarrow> (world, service_error, path list) op" where
  "snapshot_stale_runtime_directories owner_root active_runtime =
     tryE (fs_read_dir owner_root) (\<lambda>entries.
       (case entries of
          Inl k \<Rightarrow> okE []
        | Inr names \<Rightarrow> stale_entries owner_root active_runtime names []))"

function remove_runtime_directory :: "params \<Rightarrow> path \<Rightarrow> nat \<Rightarrow> unit io" where
  "remove_runtime_directory E p retry_index w =
     (case fs_remove_dir_all p w of
        (Inr u, v) \<Rightarrow> (Inr (), v)
      | (Inl k, v) \<Rightarrow>
          if k = NotFound then (Inr (), v)
          else
            (case runtime_cleanup_retry_delay E k retry_index of
               None \<Rightarrow> (Inl k, v)
             | Some delay \<Rightarrow> remove_runtime_directory E p (Suc retry_index) v))"
  by pat_completeness auto

termination
  by (relation "measure (\<lambda>(E, p, i, w). length WINDOWS_RUNTIME_RETRY_DELAYS - i)")
    (auto simp: runtime_cleanup_retry_delay_def split: if_splits)

declare remove_runtime_directory.simps [simp del]

text \<open>A failing removal looks at what is left, for the log.\<close>

definition inspect_path :: "path \<Rightarrow> (world, service_error, string) op" where
  "inspect_path p =
     tryE (lstat p) (\<lambda>r. okE (case r of
        Inl k \<Rightarrow> if k = NotFound then ''missing'' else ''inaccessible: '' @ io_text k
      | Inr n \<Rightarrow>
          (case nd_kind n of
             Symlink \<Rightarrow> ''symlink'' | Directory \<Rightarrow> ''directory'' | RegularFile \<Rightarrow> ''file'' | _ \<Rightarrow> ''other'')))"

definition cleanup_stale_runtime_directories :: "params \<Rightarrow> path list \<Rightarrow> (world, service_error, unit) op" where
  "cleanup_stale_runtime_directories E stale_paths =
     eachE (\<lambda>p. tryE (remove_runtime_directory E p 0) (\<lambda>r.
       (case r of
          Inr _ \<Rightarrow> okE ()
        | Inl k \<Rightarrow> bindE (inspect_path p) (\<lambda>_. okE ())))) stale_paths"

section \<open>Preparing a start\<close>

record prepared_runtime =
  pr_clash_config :: clash_config
  pr_runtime :: path
  pr_stale_runtime_paths :: "path list"
  pr_plan :: stage_plan
  pr_yaml :: string

definition materialize :: "params \<Rightarrow> prepared_runtime \<Rightarrow> (world, service_error, unit) op" where
  "materialize E prepared = materialize_plan E (pr_runtime prepared) (pr_plan prepared) (pr_yaml prepared)"

text \<open>The removal runs in a task of its own; the model runs it to its end.\<close>

definition commit_prepared :: "params \<Rightarrow> prepared_runtime \<Rightarrow> (world, service_error, unit) op" where
  "commit_prepared E prepared =
     (if pr_stale_runtime_paths prepared = [] then okE ()
      else cleanup_stale_runtime_directories E (pr_stale_runtime_paths prepared))"

definition plan_runtime_refresh ::
  "params \<Rightarrow> authenticated_owner \<Rightarrow> runtime_bundle \<Rightarrow> path \<Rightarrow> path \<Rightarrow> (world, service_error, stage_plan) op" where
  "plan_runtime_refresh E owner bundle core_path runtime =
     bindE (gather_bundle E owner bundle core_path) (\<lambda>(sources, remote).
     tryE (read_manifest runtime) (\<lambda>r.
       okE (plan_stage (case r of Inr m \<Rightarrow> m | Inl detail \<Rightarrow> default_manifest) sources remote)))"

definition prepared_config :: "params \<Rightarrow> authenticated_owner \<Rightarrow> path \<Rightarrow> path \<Rightarrow> path \<Rightarrow> clash_config" where
  "prepared_config E owner core_path logs runtime =
     \<lparr>clash_core =
        \<lparr>cc_core_path = path_text core_path,
         cc_core_ipc_path = mihomo_ipc_path (sha256 E) (bd E) (au_identity owner),
         cc_config_path = path_text (runtime @ [RUNTIME_CONFIG_FILE_NAME]),
         cc_config_dir = path_text runtime\<rparr>,
      clash_log = default_writer_config\<lparr>wc_directory := path_text logs\<rparr>\<rparr>"

text \<open>What follows once the core is accepted and the owner's state directory is there.\<close>

definition prepare_in ::
  "params \<Rightarrow> authenticated_owner \<Rightarrow> runtime_bundle \<Rightarrow> path \<Rightarrow> owner_paths \<Rightarrow>
   (world, service_error, prepared_runtime) op" where
  "prepare_in E owner bundle core_path owner_root =
     bindE (mapErrE (\<lambda>e. invalid_asset (''failed to persist owner identity: '' @ show_err e))
              (persist_owner_identity (au_identity owner) owner_root)) (\<lambda>_.
     bindE (prepare_owner_ipc_directory E owner) (\<lambda>_.
     let logs = owner_logs_dir owner_root in
     bindE (mapErrE (\<lambda>k. invalid_asset (''failed to create owner log directory: '' @ io_text k))
              (fs_create_dir_all logs)) (\<lambda>_.
     bindE (set_private_directory_permissions logs) (\<lambda>_.
     bindE (ensure_runtime_generation owner_root) (\<lambda>runtime.
     bindE (plan_runtime_refresh E owner bundle core_path runtime) (\<lambda>plan.
     bindE (snapshot_stale_runtime_directories owner_root runtime) (\<lambda>stale.
       okE \<lparr>pr_clash_config = prepared_config E owner core_path logs runtime,
            pr_runtime = runtime,
            pr_stale_runtime_paths = stale,
            pr_plan = plan,
            pr_yaml = rb_yaml bundle\<rparr>)))))))"

definition prepare_runtime ::
  "params \<Rightarrow> authenticated_owner \<Rightarrow> runtime_bundle \<Rightarrow> (world, service_error, prepared_runtime) op" where
  "prepare_runtime E owner bundle =
     bindE (validate_core_path E owner (rb_core_path bundle)) (\<lambda>core_path.
     bindE (mapErrE (\<lambda>e. invalid_asset (''failed to secure owner state root: '' @ show_err e))
              (ensure_owner_state_directory E (au_identity owner))) (\<lambda>owner_root.
       prepare_in E owner bundle core_path owner_root))"

section \<open>Frames\<close>

lemma keeps_bindE_val:
  assumes "keeps f m" and "\<And>s x t. m s = (Inr x, t) \<Longrightarrow> Q x" and "\<And>x. Q x \<Longrightarrow> keeps f (k x)"
  shows "keeps f (bindE m k)"
  unfolding keeps_def
proof
  fix s
  have "preserves (\<lambda>t. f t = f s) (bindE m k)"
    using assms by (intro preserves_bindE_val [where Q = Q]) (auto intro: keeps_preserves)
  then show "f (snd (bindE m k s)) = f s" by (simp add: preserves_def)
qed

lemma make_dirs_data [files]: "q \<notin> set ps \<Longrightarrow> keeps (file_data q) (make_dirs ps)"
proof (induction ps)
  case Nil
  show ?case by (simp add: frame)
next
  case (Cons p ps)
  then have "q \<noteq> p" "keeps (file_data q) (make_dirs ps)" by auto
  then show ?case
    unfolding make_dirs.simps
    by (intro keeps_bindE) (rule file_data_other, rule keeps_file_syscall, auto)
qed

lemma create_dir_all_data [files]:
  "\<not> path_starts_with q p \<Longrightarrow> keeps (file_data q) (fs_create_dir_all p)"
  unfolding fs_create_dir_all_def
  by (rule make_dirs_data) (auto simp: path_starts_with_def take_is_prefix)

lemma keeps_case_identity [frame]:
  "(\<And>uid gid. keeps f (g uid gid)) \<Longrightarrow> (\<And>sid. keeps f (h sid)) \<Longrightarrow>
   keeps f (case i of UnixOwner uid gid \<Rightarrow> g uid gid | WindowsOwner sid \<Rightarrow> h sid)"
  by (cases i) auto

lemma ipc_directory_data:
  assumes "abs_path (mihomo_ipc_path (sha256 E) (bd E) (au_identity owner)) = d @ [a, b]"
    and "q \<noteq> d" "q \<noteq> d @ [a]"
  shows "keeps (file_data q) (prepare_owner_ipc_directory E owner)"
proof -
  have par: "path_parent (d @ [a, b]) = Some (d @ [a])" "path_parent (d @ [a]) = Some d"
    by (cases d; simp add: butlast_append)+
  show ?thesis
    unfolding prepare_owner_ipc_directory_def claim_ipc_directory_def take_ipc_directory_def assms(1) par option.case
    by (intro frame files assms(2,3))
qed

text \<open>The directories of the sockets and those of the state have no root in common.\<close>

lemma runtime_dir_values:
  "runtime_dir \<lparr>os = Linux, development_channel = b\<rparr> =
     [''run'', if b then ''clash-verge-service-dev'' else ''clash-verge-service'']"
  "runtime_dir \<lparr>os = MacOS, development_channel = b\<rparr> =
     [''var'', ''run'', if b then ''clash-verge-service-dev'' else ''clash-verge-service'']"
proof -
  have "IPC_PATH \<lparr>os = Linux, development_channel = b\<rparr> =
      path_text [''run'', if b then ''clash-verge-service-dev'' else ''clash-verge-service'', ''service.sock'']"
    "IPC_PATH \<lparr>os = MacOS, development_channel = b\<rparr> =
      path_text [''var'', ''run'', if b then ''clash-verge-service-dev'' else ''clash-verge-service'', ''service.sock'']"
    by (simp_all add: IPC_PATH_def path_text_def)
  then show "runtime_dir \<lparr>os = Linux, development_channel = b\<rparr> =
     [''run'', if b then ''clash-verge-service-dev'' else ''clash-verge-service'']"
    "runtime_dir \<lparr>os = MacOS, development_channel = b\<rparr> =
     [''var'', ''run'', if b then ''clash-verge-service-dev'' else ''clash-verge-service'']"
    by (simp_all add: runtime_dir_def abs_path_text kept_piece_def)
qed

lemma persistent_dir_values:
  "persistent_state_dir \<lparr>os = Linux, development_channel = b\<rparr> = [''var'', ''lib'', SERVICE_SLUG \<lparr>os = Linux, development_channel = b\<rparr>]"
  "persistent_state_dir \<lparr>os = MacOS, development_channel = b\<rparr> =
     [''Library'', ''Application Support'', SERVICE_SLUG \<lparr>os = MacOS, development_channel = b\<rparr>]"
  by (simp_all add: persistent_state_dir_def)

lemma unix_build_cases:
  assumes "is_unix (os B)"
  obtains b where "B = \<lparr>os = Linux, development_channel = b\<rparr>" | b where "B = \<lparr>os = MacOS, development_channel = b\<rparr>"
  using assms by (cases B; cases "os B") auto

lemma roots_disjoint: "is_unix (os B) \<Longrightarrow> persistent_state_dir B @ p \<noteq> runtime_dir B @ q"
  by (erule unix_build_cases) (simp_all add: runtime_dir_values persistent_dir_values)

lemma unix_ipc_path:
  assumes "is_unix (os (bd E))"
  shows "abs_path (mihomo_ipc_path (sha256 E) (bd E) (UnixOwner uid gid)) =
      runtime_dir (bd E) @ [''users'', show_nat (unat uid), ''verge-mihomo.sock'']"
proof -
  have "\<forall>p \<in> set (runtime_dir (bd E)). kept_piece p \<and> p \<noteq> ''..'' \<and> CHR ''/'' \<notin> set p"
    using assms by (rule unix_build_cases) (simp_all add: runtime_dir_values kept_piece_def)
  moreover have "\<not> is_digit (CHR ''/'')" "\<not> is_digit (CHR ''.'')" by (simp_all add: is_digit_def)
  then have "CHR ''/'' \<notin> set (show_nat (unat uid))" "CHR ''.'' \<notin> set (show_nat (unat uid))"
    using show_nat_no_char by auto
  then have "kept_piece (show_nat (unat uid)) \<and> show_nat (unat uid) \<noteq> ''..'' \<and> CHR ''/'' \<notin> set (show_nat (unat uid))"
    by (auto simp: kept_piece_def)
  ultimately have "abs_path (path_text (runtime_dir (bd E) @ [''users'', show_nat (unat uid), ''verge-mihomo.sock''])) =
      runtime_dir (bd E) @ [''users'', show_nat (unat uid), ''verge-mihomo.sock'']"
    by (intro abs_path_text) (auto simp: kept_piece_def)
  with assms show ?thesis
    by (simp add: mihomo_ipc_path_def unix_mihomo_ipc_path_def service_paths_of_def Let_def)
qed

section \<open>The active generation\<close>

definition generation_of :: "params \<Rightarrow> authenticated_owner \<Rightarrow> path" where
  "generation_of E owner = for_owner (sha256 E) (paths_of E) (au_identity owner) @ [RUNTIME_GENERATION_DIRECTORY_NAME]"

lemma generation_path:
  "generation_of E owner =
     persistent_state_dir (bd E) @ [''users'', owner_key (sha256 E) (au_identity owner), ''runtime'']"
  by (simp add: generation_of_def for_owner_def for_owner_key_def paths_of_def service_paths_of_def Let_def generation_names)

lemma gather_assets_data [files]: "keeps (file_data q) (gather_assets owner root as seen)"
  by (induction as arbitrary: seen) (auto simp: validate_source_def canonical_regular_file_def intro!: frame files)

lemma planning_data [files]:
  "keeps (file_data q) (validate_core_path E owner c)"
  "keeps (file_data q) (plan_runtime_refresh E owner bundle core runtime)"
  unfolding validate_core_path_def canonical_regular_file_def plan_runtime_refresh_def gather_bundle_def read_manifest_def
  by (auto intro!: frame files)

lemma read_dir_data [files]: "keeps (file_data q) (fs_read_dir p)"
  by (rule file_data_other) (rule files)

lemma stale_entries_data [files]: "keeps (file_data q) (stale_entries root active names stale)"
proof (induction names arbitrary: stale)
  case Nil
  show ?case by (simp add: frame)
next
  case (Cons n names)
  have "keeps (file_data q) (syscall (\<lambda>w. (Inr (), w)))"
    by (rule keeps_data_syscall) simp
  then show ?case unfolding stale_entries.simps by (intro keeps_tryE keeps_case_sum keeps_okE Cons.IH)
qed

lemma snapshot_data [files]: "keeps (file_data q) (snapshot_stale_runtime_directories root active)"
  unfolding snapshot_stale_runtime_directories_def by (intro frame files)

lemma prepare_keeps_generation:
  assumes unix: "is_unix (os (bd E))" and owner: "au_identity owner = UnixOwner uid gid" and rest: "rest \<noteq> []"
  shows "keeps (file_data (generation_of E owner @ rest)) (prepare_runtime E owner bundle)"
proof -
  let ?q = "generation_of E owner @ rest"
  let ?root = "for_owner (sha256 E) (paths_of E) (au_identity owner)"
  have root: "?root = persistent_state_dir (bd E) @ [''users'', owner_key (sha256 E) (au_identity owner)]"
    by (simp add: for_owner_def for_owner_key_def paths_of_def service_paths_of_def Let_def)
  have layout: "?q \<notin> layout_directories E"
    by (auto simp: layout_directories_def generation_path paths_of_def service_paths_of_def Let_def install_dir_def)
  have ipc: "keeps (file_data ?q) (prepare_owner_ipc_directory E owner)"
  proof (rule ipc_directory_data)
    show "abs_path (mihomo_ipc_path (sha256 E) (bd E) (au_identity owner)) =
        (runtime_dir (bd E) @ [''users'']) @ [show_nat (unat uid), ''verge-mihomo.sock'']"
      using unix_ipc_path [of E uid gid] unix owner by simp
    show "?q \<noteq> runtime_dir (bd E) @ [''users'']" "?q \<noteq> (runtime_dir (bd E) @ [''users'']) @ [show_nat (unat uid)]"
      using roots_disjoint [OF unix] by (simp_all add: generation_path)
  qed
  have state: "keeps (file_data ?q) (ensure_owner_state_directory E (au_identity owner))"
    unfolding ensure_owner_state_directory_def Let_def
    using rest by (intro frame files layout) (simp add: root generation_path)
  have identity: "keeps (file_data ?q) (persist_owner_identity (au_identity owner) ?root)"
    unfolding persist_owner_identity_def
    by (intro frame files) (simp_all add: root generation_path)
  have dirs: "keeps (file_data ?q) (fs_create_dir_all (owner_logs_dir ?root))"
    "keeps (file_data ?q) (fs_create_dir_all (?root @ [RUNTIME_GENERATION_DIRECTORY_NAME]))"
    using rest by (intro files; auto simp: root generation_path owner_logs_dir_def path_starts_with_def generation_names)+
  note ops = ipc state identity dirs
  have owner_state: "\<And>w x v. ensure_owner_state_directory E (au_identity owner) w = (Inr x, v) \<Longrightarrow> x = ?root"
    by (auto simp: ensure_owner_state_directory_def bindE_Inr Let_def)
  have tail: "keeps (file_data ?q) (prepare_in E owner bundle core ?root)" for core
    unfolding prepare_in_def set_private_directory_permissions_def ensure_runtime_generation_def Let_def
    by (intro frame ops files)
  show ?thesis
    unfolding prepare_runtime_def
    by (intro keeps_bindE [OF planning_data(1)] keeps_bindE_val [where Q = "\<lambda>x. x = ?root", OF keeps_mapErrE [OF state]])
      (auto dest: owner_state intro: tail)
qed

section \<open>Retiring the old layout\<close>

lemma stale_entries_names:
  "stale_entries root active names stale w = (Inr ps, v) \<Longrightarrow>
     set ps \<subseteq> set stale \<union> {p. p \<noteq> active \<and> (\<exists>n. p = root @ [n] \<and> is_runtime_directory_name n)}"
proof (induction names arbitrary: stale w)
  case Nil
  then show ?case by simp
next
  case (Cons n names)
  obtain r w1 where "syscall (\<lambda>w. (Inr (), w)) w = (r :: io_kind + unit, w1)"
    by (cases "syscall (\<lambda>w. (Inr () :: io_kind + unit, w)) w")
  with Cons.prems have "r = Inr () \<and> stale_entries root active names
      (if root @ [n] = active \<or> \<not> is_runtime_directory_name n then stale else stale @ [root @ [n]]) w1 = (Inr ps, v) \<or>
      ps = stale"
    by (cases r) (auto simp: tryE_eq)
  then show ?case
  proof
    assume "r = Inr () \<and> stale_entries root active names
      (if root @ [n] = active \<or> \<not> is_runtime_directory_name n then stale else stale @ [root @ [n]]) w1 = (Inr ps, v)"
    from Cons.IH [OF conjunct2 [OF this]]
    have "set ps \<subseteq> set (if root @ [n] = active \<or> \<not> is_runtime_directory_name n then stale else stale @ [root @ [n]]) \<union>
        {p. p \<noteq> active \<and> (\<exists>n. p = root @ [n] \<and> is_runtime_directory_name n)}"
      .
    then show ?thesis by (auto split: if_splits)
  qed simp
qed

lemma snapshot_names:
  "snapshot_stale_runtime_directories root active w = (Inr ps, v) \<Longrightarrow>
     set ps \<subseteq> {p. p \<noteq> active \<and> (\<exists>n. p = root @ [n] \<and> is_runtime_directory_name n)}"
  by (auto simp: snapshot_stale_runtime_directories_def tryE_eq split: sum.splits dest!: stale_entries_names)

lemma remove_runtime_other [files]:
  "\<not> path_starts_with p q \<Longrightarrow> keeps (\<lambda>w. fs w q) (remove_runtime_directory E p i)"
  unfolding keeps_def
proof
  fix w assume q: "\<not> path_starts_with p q"
  show "fs (snd (remove_runtime_directory E p i w)) q = fs w q"
    using q
  proof (induction E p i w rule: remove_runtime_directory.induct)
    case (1 E p i w)
    obtain r v where rv: "fs_remove_dir_all p w = (r, v)" by (cases "fs_remove_dir_all p w")
    have "fs v q = fs w q" using keepsD [OF remove_dir_all_other [OF 1(2)] rv] .
    with rv 1 show ?case
      by (subst remove_runtime_directory.simps) (auto split: sum.splits option.splits)
  qed
qed

lemma inspect_other [files]: "keeps (\<lambda>w. fs w q) (inspect_path p)"
  unfolding inspect_path_def lstat_def
  by (intro keeps_tryE keeps_okE keeps_file_syscall) (simp split: option.splits)

lemma retirement_other:
  assumes "\<forall>p \<in> set ps. \<not> path_starts_with p q"
  shows "keeps (\<lambda>w. fs w q) (cleanup_stale_runtime_directories E ps)"
  using assms unfolding cleanup_stale_runtime_directories_def
proof (induction ps)
  case Nil
  show ?case by (simp add: frame)
next
  case (Cons p ps)
  then have "\<not> path_starts_with p q" by simp
  from remove_runtime_other [OF this] Cons show ?case
    unfolding eachE.simps
    by (intro keeps_bindE [OF keeps_tryE]) (auto intro!: frame files split: sum.splits)
qed

text \<open>
  C34. Planning a start and retiring the old layout leave the active generation alone. Whatever
  \<open>prepare_runtime\<close> returns, no file below the owner's generation was written, so the running core keeps
  what it holds; the runtime it returns is that generation; and the removal of stale directories, run
  at any later time, touches no path of the generation either.
\<close>

theorem generation_untouched:
  assumes "prepare_runtime E owner bundle w = (r, v)" and "is_unix (os (bd E))"
    and "au_identity owner = UnixOwner uid gid" and "rest \<noteq> []"
  shows "file_data (generation_of E owner @ rest) v = file_data (generation_of E owner @ rest) w \<and>
    (case r of Inl e \<Rightarrow> True
     | Inr prepared \<Rightarrow> pr_runtime prepared = generation_of E owner \<and>
         (\<forall>x. fs (snd (commit_prepared E prepared x)) (generation_of E owner @ rest) =
              fs x (generation_of E owner @ rest)))"
proof (cases r)
  case (Inl e)
  with keepsD [OF prepare_keeps_generation [OF assms(2-4)] assms(1)] show ?thesis by simp
next
  case (Inr prepared)
  let ?root = "for_owner (sha256 E) (paths_of E) (au_identity owner)"
  from assms(1) Inr obtain core a b where
    "prepare_in E owner bundle core ?root a = (Inr prepared, b)"
    by (auto simp: prepare_runtime_def bindE_Inr ensure_owner_state_directory_def Let_def)
  then obtain x stale y where
    s: "snapshot_stale_runtime_directories ?root (generation_of E owner) x = (Inr stale, y)" and
    p: "pr_runtime prepared = generation_of E owner" "pr_stale_runtime_paths prepared = stale"
    by (auto simp: prepare_in_def bindE_Inr Let_def ensure_runtime_generation_def generation_of_def)
  have g: "generation_of E owner = ?root @ [RUNTIME_GENERATION_DIRECTORY_NAME]" by (simp add: generation_of_def)
  have "\<forall>d \<in> set stale. \<not> path_starts_with d (generation_of E owner @ rest)"
    using snapshot_names [OF s] by (auto simp: g path_starts_with_def)
  then have "keeps (\<lambda>w. fs w (generation_of E owner @ rest)) (commit_prepared E prepared)"
    unfolding commit_prepared_def p(2) by (intro frame retirement_other)
  with keepsD [OF prepare_keeps_generation [OF assms(2-4)] assms(1)] p(1) Inr show ?thesis
    by (simp add: keeps_def)
qed

theorem generation_untouched_witness:
  "file_data (generation_of plain_params \<lparr>au_key = ''501'', au_identity = UnixOwner 501 20, au_app_data_root = [''d'']\<rparr> @ [''cache.db''])
     (snd (prepare_runtime plain_params \<lparr>au_key = ''501'', au_identity = UnixOwner 501 20, au_app_data_root = [''d'']\<rparr>
        \<lparr>rb_yaml = ''y'', rb_assets = [], rb_remote_providers = [], rb_core_path = ''/bin/core''\<rparr>
        (calm_world [generation_of plain_params \<lparr>au_key = ''501'', au_identity = UnixOwner 501 20, au_app_data_root = [''d'']\<rparr>
           @ [''cache.db''] \<mapsto> file_node 0 (Bytes ''kept'')]))) = Some (RegularFile, Bytes ''kept'')"
proof -
  let ?o = "\<lparr>au_key = ''501'', au_identity = UnixOwner 501 20, au_app_data_root = [''d'']\<rparr>"
  let ?w = "calm_world [generation_of plain_params ?o @ [''cache.db''] \<mapsto> file_node 0 (Bytes ''kept'')]"
  have "is_unix (os (bd plain_params))" by (simp add: plain_params_def)
  moreover have "file_data (generation_of plain_params ?o @ [''cache.db'']) ?w = Some (RegularFile, Bytes ''kept'')"
    by (simp add: file_data_def calm_world_def file_node_def)
  ultimately show ?thesis
    using generation_untouched [OF surjective_pairing, of plain_params ?o 501 20 "[''cache.db'']"
        "\<lparr>rb_yaml = ''y'', rb_assets = [], rb_remote_providers = [], rb_core_path = ''/bin/core''\<rparr>" ?w] by simp
qed

section \<open>The owner's IPC directory\<close>

lemma take_ipc_directory_ok:
  assumes "take_ipc_directory p w = (Inr u, v)" and "fs w p = Some n" "nd_kind n = Directory" "euid w = 0"
  shows "private_directory 0 448 (fs v p)"
proof -
  obtain r1 w1 where 1: "fchown_root p w = (r1, w1)" by (cases "fchown_root p w")
  obtain r2 w2 where 2: "fchmod p 448 w1 = (r2, w2)" by (cases "fchmod p 448 w1")
  from assms(1,4) 1 2 obtain a b where ok: "r1 = Inr a" "r2 = Inr b" and v: "v = w2"
    by (cases r1; cases r2) (auto simp: take_ipc_directory_def tryE_eq bindE_def get_def okE_def failE_def)
  from 1 ok assms(2,3) obtain n1 where "fs w1 p = Some n1" "nd_uid n1 = 0" "nd_kind n1 = Directory"
    by (auto dest!: fchown_ok)
  with fchmod_ok [of p 448 w1 b w2] 2 ok v show ?thesis by (auto simp: private_directory_def)
qed

lemma claim_ipc_directory_ok:
  assumes "claim_ipc_directory i p w = (Inr u, v)" and root: "euid w = 0"
  shows "private_directory 0 448 (fs v p)" and "\<exists>uid gid. i = UnixOwner uid gid"
proof -
  from assms(1) obtain w1 where o: "open_directory p w = (Inr (), w1)" by (auto simp: claim_ipc_directory_def bindE_Inr)
  with assms(1) show "\<exists>uid gid. i = UnixOwner uid gid"
    by (cases i) (auto simp: claim_ipc_directory_def bindE_def mapErrE_def failE_def)
  then obtain uid gid where i: "i = UnixOwner uid gid" by blast
  obtain st w2 where st: "fstat p w1 = (st, w2)" by (cases "fstat p w1")
  with assms(1) o i have "owner_ipc_directory_is_usable (is_ok st) (case st of Inr n \<Rightarrow> nd_kind n | Inl _ \<Rightarrow> SpecialFile)
      (case st of Inr n \<Rightarrow> nd_uid n | Inl _ \<Rightarrow> 0) uid False" and t: "take_ipc_directory p w2 = (Inr u, v)"
    by (auto simp: claim_ipc_directory_def bindE_def mapErrE_def tryE_eq failE_def split: if_splits)
  then obtain n where n: "st = Inr n" "nd_kind n = Directory"
    by (cases st) (auto simp: owner_ipc_directory_is_usable_def)
  have "euid w2 = euid w1" "euid w1 = euid w"
    using keepsD [OF blind_security_ops(3) st, of euid] keepsD [OF blind_security_ops(1) o, of euid] by simp_all
  moreover from fstat_ok [of p w1 n w2] st n have "fs w2 p = Some n" by simp
  ultimately show "private_directory 0 448 (fs v p)"
    using take_ipc_directory_ok [OF t] n root by simp
qed

text \<open>
  The directory of the owner's socket. A service running as root that prepared it leaves at its place a
  directory of root's with mode 700, so nobody but the service can put anything under the name the core
  will bind; a directory of another user, a link or a file in its place is refused.
\<close>

lemma prepared_ipc_directory:
  assumes "prepare_owner_ipc_directory E owner w = (Inr u, v)" and "euid w = 0" and "is_unix (os (bd E))"
  shows "\<exists>uid gid. au_identity owner = UnixOwner uid gid \<and>
    private_directory 0 448 (fs v (runtime_dir (bd E) @ [''users'', show_nat (unat uid)]))"
proof -
  from assms(1) obtain directory users_directory where
    d: "path_parent (abs_path (mihomo_ipc_path (sha256 E) (bd E) (au_identity owner))) = Some directory"
    and "path_parent directory = Some users_directory"
    by (auto simp: prepare_owner_ipc_directory_def split: option.splits)
  with assms(1) obtain w1 r w2 where 1: "ensure_service_directory users_directory 493 w = (Inr (), w1)"
    and 2: "fs_create_dir directory w1 = (r, w2)" and 3: "claim_ipc_directory (au_identity owner) directory w2 = (Inr u, v)"
    by (auto simp: prepare_owner_ipc_directory_def bindE_Inr tryE_eq split: if_splits) (metis surjective_pairing)+
  have "euid w2 = 0"
    using assms(2) keepsD [OF blind_secure(2) 1, of euid] keepsD [OF blind_file_ops(9) 2, of euid] by simp
  from claim_ipc_directory_ok [OF 3 this] obtain uid gid where i: "au_identity owner = UnixOwner uid gid"
    and p: "private_directory 0 448 (fs v directory)" by blast
  have "directory = runtime_dir (bd E) @ [''users'', show_nat (unat uid)]"
    using d unix_ipc_path [OF assms(3), of uid gid] i by (cases "runtime_dir (bd E)") (simp_all add: butlast_append)
  with i p show ?thesis by blast
qed

end
