(* ===== verification/CoreIpc.thy ===== *)
theory CoreIpc
  imports Processes Generation
begin

text \<open>
  The socket of the core (\<open>src/core/manager.rs\<close>, from \<open>prepare_core_ipc_socket\<close> on). Before a core is
  spawned the owner's directory is taken back by the service and a stale entry is removed; after the core
  has bound its socket there, the socket and then the directory are handed to the owner. Between the two
  only the core creates anything in the directory (\<open>ev_core_creates\<close>).
\<close>

section \<open>Before the core starts\<close>

definition claim_core_directory :: "path \<Rightarrow> u32 \<Rightarrow> unit act" where
  "claim_core_directory directory uid =
     bindE (ctx_io ''failed to open core IPC directory'' (open_directory directory)) (\<lambda>_.
     bindE (ctx_io ''failed to inspect core IPC directory'' (fstat directory)) (\<lambda>st.
     bindE (get euid) (\<lambda>effective_uid.
       if nd_kind st \<noteq> Directory \<or>
          (nd_uid st \<noteq> 0 \<and> nd_uid st \<noteq> uid \<and> nd_uid st \<noteq> effective_uid)
       then failE (Msg ''core IPC directory has an unexpected owner or file type'')
       else
         bindE (ctx_io ''failed to make core IPC directory private'' (fchmod directory 448)) (\<lambda>_.
           if effective_uid = 0
           then ctx_io ''failed to take ownership of core IPC directory'' (fchown_root directory)
           else okE ()))))"

definition clear_core_entry :: "path \<Rightarrow> unit act" where
  "clear_core_entry p =
     tryE (fs_remove_file p) (\<lambda>r.
       (case r of
          Inr _ \<Rightarrow> okE ()
        | Inl k \<Rightarrow> if k = NotFound then okE () else failE (Ctx ''failed to clear stale core IPC entry'' (Io k))))"

definition prepare_core_ipc_socket :: "string \<Rightarrow> owner_identity \<Rightarrow> unit act" where
  "prepare_core_ipc_socket core_ipc_path owner =
     (case owner of
        WindowsOwner sid \<Rightarrow> failE (Msg ''Unix core IPC path received a non-Unix owner'')
      | UnixOwner uid gid \<Rightarrow>
          (case path_parent (abs_path core_ipc_path) of
             None \<Rightarrow> failE (Msg ''core IPC path has no parent directory'')
           | Some directory \<Rightarrow>
               bindE (claim_core_directory directory uid) (\<lambda>_.
                 clear_core_entry (abs_path core_ipc_path))))"

section \<open>After the core has started\<close>

definition lchown :: "path \<Rightarrow> u32 \<Rightarrow> u32 \<Rightarrow> unit io" where
  "lchown p uid gid = syscall (\<lambda>w.
     (case fs w p of
        None \<Rightarrow> (Inl NotFound, w)
      | Some n \<Rightarrow> (Inr (), set_node p (Some (n\<lparr>nd_uid := uid, nd_gid := gid\<rparr>)) w)))"

definition grant_core_ipc_directory_to_owner :: "path \<Rightarrow> u32 \<Rightarrow> u32 \<Rightarrow> unit act" where
  "grant_core_ipc_directory_to_owner target uid gid =
     (case path_parent target of
        None \<Rightarrow> failE (Msg ''core IPC path has no parent directory'')
      | Some directory \<Rightarrow>
          bindE (ctx_io ''failed to reopen core IPC directory'' (open_directory directory)) (\<lambda>_.
          bindE (get euid) (\<lambda>effective_uid.
          bindE (if effective_uid = 0
                 then ctx_io ''failed to grant core IPC directory to owner'' (lchown directory uid gid)
                 else okE ()) (\<lambda>_.
            ctx_io ''failed to secure granted core IPC directory'' (fchmod directory 448)))))"

text \<open>A look at the socket path; the core may have created an entry there since the last look.\<close>

definition core_creates :: "path \<Rightarrow> world \<Rightarrow> world" where
  "core_creates p w =
     (case ev_core_creates (env w) (tick w) p of None \<Rightarrow> w | Some n \<Rightarrow> set_node p (Some n) w)"

definition core_symlink_metadata :: "path \<Rightarrow> node io" where
  "core_symlink_metadata p w = lstat p (core_creates p w)"

text \<open>Forty looks, fifty milliseconds apart: whether the socket appeared.\<close>

fun await_core_socket :: "nat \<Rightarrow> path \<Rightarrow> bool act" where
  "await_core_socket 0 p = okE False"
| "await_core_socket (Suc n) p =
     tryE (core_symlink_metadata p) (\<lambda>r.
       (case r of
          Inr metadata \<Rightarrow>
            if nd_kind metadata = Socket then okE True
            else failE (Msg ''core IPC path is not a socket'')
        | Inl k \<Rightarrow> if k = NotFound then await_core_socket n p else failE (Io k)))"

text \<open>Both permission calls are made before either is looked at.\<close>

definition hand_over_socket :: "path \<Rightarrow> u32 \<Rightarrow> u32 \<Rightarrow> unit act" where
  "hand_over_socket target uid gid =
     bindE (get euid) (\<lambda>effective_uid.
     tryE (if effective_uid \<noteq> 0 then okE () else lchown target uid gid) (\<lambda>chown_ok.
     tryE (fchmod target 384) (\<lambda>chmod_ok.
       (case (chown_ok, chmod_ok) of
          (Inr _, Inr _) \<Rightarrow> grant_core_ipc_directory_to_owner target uid gid
        | (_, Inl k) \<Rightarrow> failE (Io k)
        | (Inl k, _) \<Rightarrow> failE (Io k)))))"

definition secure_core_ipc_socket :: "string \<Rightarrow> owner_identity \<Rightarrow> unit act" where
  "secure_core_ipc_socket core_ipc_path owner =
     (case owner of
        WindowsOwner sid \<Rightarrow> failE (Msg ''Unix core IPC path received a non-Unix owner'')
      | UnixOwner uid gid \<Rightarrow>
          bindE (await_core_socket 40 (abs_path core_ipc_path)) (\<lambda>found.
            if \<not> found then failE (Msg ''core IPC socket did not appear'')
            else hand_over_socket (abs_path core_ipc_path) uid gid))"

text \<open>The DACL of the core's pipe on Windows: the owner, the system and the administrators.\<close>

definition windows_owner_pipe_sddl :: "string \<Rightarrow> string" where
  "windows_owner_pipe_sddl sid = ''D:P(A;;GA;;;'' @ sid @ '')(A;;GA;;;SY)(A;;GA;;;BA)''"

section \<open>Frames\<close>

lemma blind_await:
  assumes f: "blind_to_files f"
  shows "keeps f (await_core_socket n p)"
proof -
  have "keeps f (lstat p)"
    unfolding lstat_def by (rule blind_syscall [OF f]) (simp add: keeps_def split: option.splits)
  moreover have "f (core_creates p w) = f w" for w
    by (simp add: core_creates_def blind_node [OF f] split: option.splits)
  ultimately have m: "keeps f (core_symlink_metadata p)"
    by (simp add: keeps_def core_symlink_metadata_def)
  show ?thesis by (induction n) (auto intro!: frame m)
qed

lemma blind_core_ipc [blind]:
  assumes f: "blind_to_files f"
  shows "keeps f (prepare_core_ipc_socket p owner)" "keeps f (secure_core_ipc_socket p owner)"
proof -
  show "keeps f (prepare_core_ipc_socket p owner)"
    unfolding prepare_core_ipc_socket_def claim_core_directory_def clear_core_entry_def by (intro frame blind f)
  have l: "keeps f (lchown q u g)" for q u g
    unfolding lchown_def by (rule blind_syscall [OF f]) (simp add: keeps_def blind_node [OF f] split: option.splits)
  show "keeps f (secure_core_ipc_socket p owner)"
    unfolding secure_core_ipc_socket_def hand_over_socket_def grant_core_ipc_directory_to_owner_def
    by (intro frame blind f l blind_await)
qed

section \<open>Whose the socket is\<close>

lemma path_parent_snoc [simp]: "path_parent (xs @ [x]) = Some xs"
  by (cases xs) (simp_all add: butlast_append)

lemma path_parent_less: "path_parent p = Some d \<Longrightarrow> d \<noteq> p"
  by (cases p rule: rev_cases) auto

lemma remove_file_gone:
  "fs_remove_file p w = (r, v) \<Longrightarrow> honest w \<Longrightarrow> r = Inr () \<or> r = Inl NotFound \<Longrightarrow> fs v p = None"
  by (auto simp: fs_remove_file_def syscall_def Let_def honest_def split: option.splits if_splits)

lemma clear_core_entry_gone:
  assumes "clear_core_entry p w = (Inr u, v)" "honest w"
  shows "fs v p = None" and "q \<noteq> p \<Longrightarrow> fs v q = fs w q"
proof -
  obtain r x where 1: "fs_remove_file p w = (r, x)" by (cases "fs_remove_file p w")
  with assms(1) have "v = x" and r: "r = Inr () \<or> r = Inl NotFound"
    by (auto simp: clear_core_entry_def tryE_eq split: sum.splits if_splits)
  with remove_file_gone [OF 1 assms(2) r] show "fs v p = None" by simp
  show "q \<noteq> p \<Longrightarrow> fs v q = fs w q"
    using keepsD [OF file_ops_other(5) 1] \<open>v = x\<close> by blast
qed

lemma claim_core_directory_ok:
  assumes "claim_core_directory d uid w = (Inr u, v)" and root: "euid w = 0"
  shows "private_directory 0 448 (fs v d)" "env v = env w"
proof -
  from assms(1) obtain w1 where 1: "open_directory d w = (Inr (), w1)"
    by (auto simp: claim_core_directory_def bindE_Inr)
  with assms(1) obtain st w2 where 2: "fstat d w1 = (Inr st, w2)"
    by (auto simp: claim_core_directory_def bindE_Inr)
  have e1: "euid w1 = 0" using root keepsD [OF blind_security_ops(1) 1, of euid] by simp
  from fstat_ok [OF 2] e1 have e2: "euid w2 = 0" by simp
  from assms(1) 1 2 e2 have k: "nd_kind st = Directory"
    by (auto simp: claim_core_directory_def bindE_Inr split: if_splits)
  from assms(1) 1 2 e2 k obtain w3 where 3: "fchmod d 448 w2 = (Inr (), w3)" and 4: "fchown_root d w3 = (Inr (), v)"
    by (auto simp: claim_core_directory_def bindE_Inr split: if_splits)
  from fstat_ok [OF 2] k fchmod_ok [OF 3] obtain n where "fs w3 d = Some n" "nd_kind n = Directory" "nd_mode n = 448"
    by auto
  with fchown_ok [OF 4] show "private_directory 0 448 (fs v d)" by (auto simp: private_directory_def)
  show "env v = env w"
    using keepsD [OF blind_security_ops(1) 1, of env] keepsD [OF blind_security_ops(3) 2, of env]
      keepsD [OF blind_security_ops(5) 3, of env] keepsD [OF blind_security_ops(4) 4, of env] by simp
qed

text \<open>
  C17. Before a core starts. A service running as root that has prepared the socket's place leaves there a
  private directory of root's with nothing under the socket's name: the socket the core finds free is
  the one it binds itself, whatever the owner of the directory had put there.
\<close>

theorem prepared_socket_place:
  assumes "prepare_core_ipc_socket s owner w = (Inr u, v)" and "euid w = 0" and "honest w"
  shows "fs v (abs_path s) = None \<and>
    (\<exists>d. path_parent (abs_path s) = Some d \<and> private_directory 0 448 (fs v d))"
proof -
  from assms(1) obtain uid w1 d where d: "path_parent (abs_path s) = Some d"
    and 1: "claim_core_directory d uid w = (Inr (), w1)" and 2: "clear_core_entry (abs_path s) w1 = (Inr u, v)"
    by (auto simp: prepare_core_ipc_socket_def bindE_Inr split: owner_identity.splits option.splits)
  note ne = path_parent_less [OF d]
  note c = claim_core_directory_ok [OF 1 assms(2)]
  have "honest w1" using honest_env [OF c(2)] assms(3) by simp
  from clear_core_entry_gone [OF 2 this] ne c(1) d show ?thesis by auto
qed

theorem prepared_socket_place_witness:
  "fst (prepare_core_ipc_socket ''/r/s'' (UnixOwner 501 20)
      (calm_world [[''r''] \<mapsto> directory_node 501, [''r'', ''s''] \<mapsto> file_node 501 (Bytes ''x'')])) = Inr () \<and>
   fs (snd (prepare_core_ipc_socket ''/r/s'' (UnixOwner 501 20)
      (calm_world [[''r''] \<mapsto> directory_node 501, [''r'', ''s''] \<mapsto> file_node 501 (Bytes ''x'')]))) [''r'', ''s''] = None"
proof -
  let ?w = "calm_world [[''r''] \<mapsto> directory_node 501, [''r'', ''s''] \<mapsto> file_node 501 (Bytes ''x'')]"
  let ?r = "prepare_core_ipc_socket ''/r/s'' (UnixOwner 501 20) ?w"
  have r: "fst ?r = Inr ()" by code_simp
  then have "?r = (Inr (), snd ?r)" by (metis prod.collapse)
  moreover have "abs_path ''/r/s'' = [''r'', ''s'']" by code_simp
  ultimately show ?thesis
    using prepared_socket_place [of "''/r/s''" "UnixOwner 501 20" ?w "()" "snd ?r"] r
    by (simp add: calm_world_def calm_env_def honest_def)
qed

section \<open>The socket after a start\<close>

lemma await_core_socket_found:
  "await_core_socket n p w = (Inr True, v) \<Longrightarrow> \<exists>m. fs v p = Some m \<and> nd_kind m = Socket"
proof (induction n arbitrary: w)
  case 0
  then show ?case by simp
next
  case (Suc n)
  obtain r x where 1: "core_symlink_metadata p w = (r, x)" by (cases "core_symlink_metadata p w")
  show ?case
  proof (cases r)
    case (Inl k)
    with Suc.prems 1 have "await_core_socket n p x = (Inr True, v)"
      by (auto simp: tryE_eq split: if_splits)
    then show ?thesis by (rule Suc.IH)
  next
    case (Inr m)
    with Suc.prems 1 have "nd_kind m = Socket" "v = x" by (auto simp: tryE_eq split: if_splits)
    moreover from 1 Inr have "fs x p = Some m"
      by (auto simp: core_symlink_metadata_def lstat_def syscall_Inr split: option.splits)
    ultimately show ?thesis by simp
  qed
qed

lemma lchown_ok: "lchown p a b w = (Inr u, v) \<Longrightarrow>
    \<exists>n. fs w p = Some n \<and> fs v p = Some (n\<lparr>nd_uid := a, nd_gid := b\<rparr>)"
  by (auto simp: lchown_def syscall_Inr split: option.splits)

lemma lchown_other [files]: "p \<noteq> q \<Longrightarrow> keeps (\<lambda>w. fs w p) (lchown q a b)"
  unfolding lchown_def by (rule keeps_file_syscall) (simp split: option.splits)

lemma blind_lchown [blind]: "blind_to_files f \<Longrightarrow> keeps f (lchown p a b)"
  unfolding lchown_def by (rule blind_syscall) (simp_all add: keeps_def blind_node split: option.splits)

text \<open>
  C18. After a core has started. When the service reports the socket as secured, there is a socket under the
  core's IPC path (a file or a link there is refused); when the service runs as root, the socket
  belongs to the owner with mode 600 and its directory belongs to the owner with mode 700.
\<close>

theorem secured_socket:
  assumes "secure_core_ipc_socket s (UnixOwner uid gid) w = (Inr u, v)" and "euid w = 0"
  shows "(\<exists>n. fs v (abs_path s) = Some n \<and> nd_kind n = Socket \<and> nd_uid n = uid \<and> nd_gid n = gid \<and> nd_mode n = 384) \<and>
    (\<exists>d. path_parent (abs_path s) = Some d \<and> private_directory uid 448 (fs v d))"
proof -
  let ?p = "abs_path s"
  from assms(1) obtain w1 where 1: "await_core_socket 40 ?p w = (Inr True, w1)" and
    2: "hand_over_socket ?p uid gid w1 = (Inr u, v)"
    by (auto simp: secure_core_ipc_socket_def bindE_Inr split: if_splits)
  from await_core_socket_found [OF 1] obtain m where m: "fs w1 ?p = Some m" "nd_kind m = Socket" by blast
  have e1: "euid w1 = 0"
    using assms(2) keepsD [OF blind_await 1, of euid] by simp
  obtain r2 w2 where 3: "lchown ?p uid gid w1 = (r2, w2)" by (cases "lchown ?p uid gid w1")
  obtain r3 w3 where 4: "fchmod ?p 384 w2 = (r3, w3)" by (cases "fchmod ?p 384 w2")
  from 2 3 4 e1 have ok: "r2 = Inr ()" "r3 = Inr ()" and g: "grant_core_ipc_directory_to_owner ?p uid gid w3 = (Inr u, v)"
    by (cases r2; cases r3; simp add: hand_over_socket_def bindE_def get_def tryE_eq failE_def)+
  from lchown_ok 3 ok m obtain n2 where n2: "fs w2 ?p = Some n2" "nd_kind n2 = Socket" "nd_uid n2 = uid" "nd_gid n2 = gid"
    by fastforce
  from fchmod_ok [of ?p 384 w2 "()" w3] 4 ok n2 obtain n3 where
    n3: "fs w3 ?p = Some n3" "nd_kind n3 = Socket" "nd_uid n3 = uid" "nd_gid n3 = gid" "nd_mode n3 = 384" by auto
  have e3: "euid w3 = 0"
    using e1 keepsD [OF blind_lchown 3, of euid] keepsD [OF blind_security_ops(5) 4, of euid] by simp
  from g obtain d where d: "path_parent ?p = Some d"
    by (auto simp: grant_core_ipc_directory_to_owner_def split: option.splits)
  with g obtain w4 where 5: "open_directory d w3 = (Inr (), w4)"
    by (auto simp: grant_core_ipc_directory_to_owner_def bindE_Inr)
  have e4: "euid w4 = 0" using e3 keepsD [OF blind_security_ops(1) 5, of euid] by simp
  with g d 5 obtain w5 where 6: "lchown d uid gid w4 = (Inr (), w5)" and 7: "fchmod d 448 w5 = (Inr u, v)"
    by (auto simp: grant_core_ipc_directory_to_owner_def bindE_Inr)
  have "\<exists>n. fs w4 d = Some n \<and> nd_kind n = Directory"
    using 5 by (auto simp: open_directory_def syscall_Inr split: option.splits if_splits)
  with lchown_ok [OF 6] fchmod_ok [OF 7] have "private_directory uid 448 (fs v d)"
    by (auto simp: private_directory_def)
  moreover have "fs v ?p = fs w3 ?p"
    using keepsD [OF security_ops_other(1) 5, of ?p] keepsD [OF lchown_other 6, of ?p]
      keepsD [OF security_ops_other(5) 7, of ?p] path_parent_less [OF d] by metis
  ultimately show ?thesis using n3 d by auto
qed

definition core_binds :: "path \<Rightarrow> world \<Rightarrow> world" where
  "core_binds p w = w\<lparr>env := (env w)\<lparr>ev_core_creates := \<lambda>t q.
     if q = p \<and> t > 0 then Some ((file_node 0 (Bytes ''''))\<lparr>nd_kind := Socket\<rparr>) else None\<rparr>\<rparr>"

theorem secured_socket_witness:
  "fst (secure_core_ipc_socket ''/r/s'' (UnixOwner 501 20)
      (core_binds [''r'', ''s''] (calm_world [[''r''] \<mapsto> directory_node 0]))) = Inr () \<and>
   private_directory 501 448 (fs (snd (secure_core_ipc_socket ''/r/s'' (UnixOwner 501 20)
      (core_binds [''r'', ''s''] (calm_world [[''r''] \<mapsto> directory_node 0])))) [''r''])"
proof -
  let ?w = "core_binds [''r'', ''s''] (calm_world [[''r''] \<mapsto> directory_node 0])"
  let ?r = "secure_core_ipc_socket ''/r/s'' (UnixOwner 501 20) ?w"
  have r: "fst ?r = Inr ()" by code_simp
  then have "?r = (Inr (), snd ?r)" by (metis prod.collapse)
  moreover have "abs_path ''/r/s'' = [''r'', ''s'']" by code_simp
  ultimately show ?thesis
    using secured_socket [of "''/r/s''" 501 20 ?w "()" "snd ?r"] r
    by (simp add: core_binds_def calm_world_def)
qed

end
