(* ===== verification/Manager.thy ===== *)
theory Manager
  imports CoreIpc
begin

text \<open>
  The core manager (\<open>CoreManager\<close> in \<open>src/core/manager.rs\<close>): starting and stopping the core, and the
  watchdog task that restarts it. The task is a state machine: \<open>watchdog_step\<close> is one round of its loop, run
  with the knowledge whether the shutdown signal has been sent. The state of the task is the value in
  \<open>watchdog_handle\<close>. What the core prints is not modelled.
\<close>

section \<open>Exit diagnosis and backoff\<close>

text \<open>\<open>CoreExitInfo::diagnosis\<close>.\<close>

definition diagnosis :: "exit_status \<Rightarrow> string" where
  "diagnosis st =
     (case ex_signal st of
        Some sig \<Rightarrow>
          (if sig = 9 then ''Killed by OOM killer or admin (SIGKILL)''
           else if sig = 11 then ''Segmentation fault (SIGSEGV)''
           else if sig = 15 then ''Graceful shutdown (SIGTERM)''
           else if sig = 6 then ''Aborted (SIGABRT)''
           else ''Terminated by signal'')
      | None \<Rightarrow>
          (case ex_code st of
             Some c \<Rightarrow> if c = 0 then ''Normal exit'' else ''Abnormal exit''
           | None \<Rightarrow> ''Unknown exit reason''))"

definition show_int :: "int \<Rightarrow> string" where
  "show_int i = (if i < 0 then ''-'' @ show_nat (nat (- i)) else show_nat (nat i))"

definition log_core_exit :: "exit_status \<Rightarrow> string" where
  "log_core_exit st =
     diagnosis st @ '' (code: '' @
     (case ex_code st of None \<Rightarrow> ''None'' | Some c \<Rightarrow> ''Some('' @ show_int c @ '')'') @ '')''"

text \<open>Durations are in milliseconds.\<close>

record watchdog_settings =
  max_restarts :: u32
  restart_window :: nat
  max_backoff :: nat

definition watchdog_config :: watchdog_settings where
  "watchdog_config = \<lparr>max_restarts = 10, restart_window = 600000, max_backoff = 30000\<rparr>"

definition backoff_delay :: "u32 \<Rightarrow> nat \<Rightarrow> nat" where
  "backoff_delay attempt limit =
     (if attempt = 0 then 0
      else min (1000 * unat (push_bit (unat (min (attempt - 1) 5)) (1 :: u64))) limit)"

definition core_args :: "params \<Rightarrow> clash_config \<Rightarrow> string list" where
  "core_args E config =
     [''-d'', cc_config_dir (clash_core config), ''-f'', cc_config_path (clash_core config),
      if os (bd E) = Windows then ''-ext-ctl-pipe'' else ''-ext-ctl-unix'',
      cc_core_ipc_path (clash_core config)]"

section \<open>Children\<close>

definition kill_child :: "u32 \<Rightarrow> unit io" where
  "kill_child pid = syscall (\<lambda>w. (Inr (), w\<lparr>signals := signals w @ [(tick w, pid, SIGKILL)]\<rparr>))"

definition reap_child :: "u32 \<Rightarrow> unit io" where
  "reap_child pid = syscall (\<lambda>w. (Inr (), w\<lparr>children := remove1 pid (children w)\<rparr>))"

text \<open>\<open>ChildGuard::kill_now\<close>: the child is taken out of the guard when the result is \<open>Ok\<close>.\<close>

definition kill_now :: "child_guard \<Rightarrow> unit act" where
  "kill_now guard =
     (case guard of
        None \<Rightarrow> okE ()
      | Some pid \<Rightarrow>
          ctx ''failed to kill child'' (bindE (io_act (kill_child pid)) (\<lambda>_. io_act (reap_child pid))))"

text \<open>Dropping a guard that holds a child leaves the killing to a task of its own.\<close>

definition drop_guard :: "child_guard \<Rightarrow> world \<Rightarrow> world" where
  "drop_guard guard w =
     w\<lparr>dropped_children := dropped_children w @ (case guard of None \<Rightarrow> [] | Some pid \<Rightarrow> [pid])\<rparr>"

text \<open>\<open>set_or_update_writer\<close> of \<open>src/core/logger.rs\<close>: building the writer opens its file, which may fail.\<close>

definition set_or_update_writer :: "writer_config \<Rightarrow> unit act" where
  "set_or_update_writer c = io_act (syscall (\<lambda>w. (Inr (), w\<lparr>log_writer := Some c\<rparr>)))"

definition spawn_core :: "u32 io" where
  "spawn_core = syscall (\<lambda>w.
     (let pid = ev_spawned (env w) (tick w) in (Inr pid, w\<lparr>children := children w @ [pid]\<rparr>)))"

definition run_with_logging :: "writer_config \<Rightarrow> child_guard act" where
  "run_with_logging writer = 
     bindE (set_or_update_writer writer) (\<lambda>_.
     bindE (io_act spawn_core) (\<lambda>pid. okE (Some pid)))"

definition write_runtime_record_for_config :: "params \<Rightarrow> child_guard \<Rightarrow> clash_config \<Rightarrow> unit act" where
  "write_runtime_record_for_config E child config =
     bindE (liftE (ok_or (Msg ''spawned core did not expose a process ID'') child)) (\<lambda>pid.
     bindE (process_identity E pid) (\<lambda>found.
     bindE (liftE (ok_or (Msg ''core process exited before runtime record'') found)) (\<lambda>identity.
       ctx ''failed to write core runtime record''
         (write_core_runtime_record E
            \<lparr>cr_pid = pid, cr_ipc_path = cc_core_ipc_path (clash_core config), cr_identity = identity\<rparr>))))"

section \<open>The cells of the manager\<close>

definition modify_mgr :: "(core_manager \<Rightarrow> core_manager) \<Rightarrow> unit act" where
  "modify_mgr f = modify (\<lambda>w. w\<lparr>mgr := f (mgr w)\<rparr>)"

definition set_core_state :: "lifecycle_state \<Rightarrow> unit act" where
  "set_core_state s = modify (set_core_lifecycle_state s)"

definition read_instant :: "nat act" where
  "read_instant w = (Inr (instant w (tick w)), w\<lparr>tick := Suc (tick w)\<rparr>)"

definition child_pid :: "child_guard \<Rightarrow> u32" where
  "child_pid child = (case child of None \<Rightarrow> 0 | Some pid \<Rightarrow> pid)"

text \<open>The pid and the times of a core that could not be killed.\<close>

definition note_unconfirmed_core :: "child_guard \<Rightarrow> unit act" where
  "note_unconfirmed_core child =
     bindE read_clock (\<lambda>now_secs.
     bindE read_instant (\<lambda>started.
       modify_mgr (\<lambda>m. m\<lparr>running_pid := child_pid child, core_start_time := Some started,
                          core_started_at := now_secs\<rparr>)))"

text \<open>Assigning the cell drops the guard it held.\<close>

definition set_failed_child :: "child_guard \<Rightarrow> unit act" where
  "set_failed_child child =
     modify (\<lambda>w. let v = (case failed_child (mgr w) of None \<Rightarrow> w | Some old \<Rightarrow> drop_guard old w)
                  in v\<lparr>mgr := (mgr v)\<lparr>failed_child := Some child\<rparr>\<rparr>)"

definition running_core_config :: "world \<Rightarrow> (u32 \<times> clash_config) option" where
  "running_core_config w =
     (if running_pid (mgr w) = 0 then None
      else map_option (\<lambda>c. (running_pid (mgr w), c)) (running_config (mgr w)))"

record core_status_snapshot =
  cs_core_pid :: "u32 option"
  cs_core_started_at :: "u64 option"
  cs_last_core_exit_reason :: "string option"
  cs_restart_count :: u32
  cs_last_recovery_at :: "u64 option"

definition non_zero :: "'a::len word \<Rightarrow> 'a word option" where
  "non_zero v = (if v \<noteq> 0 then Some v else None)"

definition core_status :: "world \<Rightarrow> core_status_snapshot" where
  "core_status w =
     \<lparr>cs_core_pid = non_zero (running_pid (mgr w)),
      cs_core_started_at = non_zero (core_started_at (mgr w)),
      cs_last_core_exit_reason = last_core_exit_reason (mgr w),
      cs_restart_count = restart_count (mgr w),
      cs_last_recovery_at = non_zero (last_recovery_at (mgr w))\<rparr>"

section \<open>The watchdog\<close>

text \<open>The end of the task: what runs after the loop was left.\<close>

definition watchdog_tail :: "params \<Rightarrow> bool \<Rightarrow> watchdog_task act" where
  "watchdog_tail E recovery_exhausted =
     bindE (modify_mgr (\<lambda>m. m\<lparr>running_pid := 0, core_start_time := None, core_started_at := 0\<rparr>)) (\<lambda>_.
     bindE (remove_core_runtime_record E) (\<lambda>_.
     bindE (if recovery_exhausted then set_core_state Fatal else okE ()) (\<lambda>_.
       okE (WatchdogDone (Inr ())))))"

definition recent_restarts :: "nat \<Rightarrow> nat list \<Rightarrow> nat list" where
  "recent_restarts t timestamps = filter (\<lambda>s. t - s < restart_window watchdog_config) timestamps"

text \<open>The variables of the task after a failed attempt, after an exit of the core, and after a restart.\<close>

definition after_failure :: "nat \<Rightarrow> watchdog \<Rightarrow> watchdog" where
  "after_failure t wd =
     wd\<lparr>wd_attempt := wd_attempt wd + 1, wd_timestamps := recent_restarts t (wd_timestamps wd) @ [t]\<rparr>"

definition after_exit :: "nat \<Rightarrow> watchdog \<Rightarrow> watchdog" where
  "after_exit t wd =
     (let recent = recent_restarts t (wd_timestamps wd) in
      wd\<lparr>wd_guard := None, wd_attempt := (if recent = [] then 0 else wd_attempt wd),
         wd_timestamps := recent @ [t]\<rparr>)"

definition after_restart :: "child_guard \<Rightarrow> watchdog \<Rightarrow> watchdog" where
  "after_restart child wd = wd\<lparr>wd_guard := child, wd_attempt := wd_attempt wd + 1\<rparr>"

definition retry_later :: "watchdog \<Rightarrow> watchdog_task act" where
  "retry_later wd = bindE read_instant (\<lambda>t. okE (WatchdogRunning (after_failure t wd)))"

text \<open>The child has exited and was reaped by the wait.\<close>

definition core_exited :: "params \<Rightarrow> watchdog \<Rightarrow> u32 \<Rightarrow> exit_status \<Rightarrow> watchdog_task act" where
  "core_exited E wd pid status =
     bindE (modify (\<lambda>w. w\<lparr>children := remove1 pid (children w)\<rparr>)) (\<lambda>_.
     bindE (modify_mgr (\<lambda>m. m\<lparr>last_core_exit_reason := Some (log_core_exit status)\<rparr>)) (\<lambda>_.
     bindE (set_core_state RecoveringCore) (\<lambda>_.
     bindE (modify_mgr (\<lambda>m. m\<lparr>running_pid := 0, core_started_at := 0\<rparr>)) (\<lambda>_.
     bindE (remove_core_runtime_record E) (\<lambda>_.
     bindE read_instant (\<lambda>t.
       okE (WatchdogRunning (after_exit t wd))))))))"

text \<open>
  Waiting on the child. When the child exits and the shutdown signal is there at the same moment, the
  runtime may take either branch; the environment decides.
\<close>

definition observe_child :: "u32 \<Rightarrow> child_event act" where
  "observe_child pid w = (Inr (ev_child (env w) (tick w) pid), w\<lparr>tick := Suc (tick w)\<rparr>)"

definition watch_child :: "params \<Rightarrow> bool \<Rightarrow> watchdog \<Rightarrow> u32 \<Rightarrow> watchdog_task act" where
  "watch_child E shutdown wd pid =
     bindE (observe_child pid) (\<lambda>event.
       (case event of
          StillRunning \<Rightarrow>
            if \<not> shutdown then okE (WatchdogRunning wd)
            else
              tryE (kill_now (Some pid)) (\<lambda>r.
                (case r of
                   Inr _ \<Rightarrow> watchdog_tail E False
                 | Inl e \<Rightarrow>
                     bindE (set_failed_child (Some pid)) (\<lambda>_.
                     bindE (set_core_state Fatal) (\<lambda>_.
                       okE (WatchdogDone (Inl (Ctx ''failed to terminate core during watchdog shutdown'' e)))))))
        | WaitFailed \<Rightarrow> bindE (modify (drop_guard (Some pid))) (\<lambda>_. watchdog_tail E True)
        | Exited status \<Rightarrow> core_exited E wd pid status))"

text \<open>A new core that could not be secured, and one that could not be recorded.\<close>

definition restart_unsecured :: "params \<Rightarrow> watchdog \<Rightarrow> child_guard \<Rightarrow> watchdog_task act" where
  "restart_unsecured E wd child =
     tryE (kill_now child) (\<lambda>k.
       (case k of
          Inr _ \<Rightarrow> retry_later wd
        | Inl kill_error \<Rightarrow>
            bindE (note_unconfirmed_core child) (\<lambda>_.
            tryE (write_runtime_record_for_config E child (wd_config wd)) (\<lambda>_.
            bindE (set_failed_child child) (\<lambda>_.
            bindE (set_core_state Fatal) (\<lambda>_.
              okE (WatchdogDone (Inl (Ctx ''failed to terminate restarted core after IPC hardening failure'' kill_error)))))))))"

definition restart_unrecorded :: "params \<Rightarrow> child_guard \<Rightarrow> err \<Rightarrow> watchdog_task act" where
  "restart_unrecorded E child record_error =
     tryE (kill_now child) (\<lambda>k.
       (case k of
          Inr _ \<Rightarrow> watchdog_tail E True
        | Inl kill_error \<Rightarrow>
            bindE (note_unconfirmed_core child) (\<lambda>_.
            bindE (set_failed_child child) (\<lambda>_.
            bindE (set_core_state Fatal) (\<lambda>_.
              okE (WatchdogDone (Inl (Msg (show_err record_error @
                ''; failed to terminate unrecorded restarted core: '' @ show_err kill_error)))))))))"

definition restart_recorded :: "watchdog \<Rightarrow> child_guard \<Rightarrow> watchdog_task act" where
  "restart_recorded wd child =
     bindE (modify_mgr (\<lambda>m. m\<lparr>running_pid := child_pid child\<rparr>)) (\<lambda>_.
     bindE read_instant (\<lambda>started.
     bindE read_clock (\<lambda>now_secs.
     bindE (modify_mgr (\<lambda>m. m\<lparr>core_start_time := Some started, core_started_at := now_secs,
              restart_count := restart_count m + 1, last_recovery_at := now_secs\<rparr>)) (\<lambda>_.
     bindE (set_core_state Running) (\<lambda>_.
       okE (WatchdogRunning (after_restart child wd)))))))"

text \<open>One restart attempt; a wait with a delay sees the shutdown signal.\<close>

definition restart_core :: "params \<Rightarrow> watchdog \<Rightarrow> watchdog_task act" where
  "restart_core E wd =
     (let ipc = cc_core_ipc_path (clash_core (wd_config wd)) in
      tryE (prepare_core_ipc_socket ipc (wd_owner wd)) (\<lambda>prepared.
        (case prepared of
           Inl error \<Rightarrow> retry_later wd
         | Inr _ \<Rightarrow>
             tryE (run_with_logging (clash_log (wd_config wd))) (\<lambda>spawned.
               (case spawned of
                  Inl error \<Rightarrow> retry_later wd
                | Inr child \<Rightarrow>
                    tryE (secure_core_ipc_socket ipc (wd_owner wd)) (\<lambda>secured.
                      (case secured of
                         Inl error \<Rightarrow> restart_unsecured E wd child
                       | Inr _ \<Rightarrow>
                           tryE (write_runtime_record_for_config E child (wd_config wd)) (\<lambda>recorded.
                             (case recorded of
                                Inl error \<Rightarrow> restart_unrecorded E child error
                              | Inr _ \<Rightarrow> restart_recorded wd child)))))))))"

definition recover :: "params \<Rightarrow> bool \<Rightarrow> watchdog \<Rightarrow> watchdog_task act" where
  "recover E shutdown wd =
     (if max_restarts watchdog_config < of_nat (length (wd_timestamps wd)) then watchdog_tail E True
      else if backoff_delay (wd_attempt wd) (max_backoff watchdog_config) \<noteq> 0 \<and> shutdown then watchdog_tail E False
      else restart_core E wd)"

definition watchdog_step :: "params \<Rightarrow> bool \<Rightarrow> watchdog \<Rightarrow> watchdog_task act" where
  "watchdog_step E shutdown wd =
     (case wd_guard wd of
        Some pid \<Rightarrow> watch_child E shutdown wd pid
      | None \<Rightarrow> recover E shutdown wd)"

section \<open>Starting and stopping\<close>

text \<open>
  Starting a watchdog replaces the handle and the sender of the shutdown signal of the one before; a
  task that still runs goes on without a handle and sees its signal.
\<close>

definition start_watchdog :: "child_guard \<Rightarrow> clash_config \<Rightarrow> owner_identity \<Rightarrow> unit act" where
  "start_watchdog child config owner =
     modify (\<lambda>w. w\<lparr>detached_watchdogs := detached_watchdogs w @
         (case watchdog_handle (mgr w) of Some (WatchdogRunning wd) \<Rightarrow> [wd] | _ \<Rightarrow> []),
       mgr := (mgr w)\<lparr>watchdog_handle := Some (WatchdogRunning
         \<lparr>wd_guard = child, wd_config = config, wd_owner = owner, wd_timestamps = [], wd_attempt = 0\<rparr>)\<rparr>\<rparr>)"

text \<open>
  Awaiting the task runs it to its end. The number of rounds is not bounded by the code alone: a core
  that exits again and again, each time more than the restart window later, restarts without delay. The
  model runs a fixed number of rounds; that they are enough when the restart window does not pass
  meanwhile is a theorem below.
\<close>

definition DRAIN_ROUNDS :: nat where "DRAIN_ROUNDS = 8"

fun run_watchdog :: "params \<Rightarrow> bool \<Rightarrow> nat \<Rightarrow> watchdog \<Rightarrow> watchdog_task act" where
  "run_watchdog E shutdown 0 wd = okE (WatchdogRunning wd)"
| "run_watchdog E shutdown (Suc n) wd =
     bindE (watchdog_step E shutdown wd) (\<lambda>task.
       (case task of
          WatchdogRunning wd' \<Rightarrow> run_watchdog E shutdown n wd'
        | WatchdogDone r \<Rightarrow> okE (WatchdogDone r)))"

text \<open>A task that has not ended stays in the handle; the caller would still be waiting.\<close>

definition join_watchdog :: "params \<Rightarrow> watchdog_task \<Rightarrow> unit act" where
  "join_watchdog E task =
     bindE (case task of
              WatchdogDone r \<Rightarrow> okE (WatchdogDone r)
            | WatchdogRunning wd \<Rightarrow> run_watchdog E True DRAIN_ROUNDS wd) (\<lambda>ended.
       (case ended of
          WatchdogDone r \<Rightarrow> liftE r
        | WatchdogRunning wd \<Rightarrow>
            bindE (modify_mgr (\<lambda>m. m\<lparr>watchdog_handle := Some (WatchdogRunning wd)\<rparr>)) (\<lambda>_.
              failE (Msg ''still waiting for the watchdog''))))"

definition stop_watchdog :: "params \<Rightarrow> unit act" where
  "stop_watchdog E =
     bindE (get (\<lambda>w. watchdog_handle (mgr w))) (\<lambda>handle.
     bindE (modify_mgr (\<lambda>m. m\<lparr>watchdog_handle := None\<rparr>)) (\<lambda>_.
       (case handle of
          None \<Rightarrow> okE ()
        | Some task \<Rightarrow> join_watchdog E task)))"

text \<open>\<open>LOGGER_MANAGER.clear_logs()\<close>.\<close>

definition clear_logs :: "unit act" where
  "clear_logs = modify (\<lambda>w. w\<lparr>core_logs := []\<rparr>)"

definition after_stop :: "string option \<Rightarrow> unit act" where
  "after_stop core_ipc_path =
     bindE (case core_ipc_path of None \<Rightarrow> okE () | Some p \<Rightarrow> cleanup_core_socket p) (\<lambda>_. clear_logs)"

text \<open>The child a failed kill left behind is killed again; whether there was one.\<close>

definition retry_failed_child :: "bool act" where
  "retry_failed_child =
     bindE (get (\<lambda>w. failed_child (mgr w))) (\<lambda>failed.
     bindE (modify_mgr (\<lambda>m. m\<lparr>failed_child := None\<rparr>)) (\<lambda>_.
       (case failed of
          None \<Rightarrow> okE False
        | Some child \<Rightarrow>
            tryE (kill_now child) (\<lambda>r.
              (case r of
                 Inr _ \<Rightarrow> okE True
               | Inl e \<Rightarrow>
                   bindE (set_failed_child child) (\<lambda>_.
                     failE (Ctx ''failed to retry termination of tracked core'' e)))))))"

definition forget_core :: "params \<Rightarrow> unit act" where
  "forget_core E =
     bindE (modify_mgr (\<lambda>m. m\<lparr>running_pid := 0, core_start_time := None, core_started_at := 0\<rparr>)) (\<lambda>_.
     bindE (get (\<lambda>w. running_config (mgr w))) (\<lambda>config.
     bindE (modify_mgr (\<lambda>m. m\<lparr>running_config := None\<rparr>)) (\<lambda>_.
     bindE (remove_core_runtime_record E) (\<lambda>_.
     bindE (after_stop (map_option (\<lambda>c. cc_core_ipc_path (clash_core c)) config)) (\<lambda>_.
       set_core_state Running)))))"

definition stop_core :: "params \<Rightarrow> unit act" where
  "stop_core E =
     bindE clear_logs (\<lambda>_.
     tryE (stop_watchdog E) (\<lambda>watchdog_result.
     bindE retry_failed_child (\<lambda>recovered_failed_child.
     bindE (if recovered_failed_child then okE () else liftE watchdog_result) (\<lambda>_.
       forget_core E))))"

definition start_unsecured :: "params \<Rightarrow> clash_config \<Rightarrow> child_guard \<Rightarrow> err \<Rightarrow> unit act" where
  "start_unsecured E config child error =
     tryE (kill_now child) (\<lambda>k.
       (case k of
          Inr _ \<Rightarrow> failE error
        | Inl kill_error \<Rightarrow>
            bindE (note_unconfirmed_core child) (\<lambda>_.
            bindE (modify_mgr (\<lambda>m. m\<lparr>running_config := Some config\<rparr>)) (\<lambda>_.
            tryE (write_runtime_record_for_config E child config) (\<lambda>_.
            bindE (set_failed_child child) (\<lambda>_.
            bindE (set_core_state Fatal) (\<lambda>_.
              failE (Msg (''failed to secure core IPC: '' @ show_err error @
                ''; failed to terminate spawned core: '' @ show_err kill_error)))))))))"

definition start_unrecorded :: "clash_config \<Rightarrow> child_guard \<Rightarrow> err \<Rightarrow> unit act" where
  "start_unrecorded config child record_error =
     tryE (kill_now child) (\<lambda>k.
       (case k of
          Inr _ \<Rightarrow> failE record_error
        | Inl kill_error \<Rightarrow>
            bindE (note_unconfirmed_core child) (\<lambda>_.
            bindE (modify_mgr (\<lambda>m. m\<lparr>running_config := Some config\<rparr>)) (\<lambda>_.
            bindE (set_failed_child child) (\<lambda>_.
            bindE (set_core_state Fatal) (\<lambda>_.
              failE (Msg (show_err record_error @
                ''; failed to terminate unrecorded core: '' @ show_err kill_error))))))))"

definition start_recorded :: "clash_config \<Rightarrow> owner_identity \<Rightarrow> child_guard \<Rightarrow> unit act" where
  "start_recorded config owner child =
     bindE read_instant (\<lambda>started.
     bindE read_clock (\<lambda>now_secs.
     bindE (modify_mgr (\<lambda>m. m\<lparr>core_start_time := Some started, core_started_at := now_secs,
              running_pid := child_pid child, running_config := Some config\<rparr>)) (\<lambda>_.
     bindE (start_watchdog child config owner) (\<lambda>_.
       set_core_state Running))))"

text \<open>From the spawn to the end of the start.\<close>

definition launch_core :: "params \<Rightarrow> clash_config \<Rightarrow> owner_identity \<Rightarrow> unit act" where
  "launch_core E config owner =
     bindE (prepare_core_ipc_socket (cc_core_ipc_path (clash_core config)) owner) (\<lambda>_.
     bindE (run_with_logging (clash_log config)) (\<lambda>child.
     tryE (secure_core_ipc_socket (cc_core_ipc_path (clash_core config)) owner) (\<lambda>secured.
       (case secured of
          Inl error \<Rightarrow> start_unsecured E config child error
        | Inr _ \<Rightarrow>
            tryE (write_runtime_record_for_config E child config) (\<lambda>recorded.
              (case recorded of
                 Inl error \<Rightarrow> start_unrecorded config child error
               | Inr _ \<Rightarrow> start_recorded config owner child))))))"

definition start_core :: "params \<Rightarrow> clash_config \<Rightarrow> owner_identity \<Rightarrow> unit act" where
  "start_core E config owner =
     bindE ensure_startup_reconciled (\<lambda>_.
     bindE (set_core_state Starting) (\<lambda>_.
     bindE (get (\<lambda>w. running_pid (mgr w))) (\<lambda>pid.
     bindE (if pid \<noteq> 0 then stop_core E else okE ()) (\<lambda>_.
       launch_core E config owner))))"

section \<open>The manager over time\<close>

text \<open>
  The running watchdog takes a round of its own; so does a detached one, which sees the shutdown
  signal. While it runs, the task is out of the place that holds it. The step relation is any
  interleaving of these rounds with calls of \<open>start_core\<close> and \<open>stop_core\<close>, which run one at a time
  under the manager's lock.
\<close>

definition watchdog_turn :: "params \<Rightarrow> unit act" where
  "watchdog_turn E =
     bindE (get (\<lambda>w. watchdog_handle (mgr w))) (\<lambda>handle.
       (case handle of
          Some (WatchdogRunning wd) \<Rightarrow>
            bindE (modify_mgr (\<lambda>m. m\<lparr>watchdog_handle := None\<rparr>)) (\<lambda>_.
            bindE (watchdog_step E False wd) (\<lambda>task.
              modify_mgr (\<lambda>m. m\<lparr>watchdog_handle := Some task\<rparr>)))
        | _ \<Rightarrow> okE ()))"

definition detached_turn :: "params \<Rightarrow> unit act" where
  "detached_turn E =
     bindE (get detached_watchdogs) (\<lambda>ds.
       (case ds of
          [] \<Rightarrow> okE ()
        | wd # rest \<Rightarrow>
            bindE (modify (\<lambda>w. w\<lparr>detached_watchdogs := rest\<rparr>)) (\<lambda>_.
            bindE (watchdog_step E True wd) (\<lambda>task.
              modify (\<lambda>w. w\<lparr>detached_watchdogs := detached_watchdogs w @
                (case task of WatchdogRunning wd' \<Rightarrow> [wd'] | WatchdogDone r \<Rightarrow> [])\<rparr>)))))"

inductive manager_step :: "params \<Rightarrow> world \<Rightarrow> world \<Rightarrow> bool" for E where
  start: "start_core E config owner w = (r, v) \<Longrightarrow> manager_step E w v"
| stop: "stop_core E w = (r, v) \<Longrightarrow> manager_step E w v"
| turn: "watchdog_turn E w = (r, v) \<Longrightarrow> manager_step E w v"
| detached: "detached_turn E w = (r, v) \<Longrightarrow> manager_step E w v"

inductive_cases manager_stepE: "manager_step E w v"

end
