(* ===== verification/Supervision.thy ===== *)
theory Supervision
  imports Manager "HOL-Library.Multiset"
begin

text \<open>
  No core is lost. Every child of the service that has not been reaped is held by exactly one of: the
  running watchdog, the cell \<open>failed_child\<close>, a guard whose drop is killing it, a watchdog that was
  replaced. The proof is a small Hoare logic over the operations of the manager: \<open>accounted g\<close> says that
  the children are those places plus the guards \<open>g\<close> the running code holds in a local variable.
\<close>

section \<open>Triples\<close>

definition triple ::
  "('s \<Rightarrow> bool) \<Rightarrow> ('s, 'e, 'a) op \<Rightarrow> ('a \<Rightarrow> 's \<Rightarrow> bool) \<Rightarrow> ('e \<Rightarrow> 's \<Rightarrow> bool) \<Rightarrow> bool" where
  "triple P m Q R \<longleftrightarrow>
     (\<forall>w x e v. P w \<longrightarrow> (m w = (Inr x, v) \<longrightarrow> Q x v) \<and> (m w = (Inl e, v) \<longrightarrow> R e v))"

lemma triple_ok: "triple P m Q R \<Longrightarrow> P w \<Longrightarrow> m w = (Inr x, v) \<Longrightarrow> Q x v"
  by (auto simp: triple_def)

lemma triple_fails: "triple P m Q R \<Longrightarrow> P w \<Longrightarrow> m w = (Inl e, v) \<Longrightarrow> R e v"
  by (auto simp: triple_def)

lemma triple_weaken:
  assumes "triple P m Q R" and "\<And>w. P' w \<Longrightarrow> P w" and "\<And>x w. Q x w \<Longrightarrow> Q' x w" and "\<And>e w. R e w \<Longrightarrow> R' e w"
  shows "triple P' m Q' R'"
  using assms unfolding triple_def by blast

lemma triple_okE: "(\<And>w. P w \<Longrightarrow> Q x w) \<Longrightarrow> triple P (okE x) Q R"
  by (simp add: triple_def okE_def)

lemma triple_failE: "(\<And>w. P w \<Longrightarrow> R e w) \<Longrightarrow> triple P (failE e) Q R"
  by (simp add: triple_def failE_def)

lemma triple_liftE: "(\<And>x w. P w \<Longrightarrow> Q x w) \<Longrightarrow> (\<And>e w. P w \<Longrightarrow> R e w) \<Longrightarrow> triple P (liftE r) Q R"
  by (auto simp: triple_def liftE_def)

lemma triple_bindE:
  assumes m: "triple P m Q R" and k: "\<And>x. triple (Q x) (k x) S R"
  shows "triple P (bindE m k) S R"
  unfolding triple_def
proof (intro allI impI conjI)
  fix w x e v assume "P w"
  { assume "bindE m k w = (Inr x, v)"
    then show "S x v" using \<open>P w\<close> m k unfolding bindE_Inr by (metis triple_ok)
  next
    assume "bindE m k w = (Inl e, v)"
    then show "R e v" using \<open>P w\<close> m k unfolding bindE_def
      by (auto split: prod.splits sum.splits dest: triple_ok triple_fails)
  }
qed

lemma triple_tryE:
  assumes m: "triple P m Q R" and k: "\<And>x. triple (Q x) (k (Inr x)) S T" and h: "\<And>e. triple (R e) (k (Inl e)) S T"
  shows "triple P (tryE m k) S T"
  unfolding triple_def
proof (intro allI impI conjI)
  fix w x e v assume P: "P w"
  obtain r u where m': "m w = (r, u)" by (cases "m w")
  have run: "tryE m k w = k r u" by (simp add: tryE_def m')
  have "triple (\<lambda>s. s = u) (k r) S T"
  proof (cases r)
    case (Inl e)
    with m' P m have "R e u" by (auto dest: triple_fails)
    with h [of e] Inl show ?thesis by (auto simp: triple_def)
  next
    case (Inr x)
    with m' P m have "Q x u" by (auto dest: triple_ok)
    with k [of x] Inr show ?thesis by (auto simp: triple_def)
  qed
  then show "tryE m k w = (Inr x, v) \<Longrightarrow> S x v" "tryE m k w = (Inl e, v) \<Longrightarrow> T e v"
    unfolding run by (auto simp: triple_def)
qed

lemma triple_match:
  assumes "triple P m Q R" and "\<And>x. triple (Q x) (k x) S T" and "\<And>e. triple (R e) (h e) S T"
  shows "triple P (tryE m (\<lambda>r. case r of Inl e \<Rightarrow> h e | Inr x \<Rightarrow> k x)) S T"
  using assms by (intro triple_tryE) simp_all

lemma triple_known: "(A \<Longrightarrow> triple P m Q R) \<Longrightarrow> triple (\<lambda>w. P w \<and> A) m Q R"
  by (auto simp: triple_def)

lemma triple_mapErrE:
  assumes "triple P m Q (\<lambda>e. R (f e))"
  shows "triple P (mapErrE f m) Q R"
  unfolding triple_def
proof (intro allI impI)
  fix w x e v assume P: "P w"
  obtain r u where run: "m w = (r, u)" by (cases "m w")
  show "(mapErrE f m w = (Inr x, v) \<longrightarrow> Q x v) \<and> (mapErrE f m w = (Inl e, v) \<longrightarrow> R e v)"
  proof (cases r)
    case (Inl e')
    with triple_fails [OF assms P] run show ?thesis by (auto simp: mapErrE_def)
  next
    case (Inr x')
    with triple_ok [OF assms P] run show ?thesis by (auto simp: mapErrE_def)
  qed
qed

lemma triple_if: "triple P m Q R \<Longrightarrow> triple P n Q R \<Longrightarrow> triple P (if b then m else n) Q R"
  by simp

lemma triple_case_option:
  "triple P m Q R \<Longrightarrow> (\<And>x. triple P (k x) Q R) \<Longrightarrow> triple P (case v of None \<Rightarrow> m | Some x \<Rightarrow> k x) Q R"
  by (cases v) auto

lemma triple_modify: "(\<And>w. P w \<Longrightarrow> Q () (f w)) \<Longrightarrow> triple P (modify f) Q R"
  by (simp add: triple_def modify_def)

lemma triple_get: "triple P (get f) (\<lambda>x w. x = f w \<and> P w) R"
  by (simp add: triple_def get_def)

lemma triple_keeps:
  assumes "keeps f m" and "\<And>w v. f v = f w \<Longrightarrow> P w \<Longrightarrow> P v"
  shows "triple P m (\<lambda>_. P) (\<lambda>_. P)"
  using assms unfolding triple_def by (blast dest: keepsD)

section \<open>Who holds a child\<close>

definition guards :: "child_guard \<Rightarrow> u32 multiset" where
  "guards child = (case child of None \<Rightarrow> {#} | Some pid \<Rightarrow> {#pid#})"

fun task_guards :: "watchdog_task \<Rightarrow> u32 multiset" where
  "task_guards (WatchdogRunning wd) = guards (wd_guard wd)"
| "task_guards (WatchdogDone r) = {#}"

definition tracked :: "world \<Rightarrow> u32 multiset" where
  "tracked w = mset (dropped_children w) + sum_list (map (guards \<circ> wd_guard) (detached_watchdogs w)) +
     (case watchdog_handle (mgr w) of None \<Rightarrow> {#} | Some task \<Rightarrow> task_guards task) +
     (case failed_child (mgr w) of None \<Rightarrow> {#} | Some child \<Rightarrow> guards child)"

definition accounted :: "u32 multiset \<Rightarrow> world \<Rightarrow> bool" where
  "accounted g w \<longleftrightarrow> mset (children w) = tracked w + g"

definition census :: "world \<Rightarrow> u32 list \<times> u32 list \<times> watchdog list \<times> watchdog_task option \<times> child_guard option" where
  "census w = (children w, dropped_children w, detached_watchdogs w, watchdog_handle (mgr w), failed_child (mgr w))"

lemma blind_census [simp]: "blind_to_files census"
  by (simp add: blind_to_files_def census_def)

lemma accounted_census: "census v = census w \<Longrightarrow> accounted g w \<Longrightarrow> accounted g v"
  by (simp add: census_def accounted_def tracked_def)

lemma accounted_keeps: "keeps census m \<Longrightarrow> triple (accounted g) m (\<lambda>_. accounted g) (\<lambda>_. accounted g)"
  by (rule triple_keeps) (auto intro: accounted_census)

lemma guards_simps [simp]: "guards None = {#}" "guards (Some pid) = {#pid#}"
  by (simp_all add: guards_def)

section \<open>The building blocks\<close>

lemma census_ops [frame]:
  "keeps census (prepare_core_ipc_socket p owner)" "keeps census (secure_core_ipc_socket p owner)"
  "keeps census (remove_core_runtime_record E)" "keeps census (write_runtime_record_for_config E child config)"
  "keeps census read_instant" "keeps census read_clock" "keeps census (set_core_state s)"
  "keeps census (after_stop ipc)" "keeps census clear_logs" "keeps census ensure_startup_reconciled"
proof -
  have t: "census (w\<lparr>tick := n\<rparr>) = census w" for w n by (simp add: census_def)
  show "keeps census (prepare_core_ipc_socket p owner)" "keeps census (secure_core_ipc_socket p owner)"
    "keeps census (remove_core_runtime_record E)" by (simp_all add: blind)
  show "keeps census (write_runtime_record_for_config E child config)"
    unfolding write_runtime_record_for_config_def by (intro frame keeps_looks t blind) simp
  show "keeps census read_instant" "keeps census read_clock"
    by (simp_all add: keeps_def read_instant_def read_clock_def t)
  show "keeps census (set_core_state s)" "keeps census clear_logs"
    by (simp_all add: keeps_def set_core_state_def clear_logs_def modify_def set_core_lifecycle_state_def census_def)
  then show "keeps census (after_stop ipc)"
    unfolding after_stop_def by (intro frame blind) simp_all
  show "keeps census ensure_startup_reconciled"
    unfolding ensure_startup_reconciled_def by (intro frame)
qed

lemma census_modify_mgr [frame]:
  "(\<And>m. watchdog_handle (f m) = watchdog_handle m \<and> failed_child (f m) = failed_child m) \<Longrightarrow>
   keeps census (modify_mgr f)"
  by (simp add: keeps_def modify_mgr_def modify_def census_def)

lemma census_note [frame]: "keeps census (note_unconfirmed_core child)"
  unfolding note_unconfirmed_core_def by (intro frame) simp

text \<open>An operation that cannot fail leaves the error case empty.\<close>

lemma never_fails:
  assumes "triple P m Q R" and "\<And>w. is_ok (fst (m w))"
  shows "triple P m Q S"
  using assms unfolding triple_def by (metis fst_conv is_ok.simps(1))

lemma total_ops:
  "is_ok (fst (remove_core_runtime_record E w))" "is_ok (fst (read_instant w))"
  "is_ok (fst ((read_clock :: u64 act) w))" "is_ok (fst (set_core_state s w))" "is_ok (fst (modify_mgr f w))"
  "is_ok (fst (note_unconfirmed_core child w))"
  by (simp_all add: remove_core_runtime_record_def read_instant_def read_clock_def set_core_state_def
      modify_mgr_def modify_def note_unconfirmed_core_def tryE_eq okE_def bindE_def)

lemmas accounted_total =
  never_fails [OF accounted_keeps [OF census_ops(3)] total_ops(1)]
  never_fails [OF accounted_keeps [OF census_ops(5)] total_ops(2)]
  never_fails [OF accounted_keeps [OF census_ops(6)] total_ops(3)]
  never_fails [OF accounted_keeps [OF census_ops(7)] total_ops(4)]
  never_fails [OF accounted_keeps [OF census_note] total_ops(6)]

lemma accounted_modify_mgr:
  "(\<And>m. watchdog_handle (f m) = watchdog_handle m \<and> failed_child (f m) = failed_child m) \<Longrightarrow>
   triple (accounted g) (modify_mgr f) (\<lambda>_. accounted g) R"
  by (simp add: triple_def modify_mgr_def modify_def accounted_def tracked_def)

lemma accounted_run:
  "triple (accounted g) (run_with_logging writer) (\<lambda>child. accounted (g + guards child)) (\<lambda>_. accounted g)"
  unfolding run_with_logging_def set_or_update_writer_def spawn_core_def
  by (auto simp: triple_def bindE_def io_act_def mapErrE_def syscall_def Let_def okE_def accounted_def tracked_def
      split: option.splits)

lemma accounted_kill:
  "triple (accounted (g + guards child)) (kill_now child) (\<lambda>_. accounted g) (\<lambda>_. accounted (g + guards child))"
  unfolding kill_now_def kill_child_def reap_child_def
  by (auto simp: triple_def ctx_def bindE_def io_act_def mapErrE_def syscall_def Let_def okE_def accounted_def tracked_def
      split: option.splits)

lemma accounted_set_failed:
  "triple (accounted (g + guards child)) (set_failed_child child) (\<lambda>_. accounted g) R"
  unfolding set_failed_child_def
  by (auto simp: triple_def modify_def accounted_def tracked_def drop_guard_def Let_def split: option.splits)

lemma accounted_drop:
  "triple (accounted (g + guards child)) (modify (drop_guard child)) (\<lambda>_. accounted g) R"
  by (auto simp: triple_def modify_def accounted_def tracked_def drop_guard_def split: option.splits)

lemma accounted_reaped:
  "triple (accounted (g + {#pid#})) (modify (\<lambda>w. w\<lparr>children := remove1 pid (children w)\<rparr>)) (\<lambda>_. accounted g) R"
  by (simp add: triple_def modify_def accounted_def tracked_def)

section \<open>The watchdog keeps the account\<close>

text \<open>What a round of the watchdog promises: it never fails, and the guard is in the new state of the task.\<close>

abbreviation keeps_account :: "u32 multiset \<Rightarrow> child_guard \<Rightarrow> watchdog_task act \<Rightarrow> bool" where
  "keeps_account g child m \<equiv>
     triple (accounted (g + guards child)) m (\<lambda>task. accounted (g + task_guards task)) (\<lambda>_ _. False)"

lemmas no_guard = guards_simps(1) add_0_right

lemma account_tail: "keeps_account g None (watchdog_tail E b)"
  unfolding watchdog_tail_def no_guard
  by (intro triple_bindE [where Q = "\<lambda>_. accounted g"] triple_if accounted_modify_mgr accounted_total triple_okE) simp_all

lemma after_guards [simp]:
  "wd_guard (after_failure t wd) = wd_guard wd" "wd_guard (after_exit t wd) = None" "wd_guard (after_restart child wd) = child"
  by (simp_all add: after_failure_def after_exit_def after_restart_def Let_def)

lemma account_retry: "wd_guard wd = None \<Longrightarrow> keeps_account g None (retry_later wd)"
  unfolding retry_later_def no_guard
  by (intro triple_bindE [where Q = "\<lambda>_. accounted g"] accounted_total triple_okE) simp_all

lemma account_exited: "keeps_account g (Some pid) (core_exited E wd pid st)"
  unfolding core_exited_def Let_def guards_simps
  by (intro triple_bindE [where Q = "\<lambda>_. accounted g"] accounted_reaped accounted_modify_mgr accounted_total triple_okE)
    simp_all

lemma account_given_up: 
  "keeps_account g child (bindE (set_failed_child child) (\<lambda>_. bindE (set_core_state s) (\<lambda>_. okE (WatchdogDone r))))"
  by (intro triple_bindE [where Q = "\<lambda>_. accounted g"] accounted_set_failed accounted_total triple_okE) simp

lemma account_observe: "triple (accounted g) (observe_child pid) (\<lambda>_. accounted g) (\<lambda>_ _. False)"
  by (simp add: triple_def observe_child_def accounted_def tracked_def)

lemma account_watch:
  assumes "wd_guard wd = Some pid"
  shows "keeps_account g (Some pid) (watch_child E shutdown wd pid)"
  unfolding watch_child_def
proof (rule triple_bindE [OF account_observe])
  fix event
  have "keeps_account g (Some pid) (tryE (kill_now (Some pid)) (\<lambda>r.
      (case r of
         Inr _ \<Rightarrow> watchdog_tail E False
       | Inl e \<Rightarrow>
           bindE (set_failed_child (Some pid)) (\<lambda>_.
           bindE (set_core_state Fatal) (\<lambda>_.
             okE (WatchdogDone (Inl (Ctx ''failed to terminate core during watchdog shutdown'' e)))))))) "
    using account_tail [unfolded no_guard] by (intro triple_match [OF accounted_kill] account_given_up)
  moreover have "keeps_account g (Some pid) (bindE (modify (drop_guard (Some pid))) (\<lambda>_. watchdog_tail E True))"
    using account_tail [unfolded no_guard] by (intro triple_bindE [OF accounted_drop])
  moreover have "keeps_account g (Some pid) (okE (WatchdogRunning wd))"
    using assms by (intro triple_okE) simp
  ultimately show "keeps_account g (Some pid) (case event of
      StillRunning \<Rightarrow>
        if \<not> shutdown then okE (WatchdogRunning wd)
        else
          tryE (kill_now (Some pid)) (\<lambda>r.
            (case r of
               Inr _ \<Rightarrow> watchdog_tail E False
             | Inl e \<Rightarrow>
                 bindE (set_failed_child (Some pid)) (\<lambda>_.
                 bindE (set_core_state Fatal) (\<lambda>_.
                   okE (WatchdogDone (Inl (Ctx ''failed to terminate core during watchdog shutdown'' e)))))))
    | WaitFailed \<Rightarrow> bindE (modify (drop_guard (Some pid))) (\<lambda>_. watchdog_tail E True)
    | Exited status \<Rightarrow> core_exited E wd pid status)"
    using account_exited by (cases event) simp_all
qed

lemma account_unsecured:
  assumes "wd_guard wd = None"
  shows "keeps_account g child (restart_unsecured E wd child)"
  unfolding restart_unsecured_def
  using account_retry [OF assms, unfolded no_guard]
  by (intro triple_match [OF accounted_kill] triple_bindE [where Q = "\<lambda>_. accounted (g + guards child)", OF accounted_total(5)]
      triple_tryE [OF accounted_keeps [OF census_ops(4)]] account_given_up)

lemma account_unrecorded: "keeps_account g child (restart_unrecorded E child e)"
  unfolding restart_unrecorded_def
  using account_tail [unfolded no_guard]
  by (intro triple_match [OF accounted_kill] triple_bindE [where Q = "\<lambda>_. accounted (g + guards child)", OF accounted_total(5)]
      account_given_up)

lemma account_recorded: "keeps_account g child (restart_recorded wd child)"
  unfolding restart_recorded_def
  by (intro triple_bindE [where Q = "\<lambda>_. accounted (g + guards child)"] accounted_modify_mgr accounted_total triple_okE)
    simp_all

lemma account_restart:
  assumes "wd_guard wd = None"
  shows "keeps_account g None (restart_core E wd)"
proof -
  note steps = account_retry [OF assms] account_unsecured [OF assms] account_unrecorded account_recorded
  show ?thesis
    unfolding restart_core_def Let_def no_guard
    using steps [unfolded no_guard]
    by (intro triple_match [OF accounted_keeps [OF census_ops(1)]] triple_match [OF accounted_run]
        triple_match [OF accounted_keeps [OF census_ops(2)]] triple_match [OF accounted_keeps [OF census_ops(4)]])
qed

lemma account_step: "keeps_account g (wd_guard wd) (watchdog_step E shutdown wd)"
  using account_watch account_restart account_tail
  by (auto simp: watchdog_step_def recover_def split: option.splits)

lemma account_rounds:
  "keeps_account g (wd_guard wd) (run_watchdog E shutdown n wd)"
proof (induction n arbitrary: wd)
  case 0
  show ?case by (auto intro: triple_okE)
next
  case (Suc n)
  show ?case
    unfolding run_watchdog.simps
  proof (rule triple_bindE [OF account_step])
    fix task
    show "triple (accounted (g + task_guards task))
        (case task of WatchdogRunning wd' \<Rightarrow> run_watchdog E shutdown n wd' | WatchdogDone r \<Rightarrow> okE (WatchdogDone r))
        (\<lambda>task. accounted (g + task_guards task)) (\<lambda>_ _. False)"
      using Suc.IH by (cases task) (auto intro: triple_okE)
  qed
qed

section \<open>The handle\<close>

definition handle :: "world \<Rightarrow> watchdog_task option" where
  "handle w = watchdog_handle (mgr w)"

lemma handle_modify_mgr [frame]: "(\<And>m. watchdog_handle (f m) = watchdog_handle m) \<Longrightarrow> keeps handle (modify_mgr f)"
  by (simp add: keeps_def modify_mgr_def modify_def handle_def)

lemma handle_of_census: "keeps census m \<Longrightarrow> keeps handle m"
  by (simp add: keeps_def census_def handle_def)

lemmas handle_census [frame] = census_ops [THEN handle_of_census] census_note [THEN handle_of_census]

lemma handle_syscall: "keeps handle m \<Longrightarrow> keeps handle (syscall m)"
  by (rule keeps_syscall) (simp_all add: handle_def)

lemma handle_ops [frame]:
  "keeps handle (kill_now child)" "keeps handle (set_failed_child child)" "keeps handle (modify (drop_guard child))"
  "keeps handle (run_with_logging writer)" "keeps handle (observe_child pid)" 
proof -
  show "keeps handle (kill_now child)"
    unfolding kill_now_def kill_child_def reap_child_def
    by (intro frame handle_syscall; simp add: keeps_def handle_def)
  show "keeps handle (set_failed_child child)" "keeps handle (modify (drop_guard child))"
    by (simp_all add: keeps_def set_failed_child_def modify_def handle_def drop_guard_def Let_def split: option.splits)
  show "keeps handle (run_with_logging writer)"
    unfolding run_with_logging_def set_or_update_writer_def spawn_core_def
    by (intro keeps_bindE keeps_io_act keeps_okE handle_syscall; simp add: keeps_def handle_def Let_def)
  show "keeps handle (observe_child pid)"
    by (simp add: keeps_def observe_child_def handle_def)
qed

lemma handle_tail [frame]: "keeps handle (watchdog_tail E b)" "keeps handle (retry_later wd)"
  unfolding watchdog_tail_def retry_later_def
  by (intro frame; simp)+

lemma keeps_case_event [frame]:
  "keeps f a \<Longrightarrow> (\<And>st. keeps f (b st)) \<Longrightarrow> keeps f c \<Longrightarrow>
   keeps f (case e of StillRunning \<Rightarrow> a | Exited st \<Rightarrow> b st | WaitFailed \<Rightarrow> c)"
  by (cases e) auto

lemma keeps_case_task [frame]:
  "(\<And>wd. keeps f (a wd)) \<Longrightarrow> (\<And>r. keeps f (b r)) \<Longrightarrow>
   keeps f (case t of WatchdogRunning wd \<Rightarrow> a wd | WatchdogDone r \<Rightarrow> b r)"
  by (cases t) auto

lemma handle_step [frame]: "keeps handle (watchdog_step E shutdown wd)"
proof -
  have "keeps handle (core_exited E wd pid st)" for pid st
    unfolding core_exited_def Let_def
    by (intro frame; simp add: handle_def)
  then show ?thesis
    unfolding watchdog_step_def watch_child_def recover_def restart_core_def restart_unsecured_def
      restart_unrecorded_def restart_recorded_def Let_def
    by (intro frame; simp add: handle_def drop_guard_def)
qed

lemma handle_rounds [frame]: "keeps handle (run_watchdog E shutdown n wd)"
  by (induction n arbitrary: wd) (auto intro!: frame)

section \<open>The calls keep the account\<close>

text \<open>An account with an empty handle, as it is while a task is being awaited.\<close>

definition unhandled :: "u32 multiset \<Rightarrow> world \<Rightarrow> bool" where
  "unhandled g w \<longleftrightarrow> accounted g w \<and> handle w = None"

lemma triple_unhandled:
  assumes "triple (accounted g) m (\<lambda>x. accounted (h x)) (\<lambda>e. accounted (h' e))" and "keeps handle m"
  shows "triple (unhandled g) m (\<lambda>x. unhandled (h x)) (\<lambda>e. unhandled (h' e))"
  using assms by (auto simp: triple_def unhandled_def dest: keepsD)

lemma account_join: "triple (unhandled (task_guards task)) (join_watchdog E task) (\<lambda>_. accounted {#}) (\<lambda>_. accounted {#})"
  unfolding join_watchdog_def
proof (rule triple_bindE)
  show "triple (unhandled (task_guards task))
      (case task of WatchdogDone r \<Rightarrow> okE (WatchdogDone r) | WatchdogRunning wd \<Rightarrow> run_watchdog E True DRAIN_ROUNDS wd)
      (\<lambda>ended. unhandled (task_guards ended)) (\<lambda>_. accounted {#})"
  proof (cases task)
    case (WatchdogRunning wd)
    have "triple (accounted (guards (wd_guard wd))) (run_watchdog E True DRAIN_ROUNDS wd)
        (\<lambda>ended. accounted (task_guards ended)) (\<lambda>_. accounted {#})"
      using account_rounds [of "{#}" wd E True DRAIN_ROUNDS] by (rule triple_weaken) simp_all
    from triple_unhandled [OF this handle_rounds]
    have "triple (unhandled (guards (wd_guard wd))) (run_watchdog E True DRAIN_ROUNDS wd)
        (\<lambda>ended. unhandled (task_guards ended)) (\<lambda>_. accounted {#})"
      by (rule triple_weaken) (simp_all add: unhandled_def)
    then show ?thesis using WatchdogRunning by simp
  next
    case (WatchdogDone r)
    then show ?thesis by (auto intro: triple_okE)
  qed
next
  fix ended
  show "triple (unhandled (task_guards ended))
      (case ended of WatchdogDone r \<Rightarrow> liftE r
       | WatchdogRunning wd \<Rightarrow>
           bindE (modify_mgr (\<lambda>m. m\<lparr>watchdog_handle := Some (WatchdogRunning wd)\<rparr>)) (\<lambda>_.
             failE (Msg ''still waiting for the watchdog'')))
      (\<lambda>_. accounted {#}) (\<lambda>_. accounted {#})"
    by (cases ended)
      (auto simp: triple_def bindE_def modify_mgr_def modify_def failE_def liftE_def unhandled_def handle_def
        accounted_def tracked_def)
qed

lemma account_stop_watchdog: "triple (accounted {#}) (stop_watchdog E) (\<lambda>_. accounted {#}) (\<lambda>_. accounted {#})"
  unfolding stop_watchdog_def
proof (rule triple_bindE [OF triple_get])
  fix h
  have "triple (\<lambda>w. h = watchdog_handle (mgr w) \<and> accounted {#} w) (modify_mgr (\<lambda>m. m\<lparr>watchdog_handle := None\<rparr>))
      (\<lambda>_. unhandled (case h of None \<Rightarrow> {#} | Some task \<Rightarrow> task_guards task)) (\<lambda>_. accounted {#})"
    by (auto simp: triple_def modify_mgr_def modify_def unhandled_def handle_def accounted_def tracked_def)
  then show "triple (\<lambda>w. h = watchdog_handle (mgr w) \<and> accounted {#} w)
      (bindE (modify_mgr (\<lambda>m. m\<lparr>watchdog_handle := None\<rparr>)) (\<lambda>_.
         case h of None \<Rightarrow> okE () | Some task \<Rightarrow> join_watchdog E task)) (\<lambda>_. accounted {#}) (\<lambda>_. accounted {#})"
    by (rule triple_bindE) (auto intro: triple_okE account_join simp: unhandled_def split: option.splits)
qed

lemma account_retry_failed: "triple (accounted {#}) retry_failed_child (\<lambda>_. accounted {#}) (\<lambda>_. accounted {#})"
  unfolding retry_failed_child_def
proof (rule triple_bindE [OF triple_get])
  fix f
  have "triple (\<lambda>w. f = failed_child (mgr w) \<and> accounted {#} w) (modify_mgr (\<lambda>m. m\<lparr>failed_child := None\<rparr>))
      (\<lambda>_. accounted (case f of None \<Rightarrow> {#} | Some child \<Rightarrow> guards child)) (\<lambda>_. accounted {#})"
    by (auto simp: triple_def modify_mgr_def modify_def accounted_def tracked_def)
  moreover have "triple (accounted (guards child)) (tryE (kill_now child) (\<lambda>r.
      (case r of Inr _ \<Rightarrow> okE True
       | Inl e \<Rightarrow> bindE (set_failed_child child) (\<lambda>_. failE (Ctx ''failed to retry termination of tracked core'' e)))))
      (\<lambda>_. accounted {#}) (\<lambda>_. accounted {#})" for child
    using accounted_kill [of "{#}" child] accounted_set_failed [of "{#}" child]
    by (intro triple_match [where Q = "\<lambda>_. accounted {#}" and R = "\<lambda>_. accounted (guards child)"]
        triple_bindE [where Q = "\<lambda>_. accounted {#}"] triple_okE triple_failE) simp_all
  ultimately show "triple (\<lambda>w. f = failed_child (mgr w) \<and> accounted {#} w)
      (bindE (modify_mgr (\<lambda>m. m\<lparr>failed_child := None\<rparr>)) (\<lambda>_.
        case f of None \<Rightarrow> okE False
        | Some child \<Rightarrow> tryE (kill_now child) (\<lambda>r.
            (case r of Inr _ \<Rightarrow> okE True
             | Inl e \<Rightarrow> bindE (set_failed_child child) (\<lambda>_. failE (Ctx ''failed to retry termination of tracked core'' e))))))
      (\<lambda>_. accounted {#}) (\<lambda>_. accounted {#})"
    by (intro triple_bindE) (auto intro: triple_okE split: option.splits)
qed

lemma account_forget: "triple (accounted {#}) (forget_core E) (\<lambda>_. accounted {#}) (\<lambda>_. accounted {#})"
  unfolding forget_core_def
  by (rule accounted_keeps) (intro frame; simp)

lemma account_stop: "triple (accounted {#}) (stop_core E) (\<lambda>_. accounted {#}) (\<lambda>_. accounted {#})"
  unfolding stop_core_def
  by (intro triple_bindE [OF accounted_keeps] triple_tryE [OF account_stop_watchdog] triple_bindE [OF account_retry_failed]
      triple_bindE [where Q = "\<lambda>_. accounted {#}"] triple_if triple_okE triple_liftE account_forget frame)

lemma account_start_unsecured:
  "triple (accounted (guards child)) (start_unsecured E config child e) (\<lambda>_. accounted {#}) (\<lambda>_. accounted {#})"
proof -
  note given_up = accounted_set_failed [of "{#}" child, unfolded add_0]
  show ?thesis
    unfolding start_unsecured_def
    by (intro triple_match [OF accounted_kill [of "{#}" child, unfolded add_0]] triple_failE
        triple_bindE [where Q = "\<lambda>_. accounted (guards child)", OF accounted_total(5)]
        triple_bindE [where Q = "\<lambda>_. accounted (guards child)", OF accounted_modify_mgr]
        triple_tryE [OF accounted_keeps [OF census_ops(4)]] triple_bindE [OF given_up]
        triple_bindE [OF accounted_total(4)]) simp_all
qed

lemma account_start_unrecorded:
  "triple (accounted (guards child)) (start_unrecorded config child e) (\<lambda>_. accounted {#}) (\<lambda>_. accounted {#})"
proof -
  note given_up = accounted_set_failed [of "{#}" child, unfolded add_0]
  show ?thesis
    unfolding start_unrecorded_def
    by (intro triple_match [OF accounted_kill [of "{#}" child, unfolded add_0]] triple_failE
        triple_bindE [where Q = "\<lambda>_. accounted (guards child)", OF accounted_total(5)]
        triple_bindE [where Q = "\<lambda>_. accounted (guards child)", OF accounted_modify_mgr]
        triple_bindE [OF given_up] triple_bindE [OF accounted_total(4)]) simp_all
qed

lemma account_start_recorded:
  "triple (accounted (guards child)) (start_recorded config owner child) (\<lambda>_. accounted {#}) (\<lambda>_. accounted {#})"
proof -
  have watch: "triple (accounted (guards child)) (start_watchdog child config owner) (\<lambda>_. accounted {#}) R" for R
    by (auto simp: start_watchdog_def triple_def modify_def accounted_def tracked_def
        split: option.splits watchdog_task.splits)
  show ?thesis
    unfolding start_recorded_def
    by (intro triple_bindE [where Q = "\<lambda>_. accounted (guards child)", OF accounted_total(2)]
        triple_bindE [where Q = "\<lambda>_. accounted (guards child)", OF accounted_total(3)]
        triple_bindE [where Q = "\<lambda>_. accounted (guards child)", OF accounted_modify_mgr]
        triple_bindE [OF watch] accounted_total(4)) simp_all
qed

lemma account_launch: "triple (accounted {#}) (launch_core E config owner) (\<lambda>_. accounted {#}) (\<lambda>_. accounted {#})"
  unfolding launch_core_def
  by (intro triple_bindE [OF accounted_keeps [OF census_ops(1)]]
      triple_bindE [OF accounted_run [of "{#}", unfolded add_0]] triple_match [OF accounted_keeps [OF census_ops(2)]]
      triple_match [OF accounted_keeps [OF census_ops(4)]]
      account_start_unsecured account_start_unrecorded account_start_recorded)

lemma account_start: "triple (accounted {#}) (start_core E config owner) (\<lambda>_. accounted {#}) (\<lambda>_. accounted {#})"
proof -
  have get: "triple (accounted {#}) (get f) (\<lambda>_. accounted {#}) (\<lambda>_. accounted {#})" for f :: "world \<Rightarrow> u32"
    by (rule accounted_keeps) (rule frame)
  show ?thesis
    unfolding start_core_def
    by (intro triple_bindE [OF accounted_keeps [OF census_ops(10)]] triple_bindE [OF accounted_total(4)]
        triple_bindE [OF get] triple_bindE [where Q = "\<lambda>_. accounted {#}"] triple_if account_stop triple_okE account_launch)
qed

lemma account_turn: "triple (accounted {#}) (watchdog_turn E) (\<lambda>_. accounted {#}) (\<lambda>_. accounted {#})"
  unfolding watchdog_turn_def
proof (rule triple_bindE [OF triple_get])
  fix h
  have step: "triple (unhandled (guards (wd_guard wd)))
      (bindE (watchdog_step E False wd) (\<lambda>task. modify_mgr (\<lambda>m. m\<lparr>watchdog_handle := Some task\<rparr>)))
      (\<lambda>_. accounted {#}) (\<lambda>_. accounted {#})" for wd
  proof (rule triple_bindE)
    have "triple (accounted (guards (wd_guard wd))) (watchdog_step E False wd)
        (\<lambda>task. accounted (task_guards task)) (\<lambda>_. accounted {#})"
      using account_step [of "{#}" wd E False] by (rule triple_weaken) simp_all
    from triple_unhandled [OF this handle_step]
    show "triple (unhandled (guards (wd_guard wd))) (watchdog_step E False wd)
        (\<lambda>task. unhandled (task_guards task)) (\<lambda>_. accounted {#})"
      by (rule triple_weaken) (simp_all add: unhandled_def)
    show "triple (unhandled (task_guards task)) (modify_mgr (\<lambda>m. m\<lparr>watchdog_handle := Some task\<rparr>))
        (\<lambda>_. accounted {#}) (\<lambda>_. accounted {#})" for task
      by (simp add: triple_def modify_mgr_def modify_def unhandled_def handle_def accounted_def tracked_def)
  qed
  have take: "triple (\<lambda>w. Some (WatchdogRunning wd) = watchdog_handle (mgr w) \<and> accounted {#} w)
      (modify_mgr (\<lambda>m. m\<lparr>watchdog_handle := None\<rparr>)) (\<lambda>_. unhandled (guards (wd_guard wd))) (\<lambda>_. accounted {#})" for wd
    by (auto simp: triple_def modify_mgr_def modify_def unhandled_def handle_def accounted_def tracked_def
        eq_commute [of "Some (WatchdogRunning wd)"])
  show "triple (\<lambda>w. h = watchdog_handle (mgr w) \<and> accounted {#} w)
      (case h of
         Some (WatchdogRunning wd) \<Rightarrow>
           bindE (modify_mgr (\<lambda>m. m\<lparr>watchdog_handle := None\<rparr>)) (\<lambda>_.
           bindE (watchdog_step E False wd) (\<lambda>task.
             modify_mgr (\<lambda>m. m\<lparr>watchdog_handle := Some task\<rparr>)))
       | _ \<Rightarrow> okE ()) (\<lambda>_. accounted {#}) (\<lambda>_. accounted {#})" (is "triple _ ?turn _ _")
  proof (cases "\<exists>wd. h = Some (WatchdogRunning wd)")
    case True
    then obtain wd where "h = Some (WatchdogRunning wd)" by blast
    then show ?thesis by (simp only: option.case watchdog_task.case) (rule triple_bindE [OF take step])
  next
    case False
    then have "?turn = okE ()" by (simp split: option.split watchdog_task.split)
    then show ?thesis by (simp only:) (rule triple_okE, blast)
  qed
qed

lemma account_detached: "triple (accounted {#}) (detached_turn E) (\<lambda>_. accounted {#}) (\<lambda>_. accounted {#})"
  unfolding detached_turn_def
proof (rule triple_bindE [OF triple_get])
  fix ds
  have step: "triple (accounted (guards (wd_guard wd)))
      (bindE (watchdog_step E True wd) (\<lambda>task. modify (\<lambda>w. w\<lparr>detached_watchdogs := detached_watchdogs w @
         (case task of WatchdogRunning wd' \<Rightarrow> [wd'] | WatchdogDone r \<Rightarrow> [])\<rparr>)))
      (\<lambda>_. accounted {#}) (\<lambda>_. accounted {#})" for wd
  proof (rule triple_bindE)
    show "triple (accounted (guards (wd_guard wd))) (watchdog_step E True wd)
        (\<lambda>task. accounted (task_guards task)) (\<lambda>_. accounted {#})"
      using account_step [of "{#}" wd E True] by (rule triple_weaken) simp_all
    show "triple (accounted (task_guards task)) (modify (\<lambda>w. w\<lparr>detached_watchdogs := detached_watchdogs w @
         (case task of WatchdogRunning wd' \<Rightarrow> [wd'] | WatchdogDone r \<Rightarrow> [])\<rparr>)) (\<lambda>_. accounted {#}) (\<lambda>_. accounted {#})" for task
      by (cases task) (simp_all add: triple_def modify_def accounted_def tracked_def)
  qed
  have take: "triple (\<lambda>w. wd # rest = detached_watchdogs w \<and> accounted {#} w)
      (modify (\<lambda>w. w\<lparr>detached_watchdogs := rest\<rparr>)) (\<lambda>_. accounted (guards (wd_guard wd))) (\<lambda>_. accounted {#})" for wd rest
    by (auto simp: triple_def modify_def accounted_def tracked_def eq_commute [of "wd # rest"] ac_simps)
  show "triple (\<lambda>w. ds = detached_watchdogs w \<and> accounted {#} w)
      (case ds of
         [] \<Rightarrow> okE ()
       | wd # rest \<Rightarrow>
           bindE (modify (\<lambda>w. w\<lparr>detached_watchdogs := rest\<rparr>)) (\<lambda>_.
           bindE (watchdog_step E True wd) (\<lambda>task.
             modify (\<lambda>w. w\<lparr>detached_watchdogs := detached_watchdogs w @
               (case task of WatchdogRunning wd' \<Rightarrow> [wd'] | WatchdogDone r \<Rightarrow> [])\<rparr>)))) (\<lambda>_. accounted {#}) (\<lambda>_. accounted {#})"
  proof (cases ds)
    case Nil
    then show ?thesis by (simp only: list.case) (rule triple_okE, blast)
  next
    case (Cons wd rest)
    then show ?thesis by (simp only: list.case) (rule triple_bindE [OF take step])
  qed
qed

section \<open>No core is lost\<close>

lemma triple_either:
  "triple P m (\<lambda>_. Q) (\<lambda>_. Q) \<Longrightarrow> P w \<Longrightarrow> m w = (r, v) \<Longrightarrow> Q v"
  by (cases r) (auto dest: triple_ok triple_fails)

lemma step_accounted:
  assumes "manager_step E w v" "accounted {#} w"
  shows "accounted {#} v"
  using assms(1)
proof (cases rule: manager_step.cases)
  case (start config owner r)
  from triple_either [OF account_start assms(2) start] show ?thesis .
next
  case (stop r)
  from triple_either [OF account_stop assms(2) stop] show ?thesis .
next
  case (turn r)
  from triple_either [OF account_turn assms(2) turn] show ?thesis .
next
  case (detached r)
  from triple_either [OF account_detached assms(2) detached] show ?thesis .
qed

text \<open>
  C2. No core is lost. Along any interleaving of starts, stops and watchdog rounds, with any pattern of
  failing calls, every child of the service that was not reaped is held by exactly one place: the running
  watchdog, the cell of the child whose kill failed, a guard whose drop is killing it, or a replaced
  watchdog that has been told to stop. So no core runs unsupervised, and no child is killed twice.
\<close>

theorem every_child_is_held:
  assumes "(manager_step E)\<^sup>*\<^sup>* w v" and "children w = []" and "tracked w = {#}"
  shows "mset (children v) = tracked v"
proof -
  have "accounted {#} v"
    using assms(1)
  proof (induction rule: rtranclp_induct)
    case base
    show ?case using assms(2,3) by (simp add: accounted_def)
  next
    case (step y z)
    then show ?case by (blast intro: step_accounted)
  qed
  then show ?thesis by (simp add: accounted_def)
qed

definition sample_config :: clash_config where
  "sample_config =
     \<lparr>clash_core = \<lparr>cc_core_path = ''/bin/core'', cc_core_ipc_path = ''/r/s'', cc_config_path = ''/c/y'', cc_config_dir = ''/c''\<rparr>,
      clash_log = default_writer_config\<rparr>"

theorem every_child_is_held_witness:
  "mset (children (snd (start_core plain_params sample_config (UnixOwner 501 20) (calm_world Map.empty)))) =
     tracked (snd (start_core plain_params sample_config (UnixOwner 501 20) (calm_world Map.empty)))"
proof -
  let ?w = "calm_world Map.empty"
  have "(manager_step plain_params)\<^sup>*\<^sup>* ?w (snd (start_core plain_params sample_config (UnixOwner 501 20) ?w))"
    by (intro r_into_rtranclp manager_step.start [OF surjective_pairing])
  moreover have "children ?w = []" "tracked ?w = {#}"
    by (simp_all add: calm_world_def tracked_def idle_manager_def)
  ultimately show ?thesis by (rule every_child_is_held)
qed

end
