(* ===== verification/Recovery.thy ===== *)
theory Recovery
  imports Supervision
begin

text \<open>
  How often the watchdog restarts the core, and when it stops. The rounds of the task are abstracted to
  what they do to its variables; two measures on these variables show that awaiting a task that was told
  to stop ends, and that a core that keeps crashing is given up.
\<close>

section \<open>The backoff\<close>

lemma backoff_value:
  assumes "a \<noteq> 0"
  shows "backoff_delay a m = min (1000 * 2 ^ min (unat a - 1) 5) m"
proof -
  have u: "unat (a - 1) = unat a - 1" using assms by (simp add: unat_minus_one)
  have "unat (min (a - 1) 5) = min (unat a - 1) 5"
    unfolding min_def by (simp add: word_le_nat_alt u)
  moreover have "unat (push_bit k (1 :: u64)) = 2 ^ k" if "k \<le> 5" for k
  proof -
    from that have "k = 0 \<or> k = 1 \<or> k = 2 \<or> k = 3 \<or> k = 4 \<or> k = 5" by arith
    then show ?thesis by auto
  qed
  ultimately show ?thesis using assms by (simp add: backoff_delay_def)
qed

text \<open>
  The delay before a restart attempt is the reference schedule: none for the first attempt, then 1, 2, 4,
  8, 16 and 32 seconds, capped by the limit; the shift never leaves its range however many attempts
  there were, later attempts wait at least as long as earlier ones, and no wait is longer than the limit.
\<close>

lemma backoff_schedule:
  "backoff_delay a m =
     (if a = 0 then 0 else min (1000 * (if unat a \<le> 6 then [1, 2, 4, 8, 16, 32] ! (unat a - 1) else 32)) m) \<and>
   backoff_delay a m \<le> m \<and> (a \<le> b \<longrightarrow> backoff_delay a m \<le> backoff_delay b m)"
proof (intro conjI impI)
  have "2 ^ min (unat a - 1) 5 = (if unat a \<le> 6 then [1, 2, 4, 8, 16, 32] ! (unat a - 1) else (32 :: nat))" if "a \<noteq> 0"
  proof -
    have "unat a \<noteq> 0" using that by (simp add: unat_eq_0)
    then consider "unat a = 1" | "unat a = 2" | "unat a = 3" | "unat a = 4" | "unat a = 5" | "unat a = 6" | "6 < unat a"
      by linarith
    then show ?thesis by cases simp_all
  qed
  with backoff_value [of a m] show "backoff_delay a m =
     (if a = 0 then 0 else min (1000 * (if unat a \<le> 6 then [1, 2, 4, 8, 16, 32] ! (unat a - 1) else 32)) m)"
    by (simp add: backoff_delay_def)
  show "backoff_delay a m \<le> m" by (simp add: backoff_delay_def)
next
  assume ab: "a \<le> b"
  show "backoff_delay a m \<le> backoff_delay b m"
  proof (cases "a = 0")
    case True
    then show ?thesis by (simp add: backoff_delay_def)
  next
    case False
    with ab have "b \<noteq> 0" by auto
    moreover have "(2 :: nat) ^ min (unat a - 1) 5 \<le> 2 ^ min (unat b - 1) 5"
      using ab by (intro power_increasing) (auto simp: word_le_nat_alt)
    ultimately show ?thesis using False by (simp add: backoff_value min_le_iff_disj)
  qed
qed

section \<open>One round\<close>

definition given_up :: "bool \<Rightarrow> watchdog_task \<Rightarrow> world \<Rightarrow> bool" where
  "given_up shutdown task v \<longleftrightarrow>
     (\<exists>r. task = WatchdogDone r) \<and> (\<not> shutdown \<longrightarrow> core_lifecycle_state v = Fatal)"

text \<open>The environment never changes: \<open>within e m\<close> is the frame fact as a triple.\<close>

lemma env_syscall: "keeps env m \<Longrightarrow> keeps env (syscall m)"
  by (rule keeps_syscall) simp_all

lemma env_ops [frame]:
  "keeps env (modify_mgr f)" "keeps env (kill_now child)" "keeps env (set_failed_child child)"
  "keeps env (modify (drop_guard child))" "keeps env (run_with_logging writer)"
  "keeps env (write_runtime_record_for_config E child config)" "keeps env read_instant"
  "keeps env read_clock" "keeps env (set_core_state s)" "keeps env (note_unconfirmed_core child)"
  "keeps env (prepare_core_ipc_socket p owner)" "keeps env (secure_core_ipc_socket p owner)"
  "keeps env (remove_core_runtime_record E)" "keeps env (modify (\<lambda>w. w\<lparr>children := g (children w)\<rparr>))"
proof -
  show m: "keeps env (modify_mgr f)" for f by (simp add: keeps_def modify_mgr_def modify_def)
  show "keeps env (kill_now child)" for child
    unfolding kill_now_def kill_child_def reap_child_def
    by (intro frame env_syscall; simp add: keeps_def)
  show "keeps env (set_failed_child child)" "keeps env (modify (drop_guard child))" for child
    by (simp_all add: keeps_def set_failed_child_def modify_def drop_guard_def Let_def split: option.splits)
  show "keeps env (run_with_logging writer)"
    unfolding run_with_logging_def set_or_update_writer_def spawn_core_def
    by (intro keeps_bindE keeps_io_act keeps_okE env_syscall; simp add: keeps_def Let_def)
  show "keeps env (write_runtime_record_for_config E child config)"
    unfolding write_runtime_record_for_config_def by (intro frame keeps_looks blind) simp_all
  show r: "keeps env read_instant" "keeps env read_clock"
    by (simp_all add: keeps_def read_instant_def read_clock_def)
  show "keeps env (set_core_state s)" by (simp add: keeps_def set_core_state_def modify_def set_core_lifecycle_state_def)
  show "keeps env (note_unconfirmed_core child)"
    unfolding note_unconfirmed_core_def by (intro keeps_bindE r m)
  show "keeps env (modify (\<lambda>w. w\<lparr>children := g (children w)\<rparr>))" by (simp add: keeps_def modify_def)
qed (simp_all add: blind)

abbreviation in_env :: "environment \<Rightarrow> world \<Rightarrow> bool" where "in_env e \<equiv> \<lambda>w. env w = e"

lemma within: "keeps env m \<Longrightarrow> triple (in_env e) m (\<lambda>_. in_env e) (\<lambda>_. in_env e)"
  by (rule triple_keeps) auto

lemma within_total: "keeps env m \<Longrightarrow> (\<And>w. is_ok (fst (m w))) \<Longrightarrow> triple (in_env e) m (\<lambda>_. in_env e) R"
  by (rule never_fails [OF within])

lemma instant_total: "triple (in_env e) read_instant (\<lambda>t w. in_env e w \<and> (\<exists>k. t = ev_instant e k)) R"
  by (auto simp: triple_def read_instant_def)

lemma observe_total: "triple (in_env e) (observe_child pid) (\<lambda>x w. in_env e w \<and> (\<exists>k. x = ev_child e k pid)) R"
  by (auto simp: triple_def observe_child_def)

text \<open>What a round leaves of the task: it is over, or its variables have changed in one of four ways.\<close>

definition round_of :: "environment \<Rightarrow> bool \<Rightarrow> watchdog \<Rightarrow> watchdog_task \<Rightarrow> world \<Rightarrow> bool" where
  "round_of e shutdown wd task v \<longleftrightarrow>
     env v = e \<and>
     (given_up shutdown task v \<or>
      (case wd_guard wd of
         Some pid \<Rightarrow>
           (task = WatchdogRunning wd \<and> \<not> shutdown \<and> (\<exists>k. ev_child e k pid = StillRunning)) \<or>
           (\<exists>k. task = WatchdogRunning (after_exit (ev_instant e k) wd))
       | None \<Rightarrow>
           \<not> (10 :: u32) < of_nat (length (wd_timestamps wd)) \<and> (shutdown \<longrightarrow> wd_attempt wd = 0) \<and>
           ((\<exists>k. task = WatchdogRunning (after_failure (ev_instant e k) wd)) \<or>
            (\<exists>pid. task = WatchdogRunning (after_restart (Some pid) wd)))))"

abbreviation round_triple :: "environment \<Rightarrow> bool \<Rightarrow> watchdog \<Rightarrow> watchdog_task act \<Rightarrow> bool" where
  "round_triple e shutdown wd m \<equiv> triple (in_env e) m (round_of e shutdown wd) (\<lambda>_ _. False)"

lemma env_set_core [simp]: "env (set_core_lifecycle_state s w) = env w"
  by (simp add: set_core_lifecycle_state_def)

lemma triple_pre: "triple P m Q R \<Longrightarrow> (\<And>w. P' w \<Longrightarrow> P w) \<Longrightarrow> triple P' m Q R"
  by (erule triple_weaken) auto

lemma round_tail:
  assumes "b \<or> shutdown"
  shows "round_triple e shutdown wd (watchdog_tail E b)"
proof -
  have marked: "triple (in_env e) (if b then set_core_state Fatal else okE ())
      (\<lambda>_ v. in_env e v \<and> (b \<longrightarrow> core_lifecycle_state v = Fatal)) (\<lambda>_ _. False)"
    by (simp add: triple_def set_core_state_def modify_def okE_def)
  have "round_triple e shutdown wd
      (bindE (if b then set_core_state Fatal else okE ()) (\<lambda>_. okE (WatchdogDone (Inr ()))))"
    using assms by (intro triple_bindE [OF marked] triple_okE) (auto simp: round_of_def given_up_def)
  then show ?thesis
    unfolding watchdog_tail_def
    by (intro triple_bindE [OF within_total [OF env_ops(1) total_ops(5)]]
        triple_bindE [OF within_total [OF env_ops(13) total_ops(1)]])
qed

lemma round_over:
  "round_triple e shutdown wd (bindE (set_failed_child child) (\<lambda>_. bindE (set_core_state Fatal) (\<lambda>_. okE (WatchdogDone r))))"
  by (auto simp: triple_def bindE_def set_failed_child_def set_core_state_def modify_def okE_def drop_guard_def Let_def
      round_of_def given_up_def split: option.splits)

lemma round_exited: "wd_guard wd = Some pid \<Longrightarrow> round_triple e shutdown wd (core_exited E wd pid st)"
  unfolding core_exited_def
  by (intro triple_bindE [OF within_total] env_ops total_ops triple_bindE [OF instant_total])
    (auto intro!: triple_okE simp: round_of_def modify_def)

lemma round_retry:
  assumes "wd_guard wd = None" "\<not> (10 :: u32) < of_nat (length (wd_timestamps wd))" "shutdown \<longrightarrow> wd_attempt wd = 0"
  shows "round_triple e shutdown wd (retry_later wd)"
  unfolding retry_later_def
  using assms by (intro triple_bindE [OF instant_total]) (auto intro!: triple_okE simp: round_of_def)

lemma round_watch:
  assumes g: "wd_guard wd = Some pid"
  shows "round_triple e shutdown wd (watch_child E shutdown wd pid)"
  unfolding watch_child_def
proof (rule triple_bindE [OF observe_total])
  fix event
  have kill: "round_triple e shutdown wd (tryE (kill_now (Some pid)) (\<lambda>r.
      (case r of
         Inr _ \<Rightarrow> watchdog_tail E False
       | Inl f \<Rightarrow>
           bindE (set_failed_child (Some pid)) (\<lambda>_.
           bindE (set_core_state Fatal) (\<lambda>_.
             okE (WatchdogDone (Inl (Ctx ''failed to terminate core during watchdog shutdown'' f))))))))" if shutdown
    using that by (intro triple_match [OF within] env_ops round_tail round_over) simp
  have lost: "round_triple e shutdown wd (bindE (modify (drop_guard (Some pid))) (\<lambda>_. watchdog_tail E True))"
    by (intro triple_bindE [OF within_total] env_ops round_tail) (simp_all add: modify_def)
  show "triple (\<lambda>w. in_env e w \<and> (\<exists>k. event = ev_child e k pid)) (case event of
      StillRunning \<Rightarrow>
        if \<not> shutdown then okE (WatchdogRunning wd)
        else
          tryE (kill_now (Some pid)) (\<lambda>r.
            (case r of
               Inr _ \<Rightarrow> watchdog_tail E False
             | Inl f \<Rightarrow>
                 bindE (set_failed_child (Some pid)) (\<lambda>_.
                 bindE (set_core_state Fatal) (\<lambda>_.
                   okE (WatchdogDone (Inl (Ctx ''failed to terminate core during watchdog shutdown'' f)))))))
    | WaitFailed \<Rightarrow> bindE (modify (drop_guard (Some pid))) (\<lambda>_. watchdog_tail E True)
    | Exited status \<Rightarrow> core_exited E wd pid status) (round_of e shutdown wd) (\<lambda>_ _. False)"
  proof (cases event)
    case StillRunning
    show ?thesis
    proof (cases shutdown)
      case True
      show ?thesis
        by (simp only: StillRunning True child_event.case simp_thms if_False)
          (rule triple_pre [OF kill [OF True, simplified True]], simp)
    next
      case False
      with StillRunning g show ?thesis by (auto intro!: triple_okE simp: round_of_def) metis
    qed
  next
    case (Exited st)
    then show ?thesis by (auto intro: triple_pre [OF round_exited [OF g]])
  next
    case WaitFailed
    then show ?thesis by (auto intro: triple_pre [OF lost])
  qed
qed

lemma round_restart:
  assumes "wd_guard wd = None" "\<not> (10 :: u32) < of_nat (length (wd_timestamps wd))" "shutdown \<longrightarrow> wd_attempt wd = 0"
  shows "round_triple e shutdown wd (restart_core E wd)"
proof -
  note retry = round_retry [OF assms, of e]
  have unsecured: "round_triple e shutdown wd (restart_unsecured E wd child)" for child
    unfolding restart_unsecured_def
    by (intro triple_match [OF within [OF env_ops(2)]] triple_bindE [OF within_total [OF env_ops(10) total_ops(6)]]
        triple_tryE [OF within [OF env_ops(6)]] retry round_over)
  have unrecorded: "round_triple e shutdown wd (restart_unrecorded E child f)" for child f
    unfolding restart_unrecorded_def
    by (intro triple_match [OF within [OF env_ops(2)]] triple_bindE [OF within_total [OF env_ops(10) total_ops(6)]]
        round_tail round_over) simp
  have recorded: "round_triple e shutdown wd (restart_recorded wd (Some pid))" for pid
    unfolding restart_recorded_def
    by (intro triple_bindE [OF within_total [OF env_ops(1) total_ops(5)]]
        triple_bindE [OF within_total [OF env_ops(7) total_ops(2)]]
        triple_bindE [OF within_total [OF env_ops(8) total_ops(3)]]
        triple_bindE [OF within_total [OF env_ops(9) total_ops(4)]])
      (rule triple_okE, use assms in \<open>simp add: round_of_def\<close>, blast)
  have spawned: "triple (in_env e) (run_with_logging writer) (\<lambda>child w. in_env e w \<and> (\<exists>pid. child = Some pid)) (\<lambda>_. in_env e)" for writer
    unfolding run_with_logging_def set_or_update_writer_def spawn_core_def
    by (intro triple_bindE [OF within [OF keeps_io_act [OF env_syscall]]] triple_okE; simp add: keeps_def Let_def)
  show ?thesis
    unfolding restart_core_def Let_def
  proof (intro triple_match [OF within [OF env_ops(11)]] triple_match [OF spawned] retry)
    fix child
    show "triple (\<lambda>w. in_env e w \<and> (\<exists>pid. child = Some pid))
        (tryE (secure_core_ipc_socket (cc_core_ipc_path (clash_core (wd_config wd))) (wd_owner wd)) (\<lambda>secured.
          (case secured of
             Inl error \<Rightarrow> restart_unsecured E wd child
           | Inr _ \<Rightarrow>
               tryE (write_runtime_record_for_config E child (wd_config wd)) (\<lambda>recorded.
                 (case recorded of
                    Inl error \<Rightarrow> restart_unrecorded E child error
                  | Inr _ \<Rightarrow> restart_recorded wd child)))))
        (round_of e shutdown wd) (\<lambda>_ _. False)"
    proof (cases child)
      case None
      then show ?thesis by (simp add: triple_def)
    next
      case (Some pid)
      have "round_triple e shutdown wd
          (tryE (secure_core_ipc_socket (cc_core_ipc_path (clash_core (wd_config wd))) (wd_owner wd)) (\<lambda>secured.
            (case secured of
               Inl error \<Rightarrow> restart_unsecured E wd child
             | Inr _ \<Rightarrow>
                 tryE (write_runtime_record_for_config E child (wd_config wd)) (\<lambda>recorded.
                   (case recorded of
                      Inl error \<Rightarrow> restart_unrecorded E child error
                    | Inr _ \<Rightarrow> restart_recorded wd child)))))"
        unfolding Some by (intro triple_match [OF within] env_ops unsecured unrecorded recorded)
      then show ?thesis by (rule triple_weaken) auto
    qed
  qed
qed

lemma step_round: "round_triple e shutdown wd (watchdog_step E shutdown wd)"
proof (cases "wd_guard wd")
  case (Some pid)
  then show ?thesis using round_watch by (simp add: watchdog_step_def)
next
  case None
  have waits: "backoff_delay a 30000 \<noteq> 0" if "a \<noteq> 0" for a
    using that by (simp add: backoff_value)
  show ?thesis
    using None round_tail [of True] round_tail [of False shutdown] round_restart [OF None, of shutdown] waits
    by (cases "wd_attempt wd = 0") (auto simp: watchdog_step_def recover_def watchdog_config_def backoff_delay_def)
qed

section \<open>Rounds in a row\<close>

text \<open>A rank on the variables of the task that every round lowers bounds the number of rounds.\<close>

lemma rounds_end:
  assumes step: "\<And>wd task v. J wd \<Longrightarrow> round_of e shutdown wd task v \<Longrightarrow>
      given_up shutdown task v \<or> (\<exists>wd'. task = WatchdogRunning wd' \<and> J wd' \<and> rank wd' < (rank wd :: nat))"
    and "J wd" "rank wd < n" "env w = e"
  shows "\<exists>task. fst (run_watchdog E shutdown n wd w) = Inr task \<and> given_up shutdown task (snd (run_watchdog E shutdown n wd w))"
  using assms(2-)
proof (induction n arbitrary: wd w)
  case 0
  then show ?case by simp
next
  case (Suc n)
  obtain r v where run: "watchdog_step E shutdown wd w = (r, v)" by fastforce
  then obtain task where task: "r = Inr task" and after: "round_of e shutdown wd task v"
    using step_round [where e = e and shutdown = shutdown and wd = wd and E = E] Suc.prems(3) unfolding triple_def by (cases r) blast+
  from step [OF Suc.prems(1) after] show ?case
  proof (elim disjE exE conjE)
    assume "given_up shutdown task v"
    moreover from this obtain x where "task = WatchdogDone x" unfolding given_up_def by blast
    ultimately show ?thesis by (simp add: run task bindE_def okE_def)
  next
    fix wd' assume "task = WatchdogRunning wd'" "J wd'" "rank wd' < rank wd"
    with Suc.IH [of wd' v] Suc.prems(2) after show ?thesis
      by (simp add: run task bindE_def round_of_def)
  qed
qed

text \<open>The clock is steady when no two of its readings are a restart window apart.\<close>

definition steady :: "environment \<Rightarrow> bool" where
  "steady e \<longleftrightarrow> (\<forall>a b. ev_instant e a - ev_instant e b < restart_window watchdog_config)"

definition clocked :: "environment \<Rightarrow> nat list \<Rightarrow> bool" where
  "clocked e timestamps \<longleftrightarrow> set timestamps \<subseteq> range (ev_instant e)"

lemma recent_steady: "steady e \<Longrightarrow> clocked e ts \<Longrightarrow> recent_restarts (ev_instant e k) ts = ts"
  by (auto simp: recent_restarts_def steady_def clocked_def filter_id_conv)

subsection \<open>A task that was told to stop\<close>

definition fresh :: "environment \<Rightarrow> nat list \<Rightarrow> bool" where
  "fresh e timestamps \<longleftrightarrow> set timestamps \<inter> range (ev_instant e) \<noteq> {}"

definition stop_rank :: "environment \<Rightarrow> watchdog \<Rightarrow> nat" where
  "stop_rank e wd =
     (case wd_guard wd of
        None \<Rightarrow> if wd_attempt wd \<noteq> 0 then 0 else if fresh e (wd_timestamps wd) then 2 else 4
      | Some pid \<Rightarrow> if fresh e (wd_timestamps wd) \<and> wd_attempt wd \<noteq> 0 then 1 else 3)"

lemma fresh_recent: "steady e \<Longrightarrow> fresh e ts \<Longrightarrow> recent_restarts (ev_instant e k) ts \<noteq> []"
  by (auto simp: fresh_def steady_def recent_restarts_def filter_empty_conv)

lemma fresh_snoc [simp]: "fresh e (ts @ [ev_instant e k])"
  by (simp add: fresh_def)

lemma stop_rank_falls:
  assumes "steady e" "round_of e True wd task v"
  shows "given_up True task v \<or> (\<exists>wd'. task = WatchdogRunning wd' \<and> stop_rank e wd' < stop_rank e wd)"
  using assms fresh_recent [OF assms(1), of "wd_timestamps wd"]
  by (cases "wd_guard wd")
    (auto simp: round_of_def stop_rank_def after_exit_def after_failure_def after_restart_def Let_def)

lemma stop_ends:
  assumes "steady (env w)"
  shows "\<exists>r. fst (run_watchdog E True DRAIN_ROUNDS wd w) = Inr (WatchdogDone r)"
proof -
  have "stop_rank (env w) wd < DRAIN_ROUNDS"
    by (simp add: DRAIN_ROUNDS_def stop_rank_def split: option.splits)
  from rounds_end [where J = "\<lambda>_. True" and rank = "stop_rank (env w)", OF _ TrueI this refl, where shutdown = True and E = E]
    stop_rank_falls [OF assms]
  have "\<exists>task. fst (run_watchdog E True DRAIN_ROUNDS wd w) = Inr task \<and>
      given_up True task (snd (run_watchdog E True DRAIN_ROUNDS wd w))"
    by simp
  then show ?thesis by (auto simp: given_up_def)
qed

subsection \<open>A core that keeps crashing\<close>

definition crash_rank :: "watchdog \<Rightarrow> nat" where
  "crash_rank wd = 2 * (12 - length (wd_timestamps wd)) + (case wd_guard wd of None \<Rightarrow> 1 | Some pid \<Rightarrow> 0)"

definition crash_bound :: "environment \<Rightarrow> watchdog \<Rightarrow> bool" where
  "crash_bound e wd \<longleftrightarrow> clocked e (wd_timestamps wd) \<and>
     length (wd_timestamps wd) \<le> (case wd_guard wd of None \<Rightarrow> 11 | Some pid \<Rightarrow> 10)"

lemma small_length: "n \<le> 11 \<Longrightarrow> \<not> (10 :: u32) < of_nat n \<longleftrightarrow> n \<le> 10"
  by (simp add: word_less_nat_alt unat_of_nat not_less)

lemma crash_rank_falls:
  assumes "steady e" "\<And>k pid. ev_child e k pid \<noteq> StillRunning" "crash_bound e wd" "round_of e False wd task v"
  shows "given_up False task v \<or> (\<exists>wd'. task = WatchdogRunning wd' \<and> crash_bound e wd' \<and> crash_rank wd' < crash_rank wd)"
  using assms recent_steady [OF assms(1), of "wd_timestamps wd"]
  by (cases "wd_guard wd")
    (auto simp: round_of_def crash_bound_def crash_rank_def after_exit_def after_failure_def after_restart_def Let_def
        small_length clocked_def)

text \<open>
  C9. Stopping ends. When no two readings of the clock are a restart window apart, the task that stopping
  awaits is over within eight rounds of its loop, whatever its variables are, whichever system calls fail and
  however often the core exits meanwhile: its handle is empty afterwards and the call returns the
  result of the task.
\<close>

theorem stop_watchdog_ends:
  assumes "steady (env w)"
  shows "watchdog_handle (mgr (snd (stop_watchdog E w))) = None \<and>
    (\<forall>wd. watchdog_handle (mgr w) = Some (WatchdogRunning wd) \<longrightarrow>
       (\<exists>r. fst (run_watchdog E True DRAIN_ROUNDS wd (w\<lparr>mgr := (mgr w)\<lparr>watchdog_handle := None\<rparr>\<rparr>)) = Inr (WatchdogDone r) \<and>
            fst (stop_watchdog E w) = r))"
proof -
  define v where "v = w\<lparr>mgr := (mgr w)\<lparr>watchdog_handle := None\<rparr>\<rparr>"
  have idle: "handle v = None" and e: "env v = env w" by (simp_all add: v_def handle_def)
  have run: "stop_watchdog E w = (case handle w of None \<Rightarrow> okE () | Some task \<Rightarrow> join_watchdog E task) v"
    by (simp add: stop_watchdog_def bindE_def get_def modify_mgr_def modify_def v_def handle_def)
  show ?thesis
  proof (cases "handle w")
    case None
    with run idle show ?thesis by (simp add: okE_def handle_def)
  next
    case (Some task)
    show ?thesis
    proof (cases task)
      case (WatchdogRunning wd)
      obtain r u where out: "run_watchdog E True DRAIN_ROUNDS wd v = (Inr (WatchdogDone r), u)"
        using stop_ends [of v E wd] assms e by (metis prod.collapse)
      from keepsD [OF handle_rounds out] idle have "handle u = None" by simp
      with run Some WatchdogRunning out show ?thesis
        by (simp add: join_watchdog_def bindE_def liftE_def handle_def v_def [symmetric])
    next
      case (WatchdogDone r)
      with run Some idle show ?thesis by (simp add: join_watchdog_def bindE_def okE_def liftE_def handle_def)
    qed
  qed
qed

text \<open>A core that exits whenever it is looked at.\<close>

definition crashing :: environment where
  "crashing = (env (calm_world Map.empty))\<lparr>ev_instant := (\<lambda>k. min k 60000), ev_child := (\<lambda>k pid. Exited \<lparr>ex_code = Some 2, ex_signal = None\<rparr>)\<rparr>"

definition crash_world :: world where
  "crash_world = (calm_world Map.empty)\<lparr>env := crashing\<rparr>"

definition new_watchdog :: watchdog where
  "new_watchdog = \<lparr>wd_guard = Some 7, wd_config = sample_config, wd_owner = UnixOwner 501 20, wd_timestamps = [], wd_attempt = 0\<rparr>"

lemma crashing_steady: "steady crashing"
  by (auto simp: steady_def crashing_def calm_world_def calm_env_def watchdog_config_def min_def)

theorem stop_watchdog_ends_witness:
  "watchdog_handle (mgr (snd (stop_watchdog plain_params
     (crash_world\<lparr>mgr := (mgr crash_world)\<lparr>watchdog_handle := Some (WatchdogRunning new_watchdog)\<rparr>\<rparr>)))) = None"
  using stop_watchdog_ends crashing_steady by (simp add: crash_world_def)

text \<open>
  C8. A crash loop is given up. When the core is never found running and the restarts fall into
  one restart window, the watchdog of a newly started core ends after at most 26 rounds, and not while it
  still has restarts left to try: its end puts the core state to \<open>Fatal\<close>. The loop never spins for ever.
\<close>

theorem crash_loop_gives_up:
  assumes "steady (env w)" and "\<And>k pid. ev_child (env w) k pid \<noteq> StillRunning" and "wd_timestamps wd = []"
  shows "\<exists>r v. run_watchdog E False 26 wd w = (Inr (WatchdogDone r), v) \<and> core_lifecycle_state v = Fatal"
proof -
  have "crash_bound (env w) wd" "crash_rank wd < 26"
    using assms(3) by (auto simp: crash_bound_def crash_rank_def clocked_def split: option.splits)
  from rounds_end [where w = w and E = E and shutdown = False, OF crash_rank_falls [OF assms(1,2)] this refl]
  show ?thesis by (auto simp: given_up_def) (metis prod.collapse)
qed

theorem crash_loop_gives_up_witness:
  "\<exists>r v. run_watchdog plain_params False 26 new_watchdog crash_world = (Inr (WatchdogDone r), v) \<and> core_lifecycle_state v = Fatal"
proof (rule crash_loop_gives_up)
  show "steady (env crash_world)" by (simp add: crash_world_def crashing_steady)
  show "ev_child (env crash_world) k pid \<noteq> StillRunning" for k pid by (simp add: crash_world_def crashing_def)
  show "wd_timestamps new_watchdog = []" by (simp add: new_watchdog_def)
qed

end
