(* ===== verification/Footprint.thy ===== *)
theory Footprint
  imports Recovery
begin

text \<open>
  What the manager does to files: starting, stopping and watching a core writes below the runtime directory
  only. A file of the persistent state keeps its contents as long as every configuration the manager holds
  has its socket in the runtime directory, and the manager's operations keep that so.
\<close>

section \<open>The files of the two roots\<close>

definition state_file :: "params \<Rightarrow> path \<Rightarrow> bool" where
  "state_file E q \<longleftrightarrow> is_unix (os (bd E)) \<and> (\<exists>rest. q = persistent_state_dir (bd E) @ rest)"

text \<open>A configuration of the service: its socket, and the generation directory of an owner.\<close>

definition core_socket :: "params \<Rightarrow> clash_config \<Rightarrow> bool" where
  "core_socket E c \<longleftrightarrow>
     (\<exists>a b d. abs_path (cc_core_ipc_path (clash_core c)) = runtime_dir (bd E) @ [a, b, d]) \<and>
     (\<exists>key. abs_path (cc_config_dir (clash_core c)) = persistent_state_dir (bd E) @ [''users'', key, ''runtime''] \<and>
        abs_path (cc_config_path (clash_core c)) =
          persistent_state_dir (bd E) @ [''users'', key, ''runtime'', RUNTIME_CONFIG_FILE_NAME])"

lemma state_file_elsewhere:
  assumes "state_file E q"
  shows "q \<noteq> runtime_dir (bd E) @ p" "q \<notin> set (map (\<lambda>k. take k (runtime_dir (bd E) @ p)) ks)"
proof -
  from assms obtain rest where u: "is_unix (os (bd E))" and q: "q = persistent_state_dir (bd E) @ rest"
    by (auto simp: state_file_def)
  show "q \<noteq> runtime_dir (bd E) @ p" using roots_disjoint [OF u] by (simp add: q)
  show "q \<notin> set (map (\<lambda>k. take k (runtime_dir (bd E) @ p)) ks)"
  proof
    assume "q \<in> set (map (\<lambda>k. take k (runtime_dir (bd E) @ p)) ks)"
    then obtain k where "q = take k (runtime_dir (bd E) @ p)" by auto
    then have "persistent_state_dir (bd E) @ (rest @ drop k (runtime_dir (bd E) @ p)) = runtime_dir (bd E) @ p"
      by (metis append.assoc append_take_drop_id q)
    then show False using roots_disjoint [OF u] by metis
  qed
qed

section \<open>The configurations the manager holds\<close>

fun task_configs :: "watchdog_task \<Rightarrow> clash_config set" where
  "task_configs (WatchdogRunning wd) = {wd_config wd}"
| "task_configs (WatchdogDone r) = {}"

definition known_configs :: "world \<Rightarrow> clash_config set" where
  "known_configs w = set_option (running_config (mgr w)) \<union>
     (case handle w of None \<Rightarrow> {} | Some task \<Rightarrow> task_configs task) \<union> wd_config ` set (detached_watchdogs w)"

definition sockets_ok :: "params \<Rightarrow> world \<Rightarrow> bool" where
  "sockets_ok E w \<longleftrightarrow> (\<forall>c \<in> known_configs w. core_socket E c)"

definition crew :: "world \<Rightarrow> clash_config option \<times> watchdog_task option \<times> watchdog list" where
  "crew w = (running_config (mgr w), handle w, detached_watchdogs w)"

text \<open>The invariant: a state file has these contents, and the sockets are where they belong.\<close>

definition quiet :: "params \<Rightarrow> path \<Rightarrow> (file_kind \<times> content) option \<Rightarrow> world \<Rightarrow> bool" where
  "quiet E q d w \<longleftrightarrow> file_data q w = d \<and> sockets_ok E w"

lemma sockets_crew: "crew v = crew w \<Longrightarrow> sockets_ok E w \<Longrightarrow> sockets_ok E v"
  by (simp add: crew_def sockets_ok_def known_configs_def)

lemma quiet_keeps:
  "keeps (file_data q) m \<Longrightarrow> keeps crew m \<Longrightarrow> triple (quiet E q d) m (\<lambda>_. quiet E q d) (\<lambda>_. quiet E q d)"
  unfolding triple_def quiet_def by (metis keepsD sockets_crew)

lemma blind_crew [simp]: "blind_to_files crew"
  by (simp add: blind_to_files_def crew_def handle_def)

section \<open>Operations that leave both alone\<close>

lemma crew_modify_mgr [frame]:
  "(\<And>m. running_config (f m) = running_config m \<and> watchdog_handle (f m) = watchdog_handle m) \<Longrightarrow>
   keeps crew (modify_mgr f)"
  by (simp add: keeps_def modify_mgr_def modify_def crew_def handle_def)

lemma data_modify_mgr [files]: "keeps (file_data q) (modify_mgr f)"
  by (simp add: keeps_def modify_mgr_def modify_def file_data_def)

lemma crew_syscall: "keeps crew m \<Longrightarrow> keeps crew (syscall m)"
  by (rule keeps_syscall) (simp_all add: crew_def handle_def)

lemma crew_ops [frame]:
  "keeps crew (kill_now child)" "keeps crew (set_failed_child child)" "keeps crew (modify (drop_guard child))"
  "keeps crew (run_with_logging writer)" "keeps crew (observe_child pid)" "keeps crew read_instant" "keeps crew read_clock"
  "keeps crew (set_core_state s)" "keeps crew (note_unconfirmed_core child)" "keeps crew clear_logs"
  "keeps crew (write_runtime_record_for_config E child config)" "keeps crew ensure_startup_reconciled"
  "keeps crew (prepare_core_ipc_socket p owner)" "keeps crew (secure_core_ipc_socket p owner)"
  "keeps crew (remove_core_runtime_record E)" "keeps crew (cleanup_core_socket p)"
  "keeps crew (modify (\<lambda>w. w\<lparr>children := g (children w)\<rparr>))"
proof -
  show "keeps crew (kill_now child)"
    unfolding kill_now_def kill_child_def reap_child_def
    by (intro frame crew_syscall; simp add: keeps_def crew_def handle_def)
  show "keeps crew (set_failed_child child)" "keeps crew (modify (drop_guard child))"
    by (simp_all add: keeps_def set_failed_child_def modify_def crew_def handle_def drop_guard_def Let_def split: option.splits)
  show "keeps crew (run_with_logging writer)"
    unfolding run_with_logging_def set_or_update_writer_def spawn_core_def
    by (intro keeps_bindE keeps_io_act keeps_okE crew_syscall; simp add: keeps_def crew_def handle_def Let_def)
  show i: "keeps crew (observe_child pid)" "keeps crew read_instant" "keeps crew read_clock" "keeps crew (set_core_state s)"
    "keeps crew clear_logs" "keeps crew (modify (\<lambda>w. w\<lparr>children := g (children w)\<rparr>))"
    by (simp_all add: keeps_def observe_child_def read_instant_def read_clock_def set_core_state_def
        set_core_lifecycle_state_def clear_logs_def modify_def crew_def handle_def)
  show "keeps crew (note_unconfirmed_core child)"
    unfolding note_unconfirmed_core_def
    by (intro keeps_bindE crew_modify_mgr) (simp_all add: keeps_def read_clock_def read_instant_def crew_def handle_def)
  show "keeps crew (write_runtime_record_for_config E child config)"
    unfolding write_runtime_record_for_config_def
    by (intro frame keeps_looks blind) (simp_all add: crew_def handle_def)
  show "keeps crew ensure_startup_reconciled" unfolding ensure_startup_reconciled_def by (intro frame)
qed (simp_all add: blind)

lemma data_syscall_other: "(\<And>w. fs (snd (m w)) = fs w) \<Longrightarrow> keeps (file_data q) (syscall m)"
  by (rule keeps_data_syscall) (simp add: file_data_def)

lemma data_ops [files]:
  "keeps (file_data q) (kill_now child)" "keeps (file_data q) (set_failed_child child)"
  "keeps (file_data q) (modify (drop_guard child))" "keeps (file_data q) (run_with_logging writer)"
  "keeps (file_data q) (observe_child pid)" "keeps (file_data q) read_instant"
  "keeps (file_data q) (set_core_state s)" "keeps (file_data q) (note_unconfirmed_core child)"
  "keeps (file_data q) clear_logs" "keeps (file_data q) ensure_startup_reconciled"
  "keeps (file_data q) (modify (\<lambda>w. w\<lparr>children := g (children w)\<rparr>))"
  "keeps (file_data q) (lchown p a b)" "keeps (file_data q) (process_identity E pid)"
proof -
  show "keeps (file_data q) (kill_now child)"
    unfolding kill_now_def kill_child_def reap_child_def
    by (intro frame data_syscall_other; simp)
  show "keeps (file_data q) (set_failed_child child)" "keeps (file_data q) (modify (drop_guard child))"
    by (simp_all add: keeps_def set_failed_child_def modify_def file_data_def drop_guard_def Let_def split: option.splits)
  show "keeps (file_data q) (run_with_logging writer)"
    unfolding run_with_logging_def set_or_update_writer_def spawn_core_def
    by (intro keeps_bindE keeps_io_act keeps_okE data_syscall_other; simp add: Let_def)
  show i: "keeps (file_data q) (observe_child pid)" "keeps (file_data q) read_instant" "keeps (file_data q) (set_core_state s)"
    "keeps (file_data q) clear_logs" "keeps (file_data q) (modify (\<lambda>w. w\<lparr>children := g (children w)\<rparr>))"
    by (simp_all add: keeps_def observe_child_def read_instant_def set_core_state_def
        set_core_lifecycle_state_def clear_logs_def modify_def file_data_def)
  show "keeps (file_data q) (note_unconfirmed_core child)"
    unfolding note_unconfirmed_core_def
    by (intro keeps_bindE data_modify_mgr files i)
  show "keeps (file_data q) ensure_startup_reconciled" unfolding ensure_startup_reconciled_def by (intro frame)
  show "keeps (file_data q) (lchown p a b)"
    unfolding lchown_def by (rule keeps_data_syscall) (simp add: set_node_data split: option.splits)
  show "keeps (file_data q) (process_identity E pid)"
    by (rule keeps_looks) (simp add: file_data_def)
qed

section \<open>Operations that write below the runtime directory\<close>

lemma parent3: "path_parent (r @ [a, b, d]) = Some (r @ [a, b])"
  by (cases r) (simp_all add: butlast_append)

lemma await_data:
  assumes "q \<noteq> p"
  shows "keeps (file_data q) (await_core_socket n p)"
proof (induction n)
  case (Suc n)
  have "keeps (file_data q) (core_symlink_metadata p)"
    unfolding keeps_def
  proof
    fix w
    have "keeps (file_data q) (lstat p)"
      unfolding lstat_def by (rule data_syscall_other) (simp split: option.splits)
    then have "file_data q (snd (core_symlink_metadata p w)) = file_data q (core_creates p w)"
      by (simp add: core_symlink_metadata_def keeps_snd)
    also have "\<dots> = file_data q w"
      using assms by (simp add: core_creates_def file_data_def set_node_def split: option.splits)
    finally show "file_data q (snd (core_symlink_metadata p w)) = file_data q w" .
  qed
  with Suc show ?case unfolding await_core_socket.simps by (intro frame)
qed (simp add: frame)

lemma socket_data:
  assumes q: "state_file E q" and c: "core_socket E c"
  shows "keeps (file_data q) (prepare_core_ipc_socket (cc_core_ipc_path (clash_core c)) owner)"
    "keeps (file_data q) (secure_core_ipc_socket (cc_core_ipc_path (clash_core c)) owner)"
    "keeps (file_data q) (cleanup_core_socket (cc_core_ipc_path (clash_core c)))"
proof -
  from c obtain a b d where p: "abs_path (cc_core_ipc_path (clash_core c)) = runtime_dir (bd E) @ [a, b, d]"
    by (auto simp: core_socket_def)
  have ne: "q \<noteq> runtime_dir (bd E) @ x" for x using state_file_elsewhere(1) [OF q] .
  show "keeps (file_data q) (prepare_core_ipc_socket (cc_core_ipc_path (clash_core c)) owner)"
    unfolding prepare_core_ipc_socket_def p parent3 option.case claim_core_directory_def clear_core_entry_def
    by (intro frame files ne)
  show "keeps (file_data q) (secure_core_ipc_socket (cc_core_ipc_path (clash_core c)) owner)"
    unfolding secure_core_ipc_socket_def p hand_over_socket_def grant_core_ipc_directory_to_owner_def parent3 option.case
    by (intro frame files await_data ne)
  show "keeps (file_data q) (cleanup_core_socket (cc_core_ipc_path (clash_core c)))"
    unfolding cleanup_core_socket_def p fs_exists_def by (intro frame files ne)
qed

lemma record_data:
  assumes q: "state_file E q"
  shows "keeps (file_data q) (remove_core_runtime_record E)"
    "keeps (file_data q) (write_runtime_record_for_config E child config)"
proof -
  have ne: "q \<noteq> runtime_dir (bd E) @ x" for x using state_file_elsewhere(1) [OF q] .
  have path: "sp_core_runtime_path (paths_of E) = runtime_dir (bd E) @ [SERVICE_SLUG (bd E) @ ''.core.json'']"
    by (simp add: paths_of_def service_paths_of_def Let_def)
  have dirs: "\<not> path_starts_with q (runtime_dir (bd E))"
  proof
    assume "path_starts_with q (runtime_dir (bd E))"
    then obtain r where "runtime_dir (bd E) = q @ r"
      by (auto simp: path_starts_with_def take_is_prefix prefix_def)
    then have "q \<noteq> q @ r @ []" using state_file_elsewhere(1) [OF q, of "[]"] q roots_disjoint [of "bd E" _ "[]"]
      by (metis append.assoc append.right_neutral state_file_def)
    with \<open>runtime_dir (bd E) = q @ r\<close> q show False
      using roots_disjoint [of "bd E" _ "[]"] by (metis append.assoc append.right_neutral state_file_def)
  qed
  show "keeps (file_data q) (remove_core_runtime_record E)"
    unfolding remove_core_runtime_record_def path by (intro frame files ne)
  have "keeps (file_data q) (write_core_runtime_record E r)" for r
    unfolding write_core_runtime_record_def Let_def path butlast_snoc
    by (intro frame files ne dirs)
  then show "keeps (file_data q) (write_runtime_record_for_config E child config)"
    unfolding write_runtime_record_for_config_def by (intro frame files)
qed

section \<open>The watchdog\<close>

lemma data_tail:
  assumes "state_file E q"
  shows "keeps (file_data q) (watchdog_tail E b)"
  unfolding watchdog_tail_def by (intro frame files record_data assms)

lemma data_step:
  assumes q: "state_file E q" and c: "core_socket E (wd_config wd)"
  shows "keeps (file_data q) (watchdog_step E shutdown wd)"
  unfolding watchdog_step_def watch_child_def core_exited_def recover_def restart_core_def restart_unsecured_def
    restart_unrecorded_def restart_recorded_def retry_later_def Let_def
  by (intro frame files data_tail [OF q] record_data [OF q] socket_data [OF q c];
      simp add: file_data_def drop_guard_def)

lemma crew_step: "keeps crew (watchdog_step E shutdown wd)"
  unfolding watchdog_step_def watch_child_def core_exited_def recover_def restart_core_def restart_unsecured_def
    restart_unrecorded_def restart_recorded_def retry_later_def watchdog_tail_def Let_def
  by (intro frame; simp)

lemma step_config:
  assumes "watchdog_step E shutdown wd w = (Inr (WatchdogRunning wd'), v)"
  shows "wd_config wd' = wd_config wd"
proof -
  have "round_of (env w) shutdown wd (WatchdogRunning wd') v"
    using triple_ok [OF step_round [where e = "env w" and shutdown = shutdown and wd = wd and E = E] refl assms] .
  then show ?thesis
    by (auto simp: round_of_def given_up_def after_exit_def after_failure_def after_restart_def Let_def split: option.splits)
qed

text \<open>A task whose configurations are in order.\<close>

definition task_ok :: "params \<Rightarrow> watchdog_task \<Rightarrow> bool" where
  "task_ok E task \<longleftrightarrow> (\<forall>c \<in> task_configs task. core_socket E c)"

lemma quiet_step:
  assumes q: "state_file E q" and c: "core_socket E (wd_config wd)"
  shows "triple (quiet E q d) (watchdog_step E shutdown wd) (\<lambda>task w. quiet E q d w \<and> task_ok E task) (\<lambda>_. quiet E q d)"
proof -
  note keep = quiet_keeps [OF data_step [OF q c] crew_step, where d = d]
  show ?thesis
    unfolding triple_def
  proof (intro allI impI conjI)
    fix w task v e assume w: "quiet E q d w"
    { assume run: "watchdog_step E shutdown wd w = (Inr task, v)"
      then show "quiet E q d v" using triple_ok [OF keep w] by blast
      show "task_ok E task" using run c step_config by (cases task) (auto simp: task_ok_def)
    next
      assume "watchdog_step E shutdown wd w = (Inl e, v)"
      then show "quiet E q d v" using triple_fails [OF keep w] by blast
    }
  qed
qed

lemma quiet_rounds:
  assumes q: "state_file E q"
  shows "core_socket E (wd_config wd) \<Longrightarrow>
    triple (quiet E q d) (run_watchdog E shutdown n wd) (\<lambda>task w. quiet E q d w \<and> task_ok E task) (\<lambda>_. quiet E q d)"
proof (induction n arbitrary: wd)
  case 0
  then show ?case by (auto intro: triple_okE simp: task_ok_def)
next
  case (Suc n)
  show ?case
    unfolding run_watchdog.simps
  proof (rule triple_bindE [OF quiet_step [OF q Suc.prems]])
    fix task
    show "triple (\<lambda>w. quiet E q d w \<and> task_ok E task)
        (case task of WatchdogRunning wd' \<Rightarrow> run_watchdog E shutdown n wd' | WatchdogDone r \<Rightarrow> okE (WatchdogDone r))
        (\<lambda>task w. quiet E q d w \<and> task_ok E task) (\<lambda>_. quiet E q d)"
    proof (cases task)
      case (WatchdogRunning wd')
      show ?thesis
      proof (cases "core_socket E (wd_config wd')")
        case True
        then show ?thesis using WatchdogRunning Suc.IH [of wd'] by (auto intro: triple_pre)
      next
        case False
        with WatchdogRunning show ?thesis by (simp add: triple_def task_ok_def)
      qed
    next
      case (WatchdogDone r)
      then show ?thesis by (auto intro: triple_okE)
    qed
  qed
qed

lemma quiet_modify:
  "(\<And>w. quiet E q d w \<Longrightarrow> sockets_ok E (f w) \<and> fs (f w) = fs w) \<Longrightarrow> triple (quiet E q d) (modify f) (\<lambda>_. quiet E q d) R"
  by (auto simp: triple_def modify_def quiet_def file_data_def)

lemma sockets_simps [simp]:
  "sockets_ok E (w\<lparr>mgr := (mgr w)\<lparr>watchdog_handle := None\<rparr>\<rparr>) \<longleftrightarrow>
     (\<forall>c \<in> set_option (running_config (mgr w)) \<union> wd_config ` set (detached_watchdogs w). core_socket E c)"
  "sockets_ok E (w\<lparr>mgr := (mgr w)\<lparr>watchdog_handle := Some task\<rparr>\<rparr>) \<longleftrightarrow>
     task_ok E task \<and>
     (\<forall>c \<in> set_option (running_config (mgr w)) \<union> wd_config ` set (detached_watchdogs w). core_socket E c)"
  by (auto simp: sockets_ok_def known_configs_def handle_def task_ok_def)

lemma quiet_set_handle:
  "triple (\<lambda>w. quiet E q d w \<and> task_ok E task) (modify_mgr (\<lambda>m. m\<lparr>watchdog_handle := Some task\<rparr>)) (\<lambda>_. quiet E q d) R"
  by (auto simp: triple_def modify_mgr_def modify_def quiet_def file_data_def sockets_ok_def known_configs_def handle_def task_ok_def)

lemma quiet_take_handle:
  "triple (\<lambda>w. h = watchdog_handle (mgr w) \<and> quiet E q d w) (modify_mgr (\<lambda>m. m\<lparr>watchdog_handle := None\<rparr>))
     (\<lambda>_ w. quiet E q d w \<and> (\<forall>task. h = Some task \<longrightarrow> task_ok E task)) R"
  by (auto simp: triple_def modify_mgr_def modify_def quiet_def file_data_def sockets_ok_def known_configs_def
      handle_def task_ok_def)

lemma quiet_join:
  assumes q: "state_file E q" and t: "task_ok E task"
  shows "triple (quiet E q d) (join_watchdog E task) (\<lambda>_. quiet E q d) (\<lambda>_. quiet E q d)"
  unfolding join_watchdog_def
proof (rule triple_bindE)
  show "triple (quiet E q d)
      (case task of WatchdogDone r \<Rightarrow> okE (WatchdogDone r) | WatchdogRunning wd \<Rightarrow> run_watchdog E True DRAIN_ROUNDS wd)
      (\<lambda>ended w. quiet E q d w \<and> task_ok E ended) (\<lambda>_. quiet E q d)"
    using quiet_rounds [OF q] t by (cases task) (auto intro: triple_okE simp: task_ok_def)
  fix ended
  show "triple (\<lambda>w. quiet E q d w \<and> task_ok E ended)
      (case ended of WatchdogDone r \<Rightarrow> liftE r
       | WatchdogRunning wd \<Rightarrow>
           bindE (modify_mgr (\<lambda>m. m\<lparr>watchdog_handle := Some (WatchdogRunning wd)\<rparr>)) (\<lambda>_.
             failE (Msg ''still waiting for the watchdog''))) (\<lambda>_. quiet E q d) (\<lambda>_. quiet E q d)"
    by (cases ended) (auto intro: triple_liftE triple_bindE [OF quiet_set_handle] triple_failE)
qed

lemma quiet_stop_watchdog:
  assumes "state_file E q"
  shows "triple (quiet E q d) (stop_watchdog E) (\<lambda>_. quiet E q d) (\<lambda>_. quiet E q d)"
  unfolding stop_watchdog_def
proof (intro triple_bindE [OF triple_get] triple_bindE [OF quiet_take_handle] triple_known)
  fix h assume "\<forall>task. h = Some task \<longrightarrow> task_ok E task"
  then show "triple (quiet E q d) (case h of None \<Rightarrow> okE () | Some task \<Rightarrow> join_watchdog E task)
      (\<lambda>_. quiet E q d) (\<lambda>_. quiet E q d)"
    using quiet_join [OF assms] by (cases h) (auto intro: triple_okE)
qed

section \<open>Starting and stopping\<close>

lemma quiet_ops:
  "triple (quiet E q d) clear_logs (\<lambda>_. quiet E q d) (\<lambda>_. quiet E q d)"
  "triple (quiet E q d) retry_failed_child (\<lambda>_. quiet E q d) (\<lambda>_. quiet E q d)"
  "triple (quiet E q d) ensure_startup_reconciled (\<lambda>_. quiet E q d) (\<lambda>_. quiet E q d)"
  "triple (quiet E q d) (set_core_state s) (\<lambda>_. quiet E q d) (\<lambda>_. quiet E q d)"
  unfolding retry_failed_child_def
  by (intro quiet_keeps; (intro frame files; simp add: file_data_def))+

lemma quiet_forget:
  assumes q: "state_file E q"
  shows "triple (quiet E q d) (forget_core E) (\<lambda>_. quiet E q d) (\<lambda>_. quiet E q d)"
proof -
  have config: "triple (quiet E q d) (get (\<lambda>w. running_config (mgr w)))
      (\<lambda>c w. quiet E q d w \<and> (\<forall>x. c = Some x \<longrightarrow> core_socket E x)) (\<lambda>_. quiet E q d)"
    by (auto simp: triple_def get_def quiet_def sockets_ok_def known_configs_def)
  have drop: "triple (\<lambda>w. quiet E q d w \<and> A) (modify_mgr (\<lambda>m. m\<lparr>running_config := None\<rparr>)) (\<lambda>_ w. quiet E q d w \<and> A) R" for A R
    by (auto simp: triple_def modify_mgr_def modify_def quiet_def file_data_def sockets_ok_def known_configs_def handle_def)
  have rest: "triple (quiet E q d) (bindE (remove_core_runtime_record E) (\<lambda>_.
       bindE (after_stop (map_option (\<lambda>c. cc_core_ipc_path (clash_core c)) c)) (\<lambda>_. set_core_state Running)))
      (\<lambda>_. quiet E q d) (\<lambda>_. quiet E q d)" if "\<forall>x. c = Some x \<longrightarrow> core_socket E x" for c
  proof -
    have "keeps (file_data q) (after_stop (map_option (\<lambda>c. cc_core_ipc_path (clash_core c)) c))"
      unfolding after_stop_def using that socket_data(3) [OF q] by (cases c) (auto intro!: frame files)
    moreover have "keeps crew (after_stop (map_option (\<lambda>c. cc_core_ipc_path (clash_core c)) c))"
      unfolding after_stop_def by (intro frame)
    ultimately show ?thesis
      by (intro triple_bindE [OF quiet_keeps] record_data [OF q] quiet_ops frame)
  qed
  have cells: "triple (quiet E q d) (modify_mgr (\<lambda>m. m\<lparr>running_pid := 0, core_start_time := None, core_started_at := 0\<rparr>))
      (\<lambda>_. quiet E q d) (\<lambda>_. quiet E q d)"
    by (intro quiet_keeps files crew_modify_mgr) simp
  show ?thesis
    unfolding forget_core_def
    by (intro triple_bindE [OF cells] triple_bindE [OF config] triple_bindE [OF drop] triple_known rest)
qed

lemma quiet_stop:
  assumes q: "state_file E q"
  shows "triple (quiet E q d) (stop_core E) (\<lambda>_. quiet E q d) (\<lambda>_. quiet E q d)"
  unfolding stop_core_def
  by (intro triple_bindE [OF quiet_ops(1)] triple_tryE [OF quiet_stop_watchdog [OF q]] triple_bindE [OF quiet_ops(2)]
      triple_bindE [where Q = "\<lambda>_. quiet E q d"] triple_if triple_okE triple_liftE quiet_forget [OF q])

text \<open>A start brings a new configuration in, whose socket is in place as well.\<close>

lemma quiet_new_config:
  assumes "core_socket E config" and "\<And>m. running_config (f m) \<in> {running_config m, Some config} \<and> watchdog_handle (f m) = watchdog_handle m"
  shows "triple (quiet E q d) (modify_mgr f) (\<lambda>_. quiet E q d) R"
proof -
  have "sockets_ok E (w\<lparr>mgr := f (mgr w)\<rparr>)" if "sockets_ok E w" for w
    using that assms(1) assms(2) [of "mgr w"]
    by (auto simp: sockets_ok_def known_configs_def handle_def)
  then show ?thesis
    by (simp add: triple_def modify_mgr_def modify_def quiet_def file_data_def)
qed

lemma quiet_launch:
  assumes q: "state_file E q" and c: "core_socket E config"
  shows "triple (quiet E q d) (launch_core E config owner) (\<lambda>_. quiet E q d) (\<lambda>_. quiet E q d)"
proof -
  note keep = quiet_keeps [where q = q and d = d and E = E]
  have kill: "triple (quiet E q d) (kill_now child) (\<lambda>_. quiet E q d) (\<lambda>_. quiet E q d)" for child
    by (intro keep files frame)
  have note_it: "triple (quiet E q d) (note_unconfirmed_core child) (\<lambda>_. quiet E q d) (\<lambda>_. quiet E q d)" for child
    by (intro keep files frame)
  have note_record: "triple (quiet E q d) (write_runtime_record_for_config E child config) (\<lambda>_. quiet E q d) (\<lambda>_. quiet E q d)" for child
    by (intro keep record_data [OF q] frame)
  have failed: "triple (quiet E q d) (set_failed_child child) (\<lambda>_. quiet E q d) (\<lambda>_. quiet E q d)" for child
    by (intro keep files frame)
  have config: "triple (quiet E q d) (modify_mgr (\<lambda>m. m\<lparr>running_config := Some config\<rparr>)) (\<lambda>_. quiet E q d) (\<lambda>_. quiet E q d)"
    by (rule quiet_new_config [OF c]) simp
  have recorded: "triple (quiet E q d) (modify_mgr (\<lambda>m. m\<lparr>core_start_time := Some started, core_started_at := now_secs,
              running_pid := child_pid child, running_config := Some config\<rparr>)) (\<lambda>_. quiet E q d) (\<lambda>_. quiet E q d)"
    for started now_secs child
    by (rule quiet_new_config [OF c]) simp
  have watch: "triple (quiet E q d) (start_watchdog child config owner) (\<lambda>_. quiet E q d) (\<lambda>_. quiet E q d)" for child
    unfolding start_watchdog_def
    by (rule quiet_modify) (use c in \<open>auto simp: quiet_def sockets_ok_def known_configs_def handle_def
        split: option.splits watchdog_task.splits\<close>)
  have clocks: "triple (quiet E q d) read_instant (\<lambda>_. quiet E q d) (\<lambda>_. quiet E q d)"
    "triple (quiet E q d) (read_clock :: u64 act) (\<lambda>_. quiet E q d) (\<lambda>_. quiet E q d)"
    by (intro keep files frame crew_ops)+
  note steps = triple_bindE [OF note_it] triple_bindE [OF config] triple_bindE [OF failed] triple_bindE [OF quiet_ops(4)]
    triple_tryE [OF note_record] triple_failE triple_match [OF kill]
  have unsecured: "triple (quiet E q d) (start_unsecured E config child e) (\<lambda>_. quiet E q d) (\<lambda>_. quiet E q d)" for child e
    unfolding start_unsecured_def by (intro steps)
  have unrecorded: "triple (quiet E q d) (start_unrecorded config child e) (\<lambda>_. quiet E q d) (\<lambda>_. quiet E q d)" for child e
    unfolding start_unrecorded_def by (intro steps)
  have started: "triple (quiet E q d) (start_recorded config owner child) (\<lambda>_. quiet E q d) (\<lambda>_. quiet E q d)" for child
    unfolding start_recorded_def
    by (intro triple_bindE [OF clocks(1)] triple_bindE [OF clocks(2)] triple_bindE [OF recorded] triple_bindE [OF watch] quiet_ops)
  show ?thesis
    unfolding launch_core_def
    by (intro triple_bindE [OF keep [OF socket_data(1) [OF q c] crew_ops(13)]]
        triple_bindE [OF keep [OF data_ops(4) crew_ops(4)]]
        triple_match [OF keep [OF socket_data(2) [OF q c] crew_ops(14)]] triple_match [OF note_record]
        unsecured unrecorded started)
qed

lemma quiet_start:
  assumes q: "state_file E q" and c: "core_socket E config"
  shows "triple (quiet E q d) (start_core E config owner) (\<lambda>_. quiet E q d) (\<lambda>_. quiet E q d)"
proof -
  have get: "triple (quiet E q d) (get f) (\<lambda>_. quiet E q d) (\<lambda>_. quiet E q d)" for f :: "world \<Rightarrow> u32"
    by (simp add: triple_def get_def)
  show ?thesis
    unfolding start_core_def
    by (intro triple_bindE [OF quiet_ops(3)] triple_bindE [OF quiet_ops(4)] triple_bindE [OF get]
        triple_bindE [where Q = "\<lambda>_. quiet E q d"] triple_if quiet_stop [OF q] triple_okE quiet_launch [OF q c])
qed

lemma quiet_turn:
  assumes q: "state_file E q"
  shows "triple (quiet E q d) (watchdog_turn E) (\<lambda>_. quiet E q d) (\<lambda>_. quiet E q d)"
proof -
  have round: "triple (quiet E q d) (bindE (modify_mgr (\<lambda>m. m\<lparr>watchdog_handle := None\<rparr>)) (\<lambda>_.
      bindE (watchdog_step E False wd) (\<lambda>task. modify_mgr (\<lambda>m. m\<lparr>watchdog_handle := Some task\<rparr>))))
      (\<lambda>_. quiet E q d) (\<lambda>_. quiet E q d)" if "core_socket E (wd_config wd)" for wd
  proof (rule triple_bindE)
    show "triple (quiet E q d) (modify_mgr (\<lambda>m. m\<lparr>watchdog_handle := None\<rparr>)) (\<lambda>_. quiet E q d) (\<lambda>_. quiet E q d)"
      by (auto simp: triple_def modify_mgr_def modify_def quiet_def file_data_def sockets_ok_def known_configs_def handle_def)
    show "triple (quiet E q d) (bindE (watchdog_step E False wd) (\<lambda>task. modify_mgr (\<lambda>m. m\<lparr>watchdog_handle := Some task\<rparr>)))
        (\<lambda>_. quiet E q d) (\<lambda>_. quiet E q d)"
      by (intro triple_bindE [OF quiet_step [OF q that]] quiet_set_handle)
  qed
  have handle: "triple (quiet E q d) (get (\<lambda>w. watchdog_handle (mgr w)))
      (\<lambda>h w. quiet E q d w \<and> (\<forall>wd. h = Some (WatchdogRunning wd) \<longrightarrow> core_socket E (wd_config wd))) (\<lambda>_. quiet E q d)"
    by (auto simp: triple_def get_def quiet_def sockets_ok_def known_configs_def handle_def)
  show ?thesis
    unfolding watchdog_turn_def
    by (intro triple_bindE [OF handle] triple_known)
      (auto intro: triple_okE round split: option.splits watchdog_task.splits)
qed

end
