(* ===== verification/Live.thy ===== *)
theory Live
  imports Footprint
begin

text \<open>
  Refreshing the runtime of a running core (\<open>stage_runtime\<close> in
  \<open>src/core/runtime_generation/staging.rs\<close>), and the parts of the service that look at the core from
  outside: the restoration of the desired state at startup (\<open>src/core/desired.rs\<close>) and the status report
  (\<open>src/core/status.rs\<close>).
\<close>

section \<open>Staging a live generation\<close>

text \<open>The loops of the operation end early with the reason for a restart.\<close>

fun discard_live_caches ::
  "params \<Rightarrow> path \<Rightarrow> string list \<Rightarrow> (world, service_error, stage_rejection option) op" where
  "discard_live_caches E generation [] = okE None"
| "discard_live_caches E generation (destination # rest) =
     bindE (liftE (resolve_in_generation generation destination)) (\<lambda>target.
     tryE (remove_staged_file E target) (\<lambda>r.
       (case r of
          Inl k \<Rightarrow> okE (Some (RuntimeUnwritable
                     (''failed to discard the stale cache '' @ destination @ '': '' @ io_text k)))
        | Inr _ \<Rightarrow> discard_live_caches E generation rest)))"

fun refresh_live_assets ::
  "params \<Rightarrow> path \<Rightarrow> planned_copy list \<Rightarrow> (world, service_error, stage_rejection option) op" where
  "refresh_live_assets E generation [] = okE None"
| "refresh_live_assets E generation (c # cs) =
     bindE (liftE (resolve_in_generation generation (pc_destination c))) (\<lambda>target.
     tryE (copy_staged_file E (pc_source c) target) (\<lambda>r.
       (case r of
          Inl k \<Rightarrow> okE (Some (RuntimeUnwritable
                     (''failed to refresh the runtime asset '' @ pc_destination c @ '': '' @ io_text k)))
        | Inr _ \<Rightarrow>
            bindE (source_identity_changed (pc_source c) (pc_identity c)) (\<lambda>changed.
              if changed then okE (Some (RuntimeUnwritable
                     (''runtime asset '' @ pc_destination c @ '' changed while it was being copied'')))
              else refresh_live_assets E generation cs))))"

text \<open>
  While the files are written, the manager's lock is free: the watchdog may have any number of rounds.
\<close>

fun watchdog_rounds :: "params \<Rightarrow> nat \<Rightarrow> unit act" where
  "watchdog_rounds E 0 = okE ()"
| "watchdog_rounds E (Suc n) = bindE (watchdog_turn E) (\<lambda>_. watchdog_rounds E n)"

definition let_watchdog_run :: "params \<Rightarrow> (world, service_error, unit) op" where
  "let_watchdog_run E =
     bindE (get (\<lambda>w. ev_turns (env w) (tick w))) (\<lambda>n.
       tryE (watchdog_rounds E n) (\<lambda>_. okE ()))"

text \<open>The commit: the core is looked at again, then the configuration is written.\<close>

definition commit_live ::
  "params \<Rightarrow> path \<Rightarrow> u32 \<Rightarrow> core_config \<Rightarrow> string \<Rightarrow> stage_plan \<Rightarrow> (world, service_error, stage_runtime_outcome) op" where
  "commit_live E generation core_pid running yaml plan =
     bindE (get (\<lambda>w. map_option fst (running_core_config w))) (\<lambda>pid.
       if pid \<noteq> Some core_pid then okE (RestartRequired CoreRestarted)
       else
         (let config_path = abs_path (cc_config_path running) in
          tryE (commit_staged_config E generation config_path yaml (sp_manifest plan)) (\<lambda>r.
            (case r of
               Inl k \<Rightarrow>
                 tryE (remove_staged_file E (generation @ [MANIFEST_FILE_NAME])) (\<lambda>_.
                   okE (RestartRequired (RuntimeUnwritable
                     (''failed to commit the staged configuration: '' @ io_text k))))
             | Inr _ \<Rightarrow>
                 bindE (sweep_obsolete E generation (sp_hygiene_deletes plan)) (\<lambda>_.
                   okE (Staged (cc_config_path running)))))))"

definition stage_files ::
  "params \<Rightarrow> path \<Rightarrow> u32 \<Rightarrow> core_config \<Rightarrow> string \<Rightarrow> stage_plan \<Rightarrow> (world, service_error, stage_runtime_outcome) op" where
  "stage_files E generation core_pid running yaml plan =
     bindE (discard_live_caches E generation (sp_required_deletes plan)) (\<lambda>rejected.
       (case rejected of
          Some reason \<Rightarrow> okE (RestartRequired reason)
        | None \<Rightarrow>
            bindE (refresh_live_assets E generation (sp_copies plan)) (\<lambda>rejected.
              (case rejected of
                 Some reason \<Rightarrow> okE (RestartRequired reason)
               | None \<Rightarrow>
                   bindE (let_watchdog_run E) (\<lambda>_.
                     commit_live E generation core_pid running yaml plan)))))"

definition stage_runtime ::
  "params \<Rightarrow> authenticated_owner \<Rightarrow> runtime_bundle \<Rightarrow> (world, service_error, stage_runtime_outcome) op" where
  "stage_runtime E owner bundle =
     bindE (get running_core_config) (\<lambda>core.
       (case core of
          None \<Rightarrow> okE (RestartRequired CoreNotRunning)
        | Some (core_pid, config) \<Rightarrow>
            bindE (validate_core_path E owner (rb_core_path bundle)) (\<lambda>core_path.
              if \<not> same_path (cc_core_path (clash_core config)) core_path
              then okE (RestartRequired CorePathChanged)
              else
                (let generation = abs_path (cc_config_dir (clash_core config)) in
                 bindE (gather_bundle E owner bundle core_path) (\<lambda>(sources, remote).
                 tryE (read_manifest generation) (\<lambda>r.
                   (case r of
                      Inl detail \<Rightarrow> okE (RestartRequired (RuntimeUnwritable detail))
                    | Inr previous \<Rightarrow>
                        stage_files E generation core_pid (clash_core config) (rb_yaml bundle)
                          (plan_stage previous sources remote))))))))"

section \<open>Restoring the desired state\<close>

definition is_not_found_error :: "err \<Rightarrow> bool" where
  "is_not_found_error e = chain_has_not_found e"

text \<open>What the stored state asks for, once the writer was restored.\<close>

definition restore_core :: "params \<Rightarrow> active_owner_state \<Rightarrow> clash_config \<Rightarrow> unit act" where
  "restore_core E active config =
     tryE (start_core E config (ao_identity active)) (\<lambda>r.
       (case r of
          Inr _ \<Rightarrow> okE ()
        | Inl e \<Rightarrow>
            if is_not_found_error e then
              tryE (persist_owner_core_stopped_by_key E (ao_owner_key active)) (\<lambda>_.
                set_core_state Running)
            else bindE (set_core_state Fatal) (\<lambda>_. failE e)))"

definition restore_desired_state :: "params \<Rightarrow> unit act" where
  "restore_desired_state E =
     bindE (backup_legacy_desired_states E) (\<lambda>_.
     bindE (load_active_owner E) (\<lambda>active_owner.
       (case active_owner of
          None \<Rightarrow> okE ()
        | Some active \<Rightarrow>
            bindE (load_owner_desired_state E (ao_owner_key active)) (\<lambda>state.
            tryE (case ds_last_writer_config state of
                    None \<Rightarrow> okE ()
                  | Some c \<Rightarrow> set_or_update_writer c) (\<lambda>_.
              if \<not> ds_core_should_be_running state then okE ()
              else
                (case ds_last_clash_config state of
                   None \<Rightarrow> okE ()
                 | Some config \<Rightarrow> restore_core E active config))))))"

section \<open>The status report\<close>

definition effective_service_state ::
  "lifecycle_state \<Rightarrow> lifecycle_state \<Rightarrow> bool \<Rightarrow> bool \<Rightarrow> u32 option \<Rightarrow> lifecycle_state" where
  "effective_service_state reported core_reported is_active desired_running core_pid =
     (if core_reported \<in> {Fatal, RecoveringCore, Starting} \<and> is_active \<and> desired_running then core_reported
      else if reported \<noteq> Fatal \<and> is_active \<and> desired_running \<and> core_pid = None then RecoveringCore
      else reported)"

definition report_core :: "core_status_snapshot option \<Rightarrow> service_status_snapshot \<Rightarrow> service_status_snapshot" where
  "report_core core s =
     s\<lparr>st_core_pid := Option.bind core cs_core_pid,
       st_core_started_at := Option.bind core cs_core_started_at,
       st_last_core_exit_reason := Option.bind core cs_last_core_exit_reason,
       st_restart_count := (case core of None \<Rightarrow> 0 | Some c \<Rightarrow> cs_restart_count c),
       st_last_recovery_at := Option.bind core cs_last_recovery_at\<rparr>"

text \<open>The two states are read first; \<open>unwrap_or_default\<close> covers a desired state that cannot be read.\<close>

definition collect_service_status :: "params \<Rightarrow> authenticated_owner \<Rightarrow> service_status_snapshot act" where
  "collect_service_status E owner =
     bindE (get service_lifecycle_state) (\<lambda>reported_service_state.
     bindE (get core_lifecycle_state) (\<lambda>reported_core_state.
     tryE (load_owner_desired_state E (au_key owner)) (\<lambda>loaded.
     let desired = (case loaded of Inl _ \<Rightarrow> default_desired_state | Inr s \<Rightarrow> s) in
     bindE (load_active_owner E) (\<lambda>active_owner.
     let active_generation = (case active_owner of
           Some a \<Rightarrow> if ao_owner_key a = au_key owner then Some (ao_generation a) else None
         | None \<Rightarrow> None);
         is_active = active_generation \<noteq> None in
     bindE (if is_active then get (\<lambda>w. Some (core_status w)) else okE None) (\<lambda>core.
       okE (report_core core
         \<lparr>st_is_active = is_active, st_active_generation = active_generation,
          st_service_state = effective_service_state reported_service_state reported_core_state is_active
            (ds_core_should_be_running desired) (Option.bind core cs_core_pid),
          st_core_pid = None, st_core_started_at = None, st_last_core_exit_reason = None,
          st_restart_count = 0, st_last_recovery_at = None,
          st_desired_core_should_be_running = ds_core_should_be_running desired,
          st_desired_generation = ds_generation desired,
          st_desired_updated_at = ds_updated_at desired\<rparr>))))))"

end
