(* ===== verification/Transition.thy ===== *)
theory Transition
  imports Footprint Proxy
begin

text \<open>
  The change of the active owner (\<open>src/core/server.rs\<close>, lines 48 to 262): the order of its six steps,
  written once for any implementation of the steps (the trait \<open>OwnerProxyTransition\<close>), and the
  implementation that a start request uses (\<open>StartOwnerTransition\<close>).
\<close>

section \<open>The order of the steps\<close>

definition owner_proxy_transition ::
  "('s, err, unit) op \<Rightarrow> ('s, err, unit) op \<Rightarrow> ('s, err, unit) op \<Rightarrow> ('s, err, unit) op \<Rightarrow>
   ('s, err, active_owner_state) op \<Rightarrow> ('s, err, proxy_apply_outcome) op \<Rightarrow>
   ('s, service_error, active_owner_state \<times> proxy_apply_outcome) op" where
  "owner_proxy_transition clear_previous_proxy compensate_direct stop_previous_core start_new_core commit_new_owner
     apply_new_proxy =
     tryE clear_previous_proxy (\<lambda>cleared.
       (case cleared of
          Inl clear_error \<Rightarrow>
            tryE compensate_direct (\<lambda>compensation.
              failE (se_proxy_clear_failed
                (case compensation of
                   Inr _ \<Rightarrow> ''Failed to clear the previous owner's proxy: '' @ show_err clear_error
                 | Inl compensation_error \<Rightarrow>
                     ''Failed to clear the previous owner's proxy: '' @ show_err clear_error @
                     ''; direct compensation failed: '' @ show_err compensation_error)))
        | Inr _ \<Rightarrow>
            bindE (mapErrE (\<lambda>e. se_owner_switch_failed (''Failed to stop the previous owner core: '' @ show_err e))
                     stop_previous_core) (\<lambda>_.
            bindE (mapErrE (\<lambda>e. se_owner_switch_failed (''Failed to start owner core: '' @ show_err e))
                     start_new_core) (\<lambda>_.
            bindE (mapErrE (\<lambda>e. se_owner_switch_failed (''Failed to commit owner state: '' @ show_err e))
                     commit_new_owner) (\<lambda>active.
            bindE (mapErrE (\<lambda>e. se_proxy_apply_failed (''Failed to apply owner proxy: '' @ show_err e))
                     apply_new_proxy) (\<lambda>proxy_outcome.
              okE (active, proxy_outcome)))))))"

text \<open>
  The contract of an implementation: what is true before the change, after the previous core was stopped,
  after a commit and after a commit that failed. It is what a caller can conclude from the error code.
\<close>

locale owner_proxy_steps =
  fixes clear_step compensate_step stop_step start_step :: "('s, err, unit) op"
    and commit_step :: "('s, err, active_owner_state) op"
    and apply_step :: "('s, err, proxy_apply_outcome) op"
    and Before Stopped Failed :: "'s \<Rightarrow> bool" and Committed :: "active_owner_state \<Rightarrow> 's \<Rightarrow> bool"
  assumes clear: "triple Before clear_step (\<lambda>_. Before) (\<lambda>_. Before)"
    and compensate: "triple Before compensate_step (\<lambda>_. Before) (\<lambda>_. Before)"
    and stop: "triple Before stop_step (\<lambda>_. Stopped) (\<lambda>_ s. Before s \<or> Stopped s)"
    and start: "triple Stopped start_step (\<lambda>_. Stopped) (\<lambda>_. Stopped)"
    and commit: "triple Stopped commit_step Committed (\<lambda>_. Failed)"
    and apply_proxy: "triple (Committed a) apply_step (\<lambda>_. Committed a) (\<lambda>_. Committed a)"
begin

definition reported :: "service_error \<Rightarrow> 's \<Rightarrow> bool" where
  "reported e s \<longleftrightarrow>
     (se_code e = ProxyClearFailed \<and> Before s) \<or>
     (se_code e = OwnerSwitchFailed \<and> (Before s \<or> Stopped s \<or> Failed s)) \<or>
     (se_code e = ProxyApplyFailed \<and> (\<exists>a. Committed a s))"

lemma outcome:
  "triple Before
     (owner_proxy_transition clear_step compensate_step stop_step start_step commit_step apply_step)
     (\<lambda>(a, p). Committed a) reported"
proof -
  have failed: "triple Before (tryE compensate_step (\<lambda>c. failE (se_proxy_clear_failed (m c)))) Q reported" for m Q
    by (rule triple_tryE [OF compensate]) (rule triple_failE, simp add: reported_def)+
  have mapped: "triple P (mapErrE f n) Q reported" if "triple P n Q R" "\<And>e s. R e s \<Longrightarrow> reported (f e) s"
    for P f Q R and n :: "('s, err, 'x) op"
    by (rule triple_mapErrE) (rule triple_weaken [OF that(1)], simp_all add: that(2))
  show ?thesis
    unfolding owner_proxy_transition_def
  proof (rule triple_match [OF clear _ failed])
    have proxied: "triple (Committed active) (bindE (mapErrE (\<lambda>e. se_proxy_apply_failed (m e)) apply_step)
        (\<lambda>proxy_outcome. okE (active, proxy_outcome))) (\<lambda>(a, p). Committed a) reported" for active m
      by (rule triple_bindE [OF mapped [OF apply_proxy]]) (auto intro: triple_okE simp: reported_def)
    have committed: "triple Stopped (bindE (mapErrE (\<lambda>e. se_owner_switch_failed (m e)) commit_step)
        (\<lambda>active. bindE (mapErrE (\<lambda>e. se_proxy_apply_failed (n e)) apply_step)
          (\<lambda>proxy_outcome. okE (active, proxy_outcome)))) (\<lambda>(a, p). Committed a) reported" for m n
      by (rule triple_bindE [OF mapped [OF commit] proxied]) (simp add: reported_def)
    have started: "triple Stopped (bindE (mapErrE (\<lambda>e. se_owner_switch_failed (l e)) start_step)
        (\<lambda>_. bindE (mapErrE (\<lambda>e. se_owner_switch_failed (m e)) commit_step)
        (\<lambda>active. bindE (mapErrE (\<lambda>e. se_proxy_apply_failed (n e)) apply_step)
          (\<lambda>proxy_outcome. okE (active, proxy_outcome))))) (\<lambda>(a, p). Committed a) reported" for l m n
      by (rule triple_bindE [OF mapped [OF start] committed]) (simp add: reported_def)
    show "triple Before (bindE (mapErrE (\<lambda>e. se_owner_switch_failed (k e)) stop_step)
        (\<lambda>_. bindE (mapErrE (\<lambda>e. se_owner_switch_failed (l e)) start_step)
        (\<lambda>_. bindE (mapErrE (\<lambda>e. se_owner_switch_failed (m e)) commit_step)
        (\<lambda>active. bindE (mapErrE (\<lambda>e. se_proxy_apply_failed (n e)) apply_step)
          (\<lambda>proxy_outcome. okE (active, proxy_outcome)))))) (\<lambda>(a, p). Committed a) reported" for k l m n
      by (rule triple_bindE [OF mapped [OF stop] started]) (auto simp: reported_def)
  qed
qed

end

section \<open>The proxy of the service\<close>

text \<open>Proxy routes change the system's settings in the macOS build only.\<close>

definition SERVICE_PROXY_IS_LIVE :: "params \<Rightarrow> bool" where
  "SERVICE_PROXY_IS_LIVE E \<longleftrightarrow> os (bd E) = MacOS"

definition clear_service_proxy :: "params \<Rightarrow> unit act" where
  "clear_service_proxy E = (if SERVICE_PROXY_IS_LIVE E then clear_proxy E else okE ())"

definition compensate_service_proxy :: "params \<Rightarrow> unit act" where
  "compensate_service_proxy E = (if SERVICE_PROXY_IS_LIVE E then apply_proxy E ProxyDisabled else okE ())"

definition apply_service_proxy_or_direct :: "params \<Rightarrow> macos_proxy_config option \<Rightarrow> proxy_apply_outcome act" where
  "apply_service_proxy_or_direct E config = apply_proxy_or_direct E config"

definition clear_proxy_with_direct_compensation :: "params \<Rightarrow> (world, service_error, unit) op" where
  "clear_proxy_with_direct_compensation E =
     tryE (clear_service_proxy E) (\<lambda>cleared.
       (case cleared of
          Inr _ \<Rightarrow> okE ()
        | Inl clear_error \<Rightarrow>
            tryE (compensate_service_proxy E) (\<lambda>compensation.
              failE (se_proxy_clear_failed
                (case compensation of
                   Inr _ \<Rightarrow> ''Failed to clear the active owner's proxy: '' @ show_err clear_error
                 | Inl compensation_error \<Rightarrow>
                     ''Failed to clear the active owner's proxy: '' @ show_err clear_error @
                     ''; direct compensation failed: '' @ show_err compensation_error)))))"

section \<open>Starting for an owner\<close>

text \<open>
  \<open>StartOwnerTransition\<close>: what the steps share. The prepared runtime is taken out when it is
  committed or dropped; the other fields do not change.
\<close>

record start_transition =
  tr_previous_owner :: "active_owner_state option"
  tr_owner :: authenticated_owner
  tr_prepared_runtime :: "prepared_runtime option"
  tr_proposed_session_token :: string
  tr_macos_proxy :: "macos_proxy_config option"

type_synonym 'a transition = "(start_transition \<times> world, err, 'a) op"

definition on_world :: "'a act \<Rightarrow> 'a transition" where
  "on_world m = (\<lambda>(t, w). (case m w of (r, v) \<Rightarrow> (r, (t, v))))"

definition taken_runtime :: "prepared_runtime option transition" where
  "taken_runtime = (\<lambda>(t, w). (Inr (tr_prepared_runtime t), (t\<lparr>tr_prepared_runtime := None\<rparr>, w)))"

definition service_msg :: "(world, service_error, 'a) op \<Rightarrow> 'a act" where
  "service_msg m = mapErrE (\<lambda>e. Msg (se_message e)) m"

definition stop_previous_core :: "params \<Rightarrow> unit transition" where
  "stop_previous_core E = (\<lambda>(t, w).
     on_world
       (bindE (stop_core E) (\<lambda>_.
        bindE (case tr_previous_owner t of
                 None \<Rightarrow> okE ()
               | Some previous \<Rightarrow>
                   ctx ''failed to persist the previous owner stopped state''
                     (bindE (persist_owner_core_stopped_by_key E (ao_owner_key previous)) (\<lambda>_. okE ()))) (\<lambda>_.
          ctx ''failed to clear the previous active owner'' (clear_active_owner E)))) (t, w))"

text \<open>A core whose start was rejected is stopped before the error is reported.\<close>

definition start_prepared :: "params \<Rightarrow> authenticated_owner \<Rightarrow> prepared_runtime \<Rightarrow> unit act" where
  "start_prepared E owner prepared =
     bindE (ctx ''failed to materialize the runtime generation'' (service_msg (materialize E prepared))) (\<lambda>_.
     tryE (start_core E (pr_clash_config prepared) (au_identity owner)) (\<lambda>start_result.
       (case start_result of
          Inr _ \<Rightarrow> okE ()
        | Inl e \<Rightarrow>
            tryE (stop_core E) (\<lambda>stopped.
              (case stopped of
                 Inl stop_error \<Rightarrow>
                   failE (Msg (show_err e @ ''; failed to confirm termination of the rejected core: '' @ show_err stop_error))
               | Inr _ \<Rightarrow> tryE (persist_owner_core_stopped E owner) (\<lambda>_. failE e))))))"

definition start_new_core :: "params \<Rightarrow> unit transition" where
  "start_new_core E = (\<lambda>(t, w).
     (case tr_prepared_runtime t of
        None \<Rightarrow> failE (Msg ''prepared runtime is unavailable'') (t, w)
      | Some prepared \<Rightarrow> on_world (start_prepared E (tr_owner t) prepared) (t, w)))"

definition rollback_started_owner :: "params \<Rightarrow> authenticated_owner \<Rightarrow> unit act" where
  "rollback_started_owner E owner =
     tryE (stop_core E) (\<lambda>stopped.
       (case stopped of
          Inl stop_error \<Rightarrow>
            bindE (set_core_state Fatal) (\<lambda>_.
              failE (Msg (''failed to terminate owner core during rollback: '' @ show_err stop_error)))
        | Inr _ \<Rightarrow>
            tryE (persist_owner_core_stopped E owner) (\<lambda>desired_result.
            tryE (clear_active_owner E) (\<lambda>active_result.
              (case (desired_result, active_result) of
                 (Inr _, Inr _) \<Rightarrow> okE ()
               | (Inl desired_error, Inr _) \<Rightarrow> failE desired_error
               | (Inr _, Inl active_error) \<Rightarrow> failE active_error
               | (Inl desired_error, Inl active_error) \<Rightarrow>
                   bindE (set_core_state Fatal) (\<lambda>_.
                     failE (Msg (''failed to persist stopped owner state: '' @ show_err desired_error @
                       ''; failed to clear active owner: '' @ show_err active_error))))))))"

definition rollback_commit_failure :: "params \<Rightarrow> err \<Rightarrow> 'a transition" where
  "rollback_commit_failure E error = (\<lambda>(t, w).
     tryE (on_world (rollback_started_owner E (tr_owner t))) (\<lambda>rolled.
       (case rolled of
          Inl rollback_error \<Rightarrow>
            failE (Msg (show_err error @ ''; failed to roll back uncommitted owner core: '' @ show_err rollback_error))
        | Inr _ \<Rightarrow> bindE taken_runtime (\<lambda>_. failE error))) (t, w))"

definition commit_new_owner :: "params \<Rightarrow> active_owner_state transition" where
  "commit_new_owner E = (\<lambda>(t, w).
     (case tr_prepared_runtime t of
        None \<Rightarrow> failE (Msg ''prepared runtime is unavailable during owner commit'') (t, w)
      | Some prepared \<Rightarrow>
          tryE (on_world (persist_owner_core_started E (tr_owner t) (pr_clash_config prepared))) (\<lambda>persisted.
            (case persisted of
               Inl error \<Rightarrow> rollback_commit_failure E error
             | Inr _ \<Rightarrow>
                 tryE (on_world (commit_active_owner_session E (tr_owner t) (tr_proposed_session_token t))) (\<lambda>committed.
                   (case committed of
                      Inl error \<Rightarrow> rollback_commit_failure E error
                    | Inr active \<Rightarrow>
                        bindE taken_runtime (\<lambda>taken.
                        bindE (liftE (ok_or (Msg ''prepared runtime disappeared during owner commit'') taken)) (\<lambda>prepared.
                        bindE (on_world (service_msg (commit_prepared E prepared))) (\<lambda>_.
                          okE active))))))) (t, w)))"

definition apply_new_proxy :: "params \<Rightarrow> proxy_apply_outcome transition" where
  "apply_new_proxy E = (\<lambda>(t, w). on_world (apply_service_proxy_or_direct E (tr_macos_proxy t)) (t, w))"

definition start_owner_transition ::
  "params \<Rightarrow> (start_transition \<times> world, service_error, active_owner_state \<times> proxy_apply_outcome) op" where
  "start_owner_transition E =
     owner_proxy_transition (on_world (clear_service_proxy E)) (on_world (compensate_service_proxy E))
       (stop_previous_core E) (start_new_core E) (commit_new_owner E) (apply_new_proxy E)"

end
