(* ===== verification/Legacy.thy ===== *)
theory Legacy
  imports StateFiles UnixSecurity Auth
begin

text \<open>
  The one-time clean-up of what older versions of the service left in an owner's application data: files, links
  and directories of root's below a directory of the owner's (\<open>src/core/legacy_cleanup.rs\<close>).

  The tree is walked by handles: an entry is looked at without following links, and a directory is opened
  relative to its parent, so no path of the owner's choosing is resolved. The listing of a directory has its
  entries without the two dots.
\<close>

definition cleanup_error :: "string \<Rightarrow> service_error" where
  "cleanup_error m = service_error_new LegacyCleanupFailed m"

section \<open>The walk\<close>

text \<open>
  An operation of the walk takes the failures of the calls and the number of the next one, and returns its result,
  what is left of what it worked on, and the number of the next call.
\<close>

type_synonym faults = "nat \<Rightarrow> io_kind option"

definition kept_entry :: "string \<Rightarrow> tree option \<Rightarrow> (string \<times> tree) list" where
  "kept_entry name left = (case left of None \<Rightarrow> [] | Some t \<Rightarrow> [(name, t)])"

text \<open>The walk of a directory is one larger than that of its entries, a tree one larger than that of its directory.\<close>

abbreviation entries_size :: "(string \<times> tree) list \<Rightarrow> nat" where
  "entries_size \<equiv> size_list (size_prod (\<lambda>_. 0) size)"

function (sequential)
  cleanup_directory_fd :: "faults \<Rightarrow> u64 \<Rightarrow> (string \<times> tree) list \<Rightarrow> nat \<Rightarrow> (service_error + unit) \<times> (string \<times> tree) list \<times> nat"
  and cleanup_entries :: "faults \<Rightarrow> u64 \<Rightarrow> (string \<times> tree) list \<Rightarrow> nat \<Rightarrow> (service_error + unit) \<times> (string \<times> tree) list \<times> nat"
  and cleanup_entry_at :: "faults \<Rightarrow> u64 \<Rightarrow> tree \<Rightarrow> nat \<Rightarrow> (service_error + unit) \<times> tree option \<times> nat" where
  "cleanup_directory_fd F root_device entries n =
     (case F n of
        Some k \<Rightarrow> (Inl (cleanup_error (''failed to duplicate cleanup directory handle: '' @ io_text k)), entries, n + 1)
      | None \<Rightarrow>
          (case F (n + 1) of
             Some k \<Rightarrow> (Inl (cleanup_error (''failed to enumerate cleanup directory: '' @ io_text k)), entries, n + 2)
           | None \<Rightarrow>
               (case F (n + 2) of
                  Some k \<Rightarrow> (Inl (cleanup_error (''failed while enumerating cleanup directory: '' @ io_text k)), entries, n + 3)
                | None \<Rightarrow> cleanup_entries F root_device entries (n + 3))))"
| "cleanup_entries F root_device [] n = (Inr (), [], n)"
| "cleanup_entries F root_device ((name, t) # entries) n =
     (case cleanup_entry_at F root_device t n of (r, left, m) \<Rightarrow>
        (case r of
           Inl e \<Rightarrow> (Inl e, kept_entry name left @ entries, m)
         | Inr _ \<Rightarrow>
             (case cleanup_entries F root_device entries m of (r', rest, m') \<Rightarrow> (r', kept_entry name left @ rest, m'))))"
| "cleanup_entry_at F root_device (Tree k uid dev entries) n =
     (let t = Tree k uid dev entries in
      case F n of
        Some e \<Rightarrow>
          if e = NotFound then (Inr (), Some t, n + 1)
          else (Inl (cleanup_error (''failed to inspect legacy entry: '' @ io_text e)), Some t, n + 1)
      | None \<Rightarrow>
          if dev \<noteq> root_device then (Inr (), Some t, n + 1)
          else if uid = 0 \<and> (k = RegularFile \<or> k = Symlink) then
            (case F (n + 1) of
               Some e \<Rightarrow> (Inl (cleanup_error (''failed to unlink root-owned legacy entry: '' @ io_text e)), Some t, n + 2)
             | None \<Rightarrow> (Inr (), None, n + 2))
          else if k = Directory then
            (case F (n + 1) of
               Some e \<Rightarrow> (Inl (cleanup_error (''failed to open root-owned legacy directory: '' @ io_text e)), Some t, n + 2)
             | None \<Rightarrow>
                 (case cleanup_directory_fd F root_device entries (n + 2) of (r, left, m) \<Rightarrow>
                    (case r of
                       Inl e \<Rightarrow> (Inl e, Some (Tree k uid dev left), m)
                     | Inr _ \<Rightarrow>
                         if uid = 0 then
                           (case F m of
                              Some e \<Rightarrow> (Inl (cleanup_error (''failed to remove root-owned legacy directory: '' @ io_text e)),
                                Some (Tree k uid dev left), m + 1)
                            | None \<Rightarrow> (Inr (), if left = [] then None else Some (Tree k uid dev left), m + 1))
                         else (Inr (), Some (Tree k uid dev left), m))))
          else (Inr (), Some t, n + 1))"
  by pat_completeness auto

termination
  by (relation "measure (case_sum (\<lambda>(F, d, entries, n). 2 * entries_size entries + 1)
        (case_sum (\<lambda>(F, d, entries, n). 2 * entries_size entries) (\<lambda>(F, d, t, n). 2 * size t)))")
    auto


section \<open>What the walk may and must remove\<close>

text \<open>
  What belongs to the owner: every entry that is not root's, every special file, and whatever lies on another device,
  each with its place in the tree.
\<close>

function (sequential)
  belongings :: "u64 \<Rightarrow> path \<Rightarrow> tree \<Rightarrow> (path \<times> tree) list"
  and belongings_below :: "u64 \<Rightarrow> path \<Rightarrow> (string \<times> tree) list \<Rightarrow> (path \<times> tree) list" where
  "belongings device p (Tree k uid dev entries) =
     (if dev \<noteq> device then [(p, Tree k uid dev entries)]
      else if uid = 0 \<and> (k = RegularFile \<or> k = Symlink) then []
      else if k = Directory then
        (if uid = 0 then [] else [(p, Tree k uid dev [])]) @ belongings_below device p entries
      else [(p, Tree k uid dev entries)])"
| "belongings_below device p [] = []"
| "belongings_below device p ((name, t) # entries) = belongings device (p @ [name]) t @ belongings_below device p entries"
  by pat_completeness auto

termination
  by (relation "measure (case_sum (\<lambda>(d, p, t). 2 * size t) (\<lambda>(d, p, entries). 2 * entries_size entries + 1))") auto

text \<open>A clean tree has no file or link of root's, and no empty directory of root's.\<close>

function (sequential)
  cleaned :: "u64 \<Rightarrow> tree \<Rightarrow> bool" and all_cleaned :: "u64 \<Rightarrow> (string \<times> tree) list \<Rightarrow> bool" where
  "cleaned device (Tree k uid dev entries) \<longleftrightarrow>
     dev \<noteq> device \<or> \<not> (uid = 0 \<and> (k = RegularFile \<or> k = Symlink)) \<and>
       (k = Directory \<longrightarrow> \<not> (uid = 0 \<and> entries = []) \<and> all_cleaned device entries)"
| "all_cleaned device [] \<longleftrightarrow> True"
| "all_cleaned device ((name, t) # entries) \<longleftrightarrow> cleaned device t \<and> all_cleaned device entries"
  by pat_completeness auto

termination
  by (relation "measure (case_sum (\<lambda>(d, t). 2 * size t) (\<lambda>(d, entries). 2 * entries_size entries + 1))") auto

lemma below_append [simp]: "belongings_below d p (xs @ ys) = belongings_below d p xs @ belongings_below d p ys"
  by (induction xs) (auto split: prod.split)

lemma all_cleaned_append [simp]: "all_cleaned d (xs @ ys) \<longleftrightarrow> all_cleaned d xs \<and> all_cleaned d ys"
  by (induction xs) auto

lemma below_kept [simp]:
  "belongings_below d p (kept_entry name left) = (case left of None \<Rightarrow> [] | Some t \<Rightarrow> belongings d (p @ [name]) t)"
  by (simp add: kept_entry_def split: option.split)

lemma cleaned_kept [simp]: "all_cleaned d (kept_entry name left) \<longleftrightarrow> (case left of None \<Rightarrow> True | Some t \<Rightarrow> cleaned d t)"
  by (simp add: kept_entry_def split: option.split)

lemma walk_spares:
  "cleanup_directory_fd F d entries n = (r, left, m) \<Longrightarrow> belongings_below d p left = belongings_below d p entries"
  "cleanup_entries F d entries n = (r, left, m) \<Longrightarrow> belongings_below d p left = belongings_below d p entries"
  "cleanup_entry_at F d t n = (r, left', m) \<Longrightarrow>
     (case left' of None \<Rightarrow> [] | Some t' \<Rightarrow> belongings d p t') = belongings d p t"
proof (induction F d entries n and F d entries n and F d t n arbitrary: r left m p and r left m p and r left' m p
    rule: cleanup_directory_fd_cleanup_entries_cleanup_entry_at.induct)
  case (3 F d name t entries n)
  then show ?case
    by (fastforce split: prod.splits sum.splits)
next
  case (4 F d k uid dev entries n)
  from "4.prems" "4.IH" show ?case
    by (auto simp: Let_def split: option.splits if_splits prod.splits sum.splits) 
qed (auto split: option.splits)

lemma walk_cleans:
  "(\<And>k. F k \<noteq> Some NotFound) \<Longrightarrow> cleanup_directory_fd F d entries n = (Inr (), left, m) \<Longrightarrow> all_cleaned d left"
  "(\<And>k. F k \<noteq> Some NotFound) \<Longrightarrow> cleanup_entries F d entries n = (Inr (), left, m) \<Longrightarrow> all_cleaned d left"
  "(\<And>k. F k \<noteq> Some NotFound) \<Longrightarrow> cleanup_entry_at F d t n = (Inr (), Some t', m) \<Longrightarrow> cleaned d t'"
proof (induction F d entries n and F d entries n and F d t n arbitrary: left m and left m and t' m
    rule: cleanup_directory_fd_cleanup_entries_cleanup_entry_at.induct)
  case (3 F d name t entries n)
  from "3.prems" "3.IH" show ?case
    by (fastforce split: prod.splits sum.splits option.splits)
next
  case (4 F d k uid dev entries n)
  from "4.prems" "4.IH" show ?case
    by (auto simp: Let_def split: option.splits if_splits prod.splits sum.splits)
qed (auto split: option.splits)

section \<open>The clean-up of an owner\<close>

definition open_tree :: "path \<Rightarrow> unit io" where
  "open_tree root = syscall (\<lambda>w.
     (case owner_trees w root of
        None \<Rightarrow> (Inl NotFound, w)
      | Some t \<Rightarrow> if tr_kind t = Directory then (Inr (), w) else (Inl OtherIo, w)))"

definition stat_tree :: "path \<Rightarrow> u64 io" where
  "stat_tree root = syscall (\<lambda>w.
     (case owner_trees w root of None \<Rightarrow> (Inl NotFound, w) | Some t \<Rightarrow> (Inr (tr_dev t), w)))"

definition cleanup_tree :: "path \<Rightarrow> u64 \<Rightarrow> (world, service_error, unit) op" where
  "cleanup_tree root device w =
     (case owner_trees w root of
        None \<Rightarrow> (Inr (), w)
      | Some (Tree k uid dev entries) \<Rightarrow>
          (case cleanup_directory_fd (fault w) device entries (tick w) of (r, left, n) \<Rightarrow>
             (r, w\<lparr>owner_trees := (owner_trees w)(root \<mapsto> Tree k uid dev left), tick := n\<rparr>)))"

definition cleanup_root_owned_entries :: "path \<Rightarrow> (world, service_error, unit) op" where
  "cleanup_root_owned_entries root =
     (if CHR 0x00 \<in> set (concat root) then failE (cleanup_error ''application data root contains NUL'')
      else
        bindE (mapErrE (\<lambda>k. cleanup_error (''failed to open application data root: '' @ io_text k)) (open_tree root)) (\<lambda>_.
        bindE (mapErrE (\<lambda>k. cleanup_error (''failed to inspect application data root: '' @ io_text k)) (stat_tree root))
          (cleanup_tree root)))"

text \<open>A marker in the owner's state directory says that the clean-up was done.\<close>

definition cleanup_legacy_owner_files :: "params \<Rightarrow> authenticated_owner \<Rightarrow> (world, service_error, unit) op" where
  "cleanup_legacy_owner_files E owner =
     (let marker = for_owner (sha256 E) (paths_of E) (au_identity owner) @ [''legacy-cleanup-v1''] in
      bindE (mapErrE (\<lambda>e. cleanup_error (''failed to secure cleanup marker root: '' @ show_err e))
               (ensure_owner_state_directory E (au_identity owner))) (\<lambda>_.
      bindE (get (\<lambda>w. is_file (fs w) marker)) (\<lambda>marked.
        if marked then okE ()
        else
          bindE (case au_identity owner of
                   WindowsOwner sid \<Rightarrow> failE (cleanup_error ''Unix cleanup received a non-Unix owner'')
                 | UnixOwner uid gid \<Rightarrow>
                     if uid = 0 then okE () else cleanup_root_owned_entries (au_app_data_root owner)) (\<lambda>_.
          mapErrE (\<lambda>k. cleanup_error (''failed to persist cleanup marker: '' @ io_text k))
            (bindE (fs_create marker) (\<lambda>_. fs_write_all marker (Bytes (''ok'' @ [CHR 0x0A]))))))))"

lemma keeps_cleanup:
  assumes "\<And>w n. f (w\<lparr>tick := n\<rparr>) = f w" and "\<And>w T. f (w\<lparr>owner_trees := T\<rparr>) = f w"
  shows "keeps f (cleanup_root_owned_entries root)"
proof -
  have sys: "keeps f (syscall m)" if "\<And>w r v. m w = (r, v) \<Longrightarrow> v = w" for m :: "'z io"
    unfolding keeps_def syscall_def Let_def
    by (auto simp: assms(1) split: option.splits) (metis assms(1) prod.collapse that)
  have "keeps f (open_tree root)" "keeps f (stat_tree root)"
    unfolding open_tree_def stat_tree_def by (rule sys; simp split: option.splits if_splits)+
  moreover have "keeps f (cleanup_tree root d)" for d
    using assms unfolding keeps_def cleanup_tree_def
    by (auto split: option.splits tree.splits prod.splits)
  ultimately show ?thesis
    unfolding cleanup_root_owned_entries_def by (intro frame)
qed

lemma cleanup_root_run:
  assumes "cleanup_root_owned_entries root w = (r, v)" and "owner_trees w root = Some (Tree k uid dev entries)"
  shows "owner_trees v = owner_trees w \<and> r \<noteq> Inr () \<or>
    (\<exists>n m left. k = Directory \<and> cleanup_directory_fd (fault w) dev entries n = (r, left, m) \<and>
       owner_trees v = (owner_trees w)(root \<mapsto> Tree k uid dev left))"
proof -
  from assms(2) have run: "\<exists>n m left. cleanup_directory_fd (fault w') dev entries n = (r', left, m) \<and>
      owner_trees v' = (owner_trees w)(root \<mapsto> Tree k uid dev left)"
    if "cleanup_tree root dev w' = (r', v')" "owner_trees w' = owner_trees w" for w' r' v'
    using that by (auto simp: cleanup_tree_def simp del: cleanup_directory_fd.simps split: prod.splits) blast
  show ?thesis
    using assms
    by (auto simp: cleanup_root_owned_entries_def open_tree_def stat_tree_def syscall_def bindE_def
        mapErrE_def failE_def Let_def simp del: cleanup_directory_fd.simps dest!: run split: if_splits option.splits prod.splits) blast+
qed

text \<open>
  C27. The legacy clean-up removes what is root's, and nothing else. Whether it succeeds or fails half way, every
  entry of the owner's, every special file and everything on another device is where it was, every other owner's
  data and all files of the service are untouched, and the directory itself stays; and when it succeeds and no
  entry vanished while it ran, no file, no link and no empty directory of root's is left on the device.
\<close>

theorem legacy_cleanup_spares_owner:
  assumes "cleanup_root_owned_entries root w = (r, v)" and "owner_trees w root = Some (Tree k uid dev entries)"
  shows "\<exists>left. owner_trees v = (owner_trees w)(root \<mapsto> Tree k uid dev left) \<and> fs v = fs w \<and>
    belongings_below dev root left = belongings_below dev root entries \<and>
    (r = Inr () \<and> (\<forall>i. fault w i \<noteq> Some NotFound) \<longrightarrow> all_cleaned dev left)"
proof -
  have "keeps fs (cleanup_root_owned_entries root)" by (rule keeps_cleanup) simp_all
  from keepsD [OF this assms(1)] have fs: "fs v = fs w" .
  from cleanup_root_run [OF assms] show ?thesis
  proof
    assume "owner_trees v = owner_trees w \<and> r \<noteq> Inr ()"
    with assms(2) fs show ?thesis by (intro exI [of _ entries]) auto
  next
    assume "\<exists>n m left. k = Directory \<and> cleanup_directory_fd (fault w) dev entries n = (r, left, m) \<and>
       owner_trees v = (owner_trees w)(root \<mapsto> Tree k uid dev left)"
    then obtain n m left where "cleanup_directory_fd (fault w) dev entries n = (r, left, m)"
      and "owner_trees v = (owner_trees w)(root \<mapsto> Tree k uid dev left)" by blast
    with fs walk_spares(1) walk_cleans(1) show ?thesis by blast
  qed
qed

definition legacy_world :: world where
  "legacy_world = (calm_world Map.empty)\<lparr>owner_trees := [[''d''] \<mapsto> Tree Directory 501 1
     [(''old.log'', Tree RegularFile 0 1 []), (''mine'', Tree RegularFile 501 1 []), (''logs'', Tree Directory 0 1 [])]]\<rparr>"

theorem legacy_cleanup_spares_owner_witness:
  "case cleanup_root_owned_entries [''d''] legacy_world of (r, v) \<Rightarrow>
     r = Inr () \<and> owner_trees v [''d''] = Some (Tree Directory 501 1 [(''mine'', Tree RegularFile 501 1 [])]) \<and>
     fs v = fs legacy_world"
proof -
  obtain r v where run: "cleanup_root_owned_entries [''d''] legacy_world = (r, v)"
    by (cases "cleanup_root_owned_entries [''d''] legacy_world")
  have tree: "owner_trees legacy_world [''d''] = Some (Tree Directory 501 1
      [(''old.log'', Tree RegularFile 0 1 []), (''mine'', Tree RegularFile 501 1 []), (''logs'', Tree Directory 0 1 [])])"
    by (simp add: legacy_world_def)
  have end_: "r = Inr ()" "owner_trees v [''d''] = Some (Tree Directory 501 1 [(''mine'', Tree RegularFile 501 1 [])])"
    using run by (auto simp: cleanup_root_owned_entries_def open_tree_def stat_tree_def cleanup_tree_def syscall_def bindE_def
        mapErrE_def legacy_world_def calm_world_def calm_env_def kept_entry_def Let_def)
  from legacy_cleanup_spares_owner [OF run tree] run end_ show ?thesis by auto
qed

end
