(* ===== verification/Server.thy ===== *)
theory Server
  imports Live Transition Legacy
begin

text \<open>
  The request handlers of the service (\<open>create_ipc_router\<close> in \<open>src/core/server.rs\<close>). A handler that
  returns early with a response (\<open>ControlFlow::Break\<close>) is an operation that fails with that response.
  The HTTP server, the transport and the decoding of a body are \<open>kode_bridge\<close>'s: a request arrives as
  its headers, its peer credentials and the result of decoding its body. Requests are served one at a time,
  as under \<open>OWNER_LIFECYCLE_LOCK\<close>.
\<close>

section \<open>Responses\<close>

datatype reply =
    NoData
  | Protocol protocol_info
  | StatusReport service_status_snapshot
  | Started start_clash_result
  | Logs "string list"
  | LogSnapshot string
  | StageOutcome stage_runtime_outcome
  | ProxyOutcome proxy_apply_outcome

datatype http_body = TextBody string | JsonBody u16 string reply

record http_response =
  hr_status :: nat
  hr_body :: http_body

type_synonym 'a flow = "(world, http_response, 'a) op"

definition json_response :: "nat \<Rightarrow> u16 \<Rightarrow> string \<Rightarrow> reply \<Rightarrow> http_response" where
  "json_response status code message data = \<lparr>hr_status = status, hr_body = JsonBody code message data\<rparr>"

definition ok_json :: "reply \<Rightarrow> http_response" where
  "ok_json data = json_response 200 0 ''Success'' data"

definition ok_empty :: "string \<Rightarrow> http_response" where
  "ok_empty message = json_response 200 0 message NoData"

definition service_unavailable :: "string \<Rightarrow> http_response" where
  "service_unavailable message = json_response 503 1 message NoData"

definition bad_request :: "string \<Rightarrow> http_response" where
  "bad_request message = json_response 400 400 message NoData"

definition service_error_response :: "service_error \<Rightarrow> http_response" where
  "service_error_response e =
     json_response
       (case se_code e of UnauthorizedOwner \<Rightarrow> 401 | NotActive \<Rightarrow> 409 | _ \<Rightarrow> 422)
       (error_code_u16 (se_code e)) (se_message e) NoData"

section \<open>Protocol, authentication and gates\<close>

definition require_protocol_version :: "request_context \<Rightarrow> service_error + unit" where
  "require_protocol_version c =
     (case Option.bind (Option.bind (rq_headers c SERVICE_PROTOCOL_HEADER) header_to_str) parse_header of
        None \<Rightarrow> Inl se_protocol_mismatch
      | Some supplied \<Rightarrow>
          ensure (epoch supplied = epoch current_version \<and> MIN_SUPPORTED_CLIENT_REVISION \<le> revision supplied)
            se_protocol_mismatch)"

text \<open>The body is what \<open>ctx.json\<close> returns; \<open>credentials\<close> is the method of \<open>OwnerRequestEnvelope\<close>.\<close>

definition authenticate_request ::
  "params \<Rightarrow> request_context \<Rightarrow> ('q \<Rightarrow> owner_credentials) \<Rightarrow> string + 'q \<Rightarrow> ('q \<times> authenticated_owner) flow" where
  "authenticate_request E c credentials body =
     bindE (liftE (map_err service_error_response (require_protocol_version c))) (\<lambda>_.
     bindE (liftE (map_err (\<lambda>e. bad_request (''Invalid JSON: '' @ e)) body)) (\<lambda>request.
     bindE (mapErrE service_error_response (authenticate_owner E c (credentials request))) (\<lambda>owner.
       okE (request, owner))))"

definition require_active_owner :: "params \<Rightarrow> authenticated_owner \<Rightarrow> (world, service_error, unit) op" where
  "require_active_owner E owner =
     bindE (mapErrE (\<lambda>_. se_not_active) (load_active_owner E)) (\<lambda>active.
       (case active of
          Some a \<Rightarrow> if ao_owner_key a = au_key owner then okE () else failE se_not_active
        | None \<Rightarrow> failE se_not_active))"

definition require_active_session ::
  "params \<Rightarrow> authenticated_owner \<Rightarrow> owner_session_proof \<Rightarrow> (world, service_error, active_owner_state) op" where
  "require_active_session E owner proof_of =
     bindE (mapErrE (\<lambda>_. se_stale_owner_session) (load_active_owner E)) (\<lambda>found.
     bindE (liftE (ok_or se_stale_owner_session found)) (\<lambda>active.
     bindE (liftE (map_err (\<lambda>_. se_stale_owner_session) (hash_session_token (sha256 E) (proof_token proof_of)))) (\<lambda>supplied_hash.
       if ao_owner_key active \<noteq> au_key owner \<or> ao_generation active \<noteq> proof_generation proof_of \<or>
          \<not> constant_time_eq (map byte_of (ao_session_token_hash active)) (map byte_of supplied_hash)
       then failE se_stale_owner_session
       else okE active)))"

datatype owner_lifecycle_gate = Unchecked | ActiveOwner | ActiveSession owner_session_proof

definition enter_owner_lifecycle :: "params \<Rightarrow> authenticated_owner \<Rightarrow> owner_lifecycle_gate \<Rightarrow> unit flow" where
  "enter_owner_lifecycle E owner gate =
     mapErrE service_error_response
       (case gate of
          Unchecked \<Rightarrow> okE ()
        | ActiveOwner \<Rightarrow> require_active_owner E owner
        | ActiveSession session \<Rightarrow> bindE (require_active_session E owner session) (\<lambda>_. okE ()))"

section \<open>The log snapshot\<close>

definition MAX_SNAPSHOT_BYTES :: nat where "MAX_SNAPSHOT_BYTES = 4 * 1024 * 1024"

text \<open>What is read from the file of a given length, and what is sent of it.\<close>

definition snapshot_tail :: "nat \<Rightarrow> string \<Rightarrow> string" where
  "snapshot_tail length_read content =
     (if MAX_SNAPSHOT_BYTES < length_read then drop (length_read - MAX_SNAPSHOT_BYTES) content else content)"

definition snapshot_lines :: "nat \<Rightarrow> string \<Rightarrow> string" where
  "snapshot_lines length_read content =
     (if MAX_SNAPSHOT_BYTES < length_read then
        (case split_once (CHR 0x0A) content of None \<Rightarrow> content | Some (partial, rest) \<Rightarrow> rest)
      else content)"

definition file_text :: "content \<Rightarrow> string" where
  "file_text c = (case c of Bytes s \<Rightarrow> s | JsonText j \<Rightarrow> '''')"

definition open_for_reading :: "path \<Rightarrow> unit io" where
  "open_for_reading p = syscall (\<lambda>w. (case fs w p of None \<Rightarrow> (Inl NotFound, w) | Some n \<Rightarrow> (Inr (), w)))"

definition seek_from_start :: "unit io" where
  "seek_from_start = syscall (\<lambda>w. (Inr (), w))"

definition read_log_snapshot :: "path \<Rightarrow> string io" where
  "read_log_snapshot p =
     bindE (open_for_reading p) (\<lambda>_.
     bindE (fstat p) (\<lambda>metadata.
     let length_read = unat (nd_len metadata) in
     bindE (if MAX_SNAPSHOT_BYTES < length_read then seek_from_start else okE ()) (\<lambda>_.
     bindE (fs_read p) (\<lambda>content.
       okE (hex_bytes (map byte_of (snapshot_lines length_read (snapshot_tail length_read (file_text content)))))))))"

section \<open>The handlers\<close>

text \<open>The response of a flow, whichever way it ended.\<close>

definition respond :: "http_response flow \<Rightarrow> (world, bridge_error, http_response) op" where
  "respond m = tryE m (\<lambda>r. okE (case r of Inl response \<Rightarrow> response | Inr response \<Rightarrow> response))"

definition handle_magic :: "request_context \<Rightarrow> (world, bridge_error, http_response) op" where
  "handle_magic c =
     bindE (liftE (ipc_request_context_to_auth_context c)) (\<lambda>_.
       okE \<lparr>hr_status = 200, hr_body = TextBody ''Tunglies!''\<rparr>)"

definition handle_version :: "params \<Rightarrow> request_context \<Rightarrow> (world, bridge_error, http_response) op" where
  "handle_version E c =
     bindE (liftE (ipc_request_context_to_auth_context c)) (\<lambda>_.
       okE (ok_json (Protocol (current_info (pkg_version E)))))"

definition handle_status :: "params \<Rightarrow> request_context \<Rightarrow> string + unit authenticated_request \<Rightarrow> http_response flow" where
  "handle_status E c body =
     bindE (authenticate_request E c ar_credentials body) (\<lambda>(request, owner).
     bindE (enter_owner_lifecycle E owner Unchecked) (\<lambda>_.
     tryE (collect_service_status E owner) (\<lambda>r.
       okE (case r of
              Inr status \<Rightarrow> ok_json (StatusReport status)
            | Inl e \<Rightarrow> service_unavailable (''Failed to collect service status: '' @ show_outer e)))))"

text \<open>The part of a start that runs under the lock.\<close>

definition run_transition ::
  "params \<Rightarrow> start_transition \<Rightarrow> (world, service_error, active_owner_state \<times> proxy_apply_outcome) op" where
  "run_transition E t = (\<lambda>w. (case start_owner_transition E (t, w) of (r, (t', v)) \<Rightarrow> (r, v)))"

definition start_locked :: "params \<Rightarrow> authenticated_owner \<Rightarrow> start_clash_request \<Rightarrow> http_response flow" where
  "start_locked E owner start_request =
     bindE (mapErrE (\<lambda>e. service_unavailable (''Failed to load active owner: '' @ show_outer e)) (load_active_owner E)) (\<lambda>previous_owner.
     bindE (mapErrE service_error_response (prepare_runtime E owner (sr_runtime start_request))) (\<lambda>prepared_runtime.
     bindE (mapErrE service_error_response (run_transition E
              \<lparr>tr_previous_owner = previous_owner, tr_owner = owner, tr_prepared_runtime = Some prepared_runtime,
               tr_proposed_session_token = sr_proposed_session_token start_request,
               tr_macos_proxy = sr_macos_proxy start_request\<rparr>)) (\<lambda>(active, proxy_outcome).
     tryE (cleanup_legacy_owner_files E owner) (\<lambda>_.
       okE (ok_json (Started \<lparr>res_generation = ao_generation active, res_proxy_outcome = proxy_outcome\<rparr>))))))"

definition handle_start_clash ::
  "params \<Rightarrow> request_context \<Rightarrow> string + start_clash_request authenticated_request \<Rightarrow> http_response flow" where
  "handle_start_clash E c body =
     bindE (authenticate_request E c ar_credentials body) (\<lambda>(request, owner).
     let start_request = ar_payload request in
     bindE (liftE (map_err (\<lambda>_. bad_request ''Invalid proposed owner session token'')
              (hash_session_token (sha256 E) (sr_proposed_session_token start_request)))) (\<lambda>_.
     bindE (case sr_macos_proxy start_request of
              None \<Rightarrow> okE ()
            | Some proxy \<Rightarrow> liftE (map_err (\<lambda>e. service_error_response (se_invalid_proxy_config (show_outer e)))
                (validate_proxy_config E proxy))) (\<lambda>_.
     bindE (enter_owner_lifecycle E owner Unchecked) (\<lambda>_.
       start_locked E owner start_request))))"

definition handle_logs :: "params \<Rightarrow> request_context \<Rightarrow> string + unit authenticated_request \<Rightarrow> http_response flow" where
  "handle_logs E c body =
     bindE (authenticate_request E c ar_credentials body) (\<lambda>(request, owner).
     bindE (enter_owner_lifecycle E owner ActiveOwner) (\<lambda>_.
     bindE (get core_logs) (\<lambda>logs. okE (ok_json (Logs logs)))))"

definition handle_log_snapshot :: "params \<Rightarrow> request_context \<Rightarrow> string + unit authenticated_request \<Rightarrow> http_response flow" where
  "handle_log_snapshot E c body =
     bindE (authenticate_request E c ar_credentials body) (\<lambda>(request, owner).
     bindE (enter_owner_lifecycle E owner ActiveOwner) (\<lambda>_.
     tryE (read_log_snapshot (owner_logs_dir (for_owner (sha256 E) (paths_of E) (au_identity owner)) @ [''service_latest.log''])) (\<lambda>r.
       okE (case r of
              Inr snapshot \<Rightarrow> ok_json (LogSnapshot snapshot)
            | Inl k \<Rightarrow> service_unavailable (''Failed to read core log snapshot: '' @ io_text k)))))"

definition stop_locked :: "params \<Rightarrow> authenticated_owner \<Rightarrow> http_response flow" where
  "stop_locked E owner =
     bindE (mapErrE service_error_response (clear_proxy_with_direct_compensation E)) (\<lambda>_.
     bindE (mapErrE (\<lambda>e. service_unavailable (''Failed to stop core: '' @ show_outer e)) (stop_core E)) (\<lambda>_.
     tryE (persist_owner_core_stopped E owner) (\<lambda>persisted.
       (case persisted of
          Inl e \<Rightarrow>
            bindE (modify (set_core_lifecycle_state Fatal)) (\<lambda>_.
              failE (service_unavailable (''Failed to persist desired state: '' @ show_outer e)))
        | Inr _ \<Rightarrow>
            tryE (clear_active_owner E) (\<lambda>cleared.
              (case cleared of
                 Inl e \<Rightarrow>
                   bindE (modify (set_core_lifecycle_state Fatal)) (\<lambda>_.
                     failE (service_unavailable (''Failed to clear active owner: '' @ show_outer e)))
               | Inr _ \<Rightarrow> okE (ok_empty ''Core stopped successfully'')))))))"

definition handle_stop_clash ::
  "params \<Rightarrow> request_context \<Rightarrow> string + unit authenticated_session_request \<Rightarrow> http_response flow" where
  "handle_stop_clash E c body =
     bindE (authenticate_request E c as_credentials body) (\<lambda>(request, owner).
     bindE (enter_owner_lifecycle E owner (ActiveSession (as_session request))) (\<lambda>_.
       stop_locked E owner))"

definition handle_stage_runtime ::
  "params \<Rightarrow> request_context \<Rightarrow> string + runtime_bundle authenticated_session_request \<Rightarrow> http_response flow" where
  "handle_stage_runtime E c body =
     bindE (authenticate_request E c as_credentials body) (\<lambda>(request, owner).
     bindE (enter_owner_lifecycle E owner (ActiveSession (as_session request))) (\<lambda>_.
     bindE (mapErrE service_error_response (stage_runtime E owner (as_payload request))) (\<lambda>outcome.
       okE (ok_json (StageOutcome outcome)))))"

definition update_writer_locked :: "params \<Rightarrow> authenticated_owner \<Rightarrow> writer_config \<Rightarrow> http_response flow" where
  "update_writer_locked E owner payload =
     (let writer = payload\<lparr>wc_directory :=
            path_text (owner_logs_dir (for_owner (sha256 E) (paths_of E) (au_identity owner)))\<rparr> in
      bindE (mapErrE (\<lambda>e. service_unavailable (''Failed to update writer: '' @ show_outer e)) (set_or_update_writer writer)) (\<lambda>_.
      bindE (mapErrE (\<lambda>e. service_unavailable (''Failed to persist writer config: '' @ show_outer e))
               (persist_owner_writer_config E owner writer)) (\<lambda>_.
        okE (ok_empty ''Update Writer successfully''))))"

definition handle_update_writer ::
  "params \<Rightarrow> request_context \<Rightarrow> string + writer_config authenticated_session_request \<Rightarrow> http_response flow" where
  "handle_update_writer E c body =
     bindE (authenticate_request E c as_credentials body) (\<lambda>(request, owner).
     bindE (enter_owner_lifecycle E owner (ActiveSession (as_session request))) (\<lambda>_.
       update_writer_locked E owner (as_payload request)))"

definition handle_set_proxy ::
  "params \<Rightarrow> request_context \<Rightarrow> string + macos_proxy_config authenticated_session_request \<Rightarrow> http_response flow" where
  "handle_set_proxy E c body =
     bindE (authenticate_request E c as_credentials body) (\<lambda>(request, owner).
     bindE (enter_owner_lifecycle E owner (ActiveSession (as_session request))) (\<lambda>_.
     bindE (liftE (map_err (\<lambda>e. service_error_response (se_invalid_proxy_config (show_outer e)))
              (validate_proxy_config E (as_payload request)))) (\<lambda>_.
     bindE (mapErrE (\<lambda>e. service_error_response (se_proxy_apply_failed (show_outer e)))
              (apply_service_proxy_or_direct E (Some (as_payload request)))) (\<lambda>outcome.
       okE (ok_json (ProxyOutcome outcome))))))"

text \<open>The router: a request is its route with the result of decoding its body.\<close>

datatype ipc_request =
    MagicRequest
  | VersionRequest
  | StatusRequest "string + unit authenticated_request"
  | StartClashRequest "string + start_clash_request authenticated_request"
  | GetLogsRequest "string + unit authenticated_request"
  | LogSnapshotRequest "string + unit authenticated_request"
  | StopClashRequest "string + unit authenticated_session_request"
  | StageRuntimeRequest "string + runtime_bundle authenticated_session_request"
  | UpdateWriterRequest "string + writer_config authenticated_session_request"
  | SetProxyRequest "string + macos_proxy_config authenticated_session_request"

fun serve :: "params \<Rightarrow> request_context \<Rightarrow> ipc_request \<Rightarrow> (world, bridge_error, http_response) op" where
  "serve E c MagicRequest = handle_magic c"
| "serve E c VersionRequest = handle_version E c"
| "serve E c (StatusRequest body) = respond (handle_status E c body)"
| "serve E c (StartClashRequest body) = respond (handle_start_clash E c body)"
| "serve E c (GetLogsRequest body) = respond (handle_logs E c body)"
| "serve E c (LogSnapshotRequest body) = respond (handle_log_snapshot E c body)"
| "serve E c (StopClashRequest body) = respond (handle_stop_clash E c body)"
| "serve E c (StageRuntimeRequest body) = respond (handle_stage_runtime E c body)"
| "serve E c (UpdateWriterRequest body) = respond (handle_update_writer E c body)"
| "serve E c (SetProxyRequest body) = respond (handle_set_proxy E c body)"

end
