(* ===== verification/Neutral.thy ===== *)
theory Neutral
  imports Server
begin

text \<open>
  Which operations leave the session alone. A session is the active owner's record and the generation
  counter; \<open>neutral\<close> operations change neither, and keep every configuration of the manager in its
  place. The rules go through the combinators, with a fact about the value of each operation.
\<close>

section \<open>Operations that leave the session alone\<close>

definition still ::
  "params \<Rightarrow> (file_kind \<times> content) option \<Rightarrow> (file_kind \<times> content) option \<Rightarrow> environment \<Rightarrow> world \<Rightarrow> bool" where
  "still E a g e w \<longleftrightarrow>
     file_data (active_owner_path (paths_of E)) w = a \<and> file_data (owner_generation_path (paths_of E)) w = g \<and>
     env w = e \<and> sockets_ok E w"

definition neutral :: "params \<Rightarrow> (world, 'e, 'a) op \<Rightarrow> ('a \<Rightarrow> bool) \<Rightarrow> bool" where
  "neutral E m Q \<longleftrightarrow> (\<forall>a g e. triple (still E a g e) m (\<lambda>x w. still E a g e w \<and> Q x) (\<lambda>_. still E a g e))"

named_theorems neutral_rules \<open>operations that leave the session alone\<close>

lemma neutralI:
  "(\<And>a g e. triple (still E a g e) m (\<lambda>x w. still E a g e w \<and> Q x) (\<lambda>_. still E a g e)) \<Longrightarrow> neutral E m Q"
  by (simp add: neutral_def)

lemma neutral_weaken: "neutral E m P \<Longrightarrow> (\<And>x. P x \<Longrightarrow> Q x) \<Longrightarrow> neutral E m Q"
  unfolding neutral_def triple_def by blast

lemma neutral_okE [neutral_rules]: "Q x \<Longrightarrow> neutral E (okE x) Q"
  by (intro neutralI triple_okE) simp

lemma neutral_failE [neutral_rules]: "neutral E (failE x) Q"
  by (intro neutralI triple_failE)

lemma neutral_liftE: "(\<And>x. r = Inr x \<Longrightarrow> Q x) \<Longrightarrow> neutral E (liftE r) Q"
  by (auto simp: neutral_def triple_def liftE_def)

lemma neutral_triple: "neutral E m Q \<Longrightarrow> triple (still E a g e) m (\<lambda>x w. still E a g e w \<and> Q x) (\<lambda>_. still E a g e)"
  by (simp add: neutral_def)

lemma neutral_bindE:
  assumes "neutral E m Q" and "\<And>x. Q x \<Longrightarrow> neutral E (k x) S"
  shows "neutral E (bindE m k) S"
  using assms(2)
  by (intro neutralI triple_bindE [OF neutral_triple [OF assms(1)]] triple_known) (rule neutral_triple)

lemma neutral_tryE:
  assumes "neutral E m Q" and "\<And>x. Q x \<Longrightarrow> neutral E (k (Inr x)) S" and "\<And>e. neutral E (k (Inl e)) S"
  shows "neutral E (tryE m k) S"
  using assms(2)
  by (intro neutralI triple_tryE [OF neutral_triple [OF assms(1)]] triple_known neutral_triple [OF assms(3)])
    (rule neutral_triple)

lemma neutral_match:
  assumes "neutral E m Q" and "\<And>x. Q x \<Longrightarrow> neutral E (k x) S" and "\<And>e. neutral E (h e) S"
  shows "neutral E (tryE m (\<lambda>r. case r of Inl e \<Rightarrow> h e | Inr x \<Rightarrow> k x)) S"
  by (rule neutral_tryE [OF assms(1)]) (simp_all add: assms(2,3))

lemma neutral_case_option:
  "neutral E m Q \<Longrightarrow> (\<And>x. neutral E (k x) Q) \<Longrightarrow> neutral E (case v of None \<Rightarrow> m | Some x \<Rightarrow> k x) Q"
  by (cases v) auto

lemma neutral_mapErrE [neutral_rules]: "neutral E m Q \<Longrightarrow> neutral E (mapErrE f m) Q"
  by (rule neutralI, rule triple_mapErrE) (erule neutral_triple)

lemma neutral_get: "neutral E (get f) (\<lambda>_. True)"
  by (simp add: neutral_def triple_def get_def)

lemma neutral_if: "neutral E m Q \<Longrightarrow> neutral E n Q \<Longrightarrow> neutral E (if b then m else n) Q"
  by simp

lemma neutral_each: "(\<And>x. x \<in> set xs \<Longrightarrow> neutral E (f x) (\<lambda>_. True)) \<Longrightarrow> neutral E (eachE f xs) (\<lambda>_. True)"
  by (induction xs) (auto intro: neutral_okE neutral_bindE)

text \<open>The frame facts of the operations that write files elsewhere, and of the manager.\<close>

lemma neutral_keeps:
  assumes "keeps (file_data (active_owner_path (paths_of E))) m" "keeps (file_data (owner_generation_path (paths_of E))) m"
    and "keeps env m" "keeps crew m"
  shows "neutral E m (\<lambda>_. True)"
proof (rule neutralI)
  fix a g e
  have "still E a g e v" if "still E a g e w" "m w = (r, v)" for w r v
    using that sockets_crew [OF keepsD [OF assms(4)]] assms(1-3) unfolding still_def by (metis keepsD)
  then show "triple (still E a g e) m (\<lambda>x w. still E a g e w \<and> True) (\<lambda>_. still E a g e)"
    unfolding triple_def by blast
qed

lemma session_files_are_state:
  assumes "is_unix (os (bd E))"
  shows "state_file E (active_owner_path (paths_of E))" "state_file E (owner_generation_path (paths_of E))"
  using assms by (auto simp: state_file_def active_owner_path_def owner_generation_path_def paths_of_def
      service_paths_of_def Let_def)

lemma neutral_quiet:
  assumes "\<And>q d. state_file E q \<Longrightarrow> triple (quiet E q d) m (\<lambda>_. quiet E q d) (\<lambda>_. quiet E q d)"
    and "keeps env m" and unix: "is_unix (os (bd E))"
  shows "neutral E m (\<lambda>_. True)"
proof (rule neutralI)
  fix a g e
  note act = assms(1) [OF session_files_are_state(1) [OF unix], of a]
  note gen = assms(1) [OF session_files_are_state(2) [OF unix], of g]
  have "still E a g e v" if "still E a g e w" "m w = (r, v)" for w r v
  proof -
    have "quiet E (active_owner_path (paths_of E)) a w" "quiet E (owner_generation_path (paths_of E)) g w" "env w = e"
      using that(1) by (simp_all add: still_def quiet_def)
    with act gen keepsD [OF assms(2) that(2)] that(2) show ?thesis
      unfolding triple_def still_def quiet_def by (cases r) blast+
  qed
  then show "triple (still E a g e) m (\<lambda>x w. still E a g e w \<and> True) (\<lambda>_. still E a g e)"
    unfolding triple_def by blast
qed

section \<open>The manager\<close>

lemma env_step [frame]: "keeps env (watchdog_step E shutdown wd)"
  unfolding keeps_def
proof
  fix w
  have "env v = env w" if "watchdog_step E shutdown wd w = (r, v)" for r v
    using step_round [where e = "env w" and shutdown = shutdown and wd = wd and E = E] that
    unfolding triple_def round_of_def by (cases r) blast+
  then show "env (snd (watchdog_step E shutdown wd w)) = env w" by (metis prod.collapse)
qed

lemma env_rounds [frame]: "keeps env (run_watchdog E shutdown n wd)"
  by (induction n arbitrary: wd) (auto intro!: frame)

lemma env_manager [frame]:
  "keeps env (stop_core E)" "keeps env (start_core E config owner)" "keeps env (watchdog_turn E)"
proof -
  have join: "keeps env (join_watchdog E task)" for task
    unfolding join_watchdog_def by (intro frame)
  have logs: "keeps env clear_logs" by (simp add: keeps_def clear_logs_def modify_def)
  have after: "keeps env (after_stop p)" for p
    unfolding after_stop_def by (intro frame blind logs) simp_all
  have forget: "keeps env (forget_core E)"
    unfolding forget_core_def by (intro frame after)
  have retry: "keeps env retry_failed_child"
    unfolding retry_failed_child_def by (intro frame)
  show stop: "keeps env (stop_core E)"
    unfolding stop_core_def stop_watchdog_def by (intro frame join logs retry forget)
  have watch: "keeps env (start_watchdog child config owner)" for child
    by (simp add: keeps_def start_watchdog_def modify_def)
  show "keeps env (start_core E config owner)"
    unfolding start_core_def launch_core_def start_unsecured_def start_unrecorded_def start_recorded_def
      ensure_startup_reconciled_def
    by (intro frame stop watch)
  show "keeps env (watchdog_turn E)"
    unfolding watchdog_turn_def by (intro frame)
qed

lemma neutral_manager [neutral_rules]:
  assumes "is_unix (os (bd E))"
  shows "neutral E (stop_core E) (\<lambda>_. True)" "neutral E (watchdog_turn E) (\<lambda>_. True)"
    "core_socket E config \<Longrightarrow> neutral E (start_core E config owner) (\<lambda>_. True)"
  using assms by (auto intro!: neutral_quiet quiet_stop quiet_turn quiet_start env_manager)

section \<open>Runtime generations\<close>

text \<open>A file that is neither below a directory nor one of its ancestors is not touched by staging there.\<close>

definition outside :: "path \<Rightarrow> path \<Rightarrow> bool" where
  "outside g q \<longleftrightarrow> \<not> prefix g q \<and> (\<forall>x. \<not> prefix q (g @ x))"

lemma outside_ne: "outside g q \<Longrightarrow> q \<noteq> g @ x"
  by (auto simp: outside_def)

lemma outside_sibling: "outside g q \<Longrightarrow> rest \<noteq> [] \<Longrightarrow> q \<noteq> butlast (g @ rest) @ x"
  by (auto simp: outside_def butlast_append)

lemma outside_dirs: "outside g q \<Longrightarrow> \<not> path_starts_with q (g @ x)"
  by (simp add: outside_def path_starts_with_def)

lemma path_parent_some: "p \<noteq> [] \<Longrightarrow> path_parent p = Some (butlast p)"
  by (cases p) simp_all

lemma staging_temp_outside:
  assumes "outside g q" "rest \<noteq> []" "staging_temp_path (g @ rest) w = (Inr t, v)"
  shows "q \<noteq> t"
proof -
  from assms(3) have "butlast t = butlast (g @ rest)" "t \<noteq> []" using staging_temp_run by blast+
  then have "t = butlast (g @ rest) @ [last t]" by (metis append_butlast_last_id)
  with outside_sibling [OF assms(1,2)] show ?thesis by metis
qed

lemma copy_outside:
  assumes o: "outside g q" and r: "rest \<noteq> []"
  shows "keeps (file_data q) (copy_staged_file E s (g @ rest))"
proof -
  have parent: "keeps (file_data q) (case path_parent (g @ rest) of None \<Rightarrow> okE () | Some parent \<Rightarrow> fs_create_dir_all parent)"
    using r by (auto simp: path_parent_some butlast_append intro!: files outside_dirs [OF o])
  show ?thesis
    unfolding copy_staged_file_def fs_copy_def
    by (rule keeps_bindE [OF parent], rule keeps_bindE_val [where Q = "\<lambda>t. q \<noteq> t", OF keeps_staging_temp])
      (auto dest: staging_temp_outside [OF o r] intro!: frame files outside_ne [OF o])
qed

lemma write_outside:
  assumes o: "outside g q" and r: "rest \<noteq> []"
  shows "keeps (file_data q) (write_atomically E (g @ rest) c)"
  unfolding write_atomically_def write_temp_def
  by (rule keeps_bindE_val [where Q = "\<lambda>t. q \<noteq> t", OF keeps_staging_temp])
    (auto dest: staging_temp_outside [OF o r] intro!: frame files outside_ne [OF o])

lemma commit_outside:
  assumes o: "outside g q"
  shows "keeps (file_data q) (commit_staged_config E g (g @ [RUNTIME_CONFIG_FILE_NAME]) yaml m)"
  unfolding commit_staged_config_def by (intro frame write_outside [OF o]) simp_all

lemma resolved_outside:
  assumes "outside g q" "resolve_in_generation g d = Inr p"
  obtains rest where "p = g @ rest" "rest \<noteq> []" "q \<noteq> p"
  using resolve_Inr [OF assms(2)] outside_ne [OF assms(1)] by blast

lemma each_outside:
  assumes "\<And>x. keeps f (g x)"
  shows "keeps f (eachE g xs)"
  by (rule keeps_eachE) (rule assms)

lemma discard_outside:
  assumes o: "outside g q"
  shows "keeps (file_data q) (discard_stale_caches E g ds)" "keeps (file_data q) (sweep_obsolete E g ds)"
    "keeps (file_data q) (discard_live_caches E g ds)"
proof -
  have remove: "keeps (file_data q) (remove_staged_file E p)" if "resolve_in_generation g d = Inr p" for d p
    using resolved_outside [OF o that] by (auto intro: files)
  have target: "keeps (file_data q) (bindE (liftE (resolve_in_generation g d)) k)"
    if "\<And>p. resolve_in_generation g d = Inr p \<Longrightarrow> keeps (file_data q) (k p)" for d and k :: "path \<Rightarrow> (world, service_error, 'a) op"
    using that by (intro keeps_bindE_val [where Q = "\<lambda>p. resolve_in_generation g d = Inr p"]) (auto intro: frame simp: liftE_def)
  show "keeps (file_data q) (discard_stale_caches E g ds)"
    unfolding discard_stale_caches_def by (rule each_outside, rule target) (intro frame remove)
  have sweep: "keeps (file_data q) (case resolve_in_generation g d of
         Inr target \<Rightarrow> tryE (remove_staged_file E target) (\<lambda>_. okE ()) | Inl _ \<Rightarrow> okE ())" for d
    by (cases "resolve_in_generation g d") (auto intro!: frame remove)
  show "keeps (file_data q) (sweep_obsolete E g ds)"
    unfolding sweep_obsolete_def by (rule each_outside) (rule sweep)
  show "keeps (file_data q) (discard_live_caches E g ds)"
  proof (induction ds)
    case (Cons d ds)
    show ?case
      unfolding discard_live_caches.simps
      by (rule keeps_bindE_val [where Q = "\<lambda>p. resolve_in_generation g d = Inr p"])
        (auto intro!: frame remove Cons.IH simp: liftE_def)
  qed (simp add: frame)
qed

lemma assets_outside:
  assumes o: "outside g q"
  shows "keeps (file_data q) (write_assets E g cs m)" "keeps (file_data q) (refresh_live_assets E g cs)"
proof -
  have copy: "keeps (file_data q) (copy_staged_file E s p)" if "resolve_in_generation g d = Inr p" for d p s
    using resolved_outside [OF o that] copy_outside [OF o] by metis
  have changed: "keeps (file_data q) (source_identity_changed s i)" for s i
    unfolding source_identity_changed_def by (intro frame files)
  show "keeps (file_data q) (write_assets E g cs m)"
  proof (induction cs arbitrary: m)
    case (Cons c cs)
    show ?case
      unfolding write_assets.simps
      by (rule keeps_bindE_val [where Q = "\<lambda>p. resolve_in_generation g (pc_destination c) = Inr p"])
        (auto intro!: keeps_bindE keeps_mapErrE copy changed Cons.IH frame simp: liftE_def)
  qed (simp add: frame)
  show "keeps (file_data q) (refresh_live_assets E g cs)"
  proof (induction cs)
    case (Cons c cs)
    show ?case
      unfolding refresh_live_assets.simps
      by (rule keeps_bindE_val [where Q = "\<lambda>p. resolve_in_generation g (pc_destination c) = Inr p"])
        (auto intro!: keeps_bindE keeps_tryE keeps_case_sum keeps_if copy changed Cons.IH frame simp: liftE_def)
  qed (simp add: frame)
qed

lemma materialize_outside:
  assumes o: "outside g q"
  shows "keeps (file_data q) (materialize_plan E g plan yaml)"
  unfolding materialize_plan_def
  by (intro frame discard_outside [OF o] assets_outside [OF o] commit_outside [OF o] files outside_ne [OF o])

lemma blind_sessions [simp]: "blind_to_staging crew" "blind_to_state_files crew"
  by (simp_all add: blind_to_staging_def blind_to_state_files_def crew_def handle_def)

lemma blind_prepare:
  assumes f: "blind_to_files f"
  shows "keeps f (prepare_runtime E owner bundle)" "keeps f (gather_bundle E owner bundle core_path)"
    "keeps f (validate_core_path E owner c)" "keeps f (cleanup_stale_runtime_directories E ps)"
    "keeps f (ensure_owner_state_directory E i)"
proof -
  note t = blind_tick [OF f]
  have look: "keeps f (lstat p)" for p
    unfolding lstat_def by (rule blind_syscall [OF f]) (simp add: keeps_def split: option.splits)
  have seen: "keeps f (canonical_regular_file s l)" for s l
    unfolding canonical_regular_file_def by (intro frame client_ops_keep t)
  show core: "keeps f (validate_core_path E owner c)" for c
    unfolding validate_core_path_def by (intro frame seen)
  have assets: "keeps f (gather_assets owner root as keys)" for root as keys
    by (induction as arbitrary: keys)
      (auto simp: validate_source_def intro!: frame seen client_ops_keep t)
  show gather: "keeps f (gather_bundle E owner bundle core_path)" for core_path
    unfolding gather_bundle_def by (intro frame assets)
  show layout: "keeps f (ensure_owner_state_directory E i)" for i
    unfolding ensure_owner_state_directory_def Let_def by (intro frame blind f)
  have identity: "keeps f (persist_owner_identity i p)" for i p
    unfolding persist_owner_identity_def by (intro frame blind f)
  have ipc: "keeps f (prepare_owner_ipc_directory E owner)"
    unfolding prepare_owner_ipc_directory_def claim_ipc_directory_def take_ipc_directory_def
    by (intro frame blind f)
  have entries: "keeps f (stale_entries root active names stale)" for root active names stale
    by (induction names arbitrary: stale)
      (auto intro!: frame blind_syscall [OF f] simp: keeps_def [of f "\<lambda>w. (Inr (), w)"])
  have manifest: "keeps f (read_manifest g)" for g
    unfolding read_manifest_def by (intro frame blind f)
  show "keeps f (prepare_runtime E owner bundle)"
    unfolding prepare_runtime_def prepare_in_def set_private_directory_permissions_def ensure_runtime_generation_def
      plan_runtime_refresh_def snapshot_stale_runtime_directories_def Let_def
    by (intro frame core layout identity ipc gather manifest entries blind f)
  have remove: "keeps f (remove_runtime_directory E p i)" for p i
    unfolding keeps_def
  proof
    fix w
    show "f (snd (remove_runtime_directory E p i w)) = f w"
    proof (induction E p i w rule: remove_runtime_directory.induct)
      case (1 E p i w)
      obtain r v where rv: "fs_remove_dir_all p w = (r, v)" by (cases "fs_remove_dir_all p w")
      have "f v = f w" using keepsD [OF blind_remove_dir_all [OF f] rv] .
      with rv 1 show ?case
        by (subst remove_runtime_directory.simps) (auto split: sum.splits option.splits)
    qed
  qed
  show "keeps f (cleanup_stale_runtime_directories E ps)"
    unfolding cleanup_stale_runtime_directories_def inspect_path_def by (intro frame remove look)
qed

text \<open>The value of a preparation: its configuration and its directories are the owner's.\<close>

definition prepared_ok :: "params \<Rightarrow> prepared_runtime \<Rightarrow> bool" where
  "prepared_ok E p \<longleftrightarrow> core_socket E (pr_clash_config p) \<and>
     (\<exists>key. pr_runtime p = persistent_state_dir (bd E) @ [''users'', key, ''runtime''] \<and>
       (\<forall>s \<in> set (pr_stale_runtime_paths p). \<exists>n. s = persistent_state_dir (bd E) @ [''users'', key, n]))"

lemma session_file_cases:
  assumes "q = active_owner_path (paths_of E) \<or> q = owner_generation_path (paths_of E)"
  obtains f where "q = persistent_state_dir (bd E) @ [f]" "f \<noteq> ''users''" "f \<noteq> ''bin''"
  using assms
  by (auto simp: active_owner_path_def owner_generation_path_def paths_of_def service_paths_of_def Let_def)

lemma session_outside:
  assumes "q = active_owner_path (paths_of E) \<or> q = owner_generation_path (paths_of E)"
  shows "outside (persistent_state_dir (bd E) @ ''users'' # x) q"
proof -
  from assms obtain f where "q = persistent_state_dir (bd E) @ [f]" "f \<noteq> ''users''" by (rule session_file_cases)
  then show ?thesis by (auto simp: outside_def)
qed

lemma prepare_session_data:
  assumes unix: "is_unix (os (bd E))" and owner: "au_identity owner = UnixOwner uid gid"
    and q: "q = active_owner_path (paths_of E) \<or> q = owner_generation_path (paths_of E)"
  shows "keeps (file_data q) (prepare_runtime E owner bundle)"
proof -
  let ?root = "for_owner (sha256 E) (paths_of E) (au_identity owner)"
  have root: "?root = persistent_state_dir (bd E) @ ''users'' # [owner_key (sha256 E) (au_identity owner)]"
    by (simp add: for_owner_def for_owner_key_def paths_of_def service_paths_of_def Let_def)
  note o = session_outside [OF q]
  have below: "q \<noteq> ?root @ x" for x
    unfolding root by (rule outside_ne [OF o])
  have layout: "q \<notin> layout_directories E"
    using q state_paths(1,2) [of E] by (auto simp: state_path_def)
  from q obtain f where f: "q = persistent_state_dir (bd E) @ [f]" by (rule session_file_cases)
  have ipc: "keeps (file_data q) (prepare_owner_ipc_directory E owner)"
  proof (rule ipc_directory_data)
    show "abs_path (mihomo_ipc_path (sha256 E) (bd E) (au_identity owner)) =
        (runtime_dir (bd E) @ [''users'']) @ [show_nat (unat uid), ''verge-mihomo.sock'']"
      using unix_ipc_path [of E uid gid] unix owner by simp
    show "q \<noteq> runtime_dir (bd E) @ [''users'']" "q \<noteq> (runtime_dir (bd E) @ [''users'']) @ [show_nat (unat uid)]"
      using roots_disjoint [OF unix, of "[f]" "[''users'']"]
        roots_disjoint [OF unix, of "[f]" "[''users'', show_nat (unat uid)]"] by (simp_all add: f)
  qed
  have state: "keeps (file_data q) (ensure_owner_state_directory E (au_identity owner))"
    unfolding ensure_owner_state_directory_def Let_def
    using below [of "[]"] by (intro frame files layout) simp
  have identity: "keeps (file_data q) (persist_owner_identity (au_identity owner) ?root)"
    unfolding persist_owner_identity_def
    by (intro frame files below)
  have dirs: "keeps (file_data q) (fs_create_dir_all (owner_logs_dir ?root))"
    "keeps (file_data q) (fs_create_dir_all (?root @ [RUNTIME_GENERATION_DIRECTORY_NAME]))"
    unfolding owner_logs_dir_def root by (intro files outside_dirs [OF o])+
  have owner_state: "\<And>w x v. ensure_owner_state_directory E (au_identity owner) w = (Inr x, v) \<Longrightarrow> x = ?root"
    by (auto simp: ensure_owner_state_directory_def bindE_Inr Let_def)
  have tail: "keeps (file_data q) (prepare_in E owner bundle core ?root)" for core
    unfolding prepare_in_def set_private_directory_permissions_def ensure_runtime_generation_def Let_def
    by (intro frame ipc state identity dirs files)
  show ?thesis
    unfolding prepare_runtime_def
    by (intro keeps_bindE [OF planning_data(1)] keeps_bindE_val [where Q = "\<lambda>x. x = ?root", OF keeps_mapErrE [OF state]])
      (auto dest: owner_state intro: tail)
qed

lemma abs_path_below:
  assumes "is_unix (os (bd E))"
    and "\<forall>p \<in> set rest. kept_piece p \<and> p \<noteq> ''..'' \<and> CHR ''/'' \<notin> set p"
  shows "abs_path (path_text (persistent_state_dir (bd E) @ rest)) = persistent_state_dir (bd E) @ rest"
proof (rule abs_path_text)
  have "\<forall>p \<in> set (persistent_state_dir (bd E)). kept_piece p \<and> p \<noteq> ''..'' \<and> CHR ''/'' \<notin> set p"
    using assms(1)
    by (rule unix_build_cases) (auto simp: persistent_dir_values kept_piece_def SERVICE_SLUG_def CHANNEL_IDENTITY_def)
  with assms(2) show "\<forall>p \<in> set (persistent_state_dir (bd E) @ rest). kept_piece p \<and> p \<noteq> ''..'' \<and> CHR ''/'' \<notin> set p"
    by auto
qed

lemma prepare_value:
  assumes unix: "is_unix (os (bd E))" and owner: "au_identity owner = UnixOwner uid gid"
    and run: "prepare_runtime E owner bundle w = (Inr p, v)"
  shows "prepared_ok E p"
proof -
  let ?key = "show_nat (unat uid)"
  let ?root = "persistent_state_dir (bd E) @ [''users'', ?key]"
  have root: "for_owner (sha256 E) (paths_of E) (au_identity owner) = ?root"
    by (simp add: owner for_owner_def for_owner_key_def paths_of_def service_paths_of_def Let_def)
  from run obtain core w1 w2 where in_root: "prepare_in E owner bundle core ?root w1 = (Inr p, v)"
    by (auto simp: prepare_runtime_def bindE_Inr ensure_owner_state_directory_def Let_def root)
  then obtain plan stale w3 w4 where p: "p = \<lparr>pr_clash_config = prepared_config E owner core (owner_logs_dir ?root) (?root @ [''runtime'']),
        pr_runtime = ?root @ [''runtime''], pr_stale_runtime_paths = stale, pr_plan = plan, pr_yaml = rb_yaml bundle\<rparr>"
    and stale: "snapshot_stale_runtime_directories ?root (?root @ [''runtime'']) w3 = (Inr stale, w4)"
    by (auto simp: prepare_in_def ensure_runtime_generation_def Let_def bindE_Inr generation_names)
  have piece: "kept_piece ?key" "?key \<noteq> ''..''" "CHR ''/'' \<notin> set ?key"
  proof -
    have "\<not> is_digit (CHR ''/'')" "\<not> is_digit (CHR ''.'')" by (simp_all add: is_digit_def)
    then show n: "CHR ''/'' \<notin> set ?key" using show_nat_no_char by auto
    have "CHR ''.'' \<notin> set ?key" using \<open>\<not> is_digit (CHR ''.'')\<close> show_nat_no_char by auto
    then show "kept_piece ?key" "?key \<noteq> ''..''" by (auto simp: kept_piece_def)
  qed
  have dir: "abs_path (path_text (?root @ [''runtime''])) = persistent_state_dir (bd E) @ [''users'', ?key, ''runtime'']"
    using abs_path_below [OF unix, of "[''users'', ?key, ''runtime'']"] piece by (simp add: kept_piece_def)
  have cfg: "abs_path (path_text (?root @ [''runtime'', RUNTIME_CONFIG_FILE_NAME])) =
      persistent_state_dir (bd E) @ [''users'', ?key, ''runtime'', RUNTIME_CONFIG_FILE_NAME]"
    using abs_path_below [OF unix, of "[''users'', ?key, ''runtime'', RUNTIME_CONFIG_FILE_NAME]"] piece
    by (simp add: kept_piece_def generation_names)
  have "core_socket E (pr_clash_config p)"
    unfolding core_socket_def p
    using unix_ipc_path [OF unix, of uid gid] dir cfg
    by (auto simp: prepared_config_def owner)
  with snapshot_names [OF stale] show ?thesis
    by (force simp: prepared_ok_def p)
qed

section \<open>Neutral operations of the requests\<close>

lemma neutral_prepare:
  assumes unix: "is_unix (os (bd E))" and owner: "au_identity owner = UnixOwner uid gid"
  shows "neutral E (prepare_runtime E owner bundle) (prepared_ok E)"
proof (rule neutralI)
  fix a g e
  have n: "neutral E (prepare_runtime E owner bundle) (\<lambda>_. True)"
    by (intro neutral_keeps prepare_session_data [OF unix owner] blind_prepare) simp_all
  show "triple (still E a g e) (prepare_runtime E owner bundle) (\<lambda>x w. still E a g e w \<and> prepared_ok E x) (\<lambda>_. still E a g e)"
    using neutral_triple [OF n, of a g e] prepare_value [OF unix owner] unfolding triple_def by blast
qed

lemma neutral_materialize:
  assumes "prepared_ok E p"
  shows "neutral E (materialize E p) (\<lambda>_. True)" "neutral E (commit_prepared E p) (\<lambda>_. True)"
proof -
  from assms obtain key where g: "pr_runtime p = persistent_state_dir (bd E) @ ''users'' # [key, ''runtime'']"
    and s: "\<And>s. s \<in> set (pr_stale_runtime_paths p) \<Longrightarrow> \<exists>n. s = persistent_state_dir (bd E) @ ''users'' # [key, n]"
    by (auto simp: prepared_ok_def)
  show "neutral E (materialize E p) (\<lambda>_. True)"
    unfolding materialize_def g
    by (intro neutral_keeps materialize_outside session_outside blind_materialize) simp_all
  have other: "keeps (\<lambda>w. fs w q) (cleanup_stale_runtime_directories E (pr_stale_runtime_paths p))"
    if "q = active_owner_path (paths_of E) \<or> q = owner_generation_path (paths_of E)" for q
  proof (rule retirement_other, rule ballI)
    fix x assume "x \<in> set (pr_stale_runtime_paths p)"
    from s [OF this] session_outside [OF that] show "\<not> path_starts_with x q"
      by (auto simp: outside_def path_starts_with_def)
  qed
  show "neutral E (commit_prepared E p) (\<lambda>_. True)"
    unfolding commit_prepared_def
    by (intro neutral_if neutral_okE neutral_keeps file_data_other other blind_prepare) simp_all
qed

lemma session_read_data [files]:
  "keeps (file_data q) (load_active_owner E)"
  unfolding load_active_owner_def Let_def by (intro frame files)

lemma neutral_state_ops [neutral_rules]:
  "neutral E (load_active_owner E) (\<lambda>_. True)" "neutral E (load_owner_desired_state E key) (\<lambda>_. True)"
  "neutral E (update_owner_desired_state E key f) (\<lambda>_. True)"
  "neutral E (persist_owner_core_stopped E owner) (\<lambda>_. True)"
  "neutral E (persist_owner_core_stopped_by_key E key) (\<lambda>_. True)"
  "neutral E (persist_owner_core_started E owner config) (\<lambda>_. True)"
  "neutral E (persist_owner_writer_config E owner c) (\<lambda>_. True)"
proof -
  show u: "neutral E (update_owner_desired_state E key f) (\<lambda>_. True)" for key f
    by (intro neutral_keeps files blind_desired_ops) simp_all
  show "neutral E (load_active_owner E) (\<lambda>_. True)"
    by (intro neutral_keeps files blind_desired_ops) simp_all
  show "neutral E (load_owner_desired_state E key) (\<lambda>_. True)"
    by (rule neutral_keeps)
      (simp_all add: load_owner_desired_state_def read_resilient_elsewhere
        blind_desired_ops(4) [unfolded load_owner_desired_state_def])
  show "neutral E (persist_owner_core_stopped_by_key E key) (\<lambda>_. True)" for key
    unfolding persist_owner_core_stopped_by_key_def by (rule u)
  then show "neutral E (persist_owner_core_stopped E owner) (\<lambda>_. True)"
    unfolding persist_owner_core_stopped_def .
  show "neutral E (persist_owner_core_started E owner config) (\<lambda>_. True)"
    "neutral E (persist_owner_writer_config E owner c) (\<lambda>_. True)"
    unfolding persist_owner_core_started_def persist_owner_writer_config_def by (rule u)+
qed

lemma neutral_cells [neutral_rules]:
  "neutral E (set_core_state s) (\<lambda>_. True)" "neutral E (set_or_update_writer c) (\<lambda>_. True)"
proof -
  have data: "keeps (file_data q) (set_or_update_writer c)" for q
    unfolding set_or_update_writer_def by (intro frame data_syscall_other) simp
  show "neutral E (set_core_state s) (\<lambda>_. True)" by (intro neutral_keeps files frame)
  have "keeps env (set_or_update_writer c)" "keeps crew (set_or_update_writer c)"
    unfolding set_or_update_writer_def
    by (rule keeps_io_act, rule env_syscall, simp add: keeps_def)
      (rule keeps_io_act, rule crew_syscall, simp add: keeps_def crew_def handle_def)
  then show "neutral E (set_or_update_writer c) (\<lambda>_. True)" by (intro neutral_keeps data)
qed

lemma neutral_set_cell [neutral_rules]: "neutral E (modify (set_core_lifecycle_state s)) (\<lambda>_. True)"
  by (rule neutral_keeps)
    (simp_all add: keeps_def modify_def file_data_def set_core_lifecycle_state_def crew_def handle_def)

lemma neutral_proxy [neutral_rules]:
  assumes "proxy_library E"
  shows "neutral E (clear_service_proxy E) (\<lambda>_. True)" "neutral E (compensate_service_proxy E) (\<lambda>_. True)"
    "neutral E (apply_service_proxy_or_direct E c) (\<lambda>_. True)"
    "neutral E (clear_proxy_with_direct_compensation E) (\<lambda>_. True)"
proof -
  have f: "blind_to_proxy (file_data q)" "blind_to_proxy crew" for q
    by (simp_all add: blind_to_proxy_def file_data_def crew_def handle_def)
  note p = proxy_ops_keep [OF assms]
  have n: "neutral E (clear_proxy E) (\<lambda>_. True)" "neutral E (apply_proxy E x) (\<lambda>_. True)"
    "neutral E (apply_proxy_or_direct E c) (\<lambda>_. True)" for x c
    by (intro neutral_keeps p f; simp)+
  show c: "neutral E (clear_service_proxy E) (\<lambda>_. True)" "neutral E (compensate_service_proxy E) (\<lambda>_. True)"
    unfolding clear_service_proxy_def compensate_service_proxy_def by (intro neutral_if n neutral_okE TrueI)+
  show "neutral E (apply_service_proxy_or_direct E c) (\<lambda>_. True)"
    unfolding apply_service_proxy_or_direct_def by (rule n)
  show "neutral E (clear_proxy_with_direct_compensation E) (\<lambda>_. True)"
    unfolding clear_proxy_with_direct_compensation_def
    by (rule neutral_tryE [OF c(1)]; simp add: neutral_okE) (rule neutral_tryE [OF c(2)]; rule neutral_failE)
qed

lemma neutral_watchdog:
  assumes "is_unix (os (bd E))"
  shows "neutral E (let_watchdog_run E) (\<lambda>_. True)"
proof -
  have "neutral E (watchdog_rounds E n) (\<lambda>_. True)" for n
    by (induction n) (auto intro: neutral_okE neutral_bindE neutral_manager [OF assms])
  then show ?thesis
    unfolding let_watchdog_run_def by (intro neutral_bindE [OF neutral_get] neutral_tryE neutral_okE TrueI)
qed

lemma neutral_running_core:
  "neutral E (get running_core_config) (\<lambda>x. \<forall>pid c. x = Some (pid, c) \<longrightarrow> core_socket E c)"
  by (auto simp: neutral_def triple_def get_def still_def running_core_config_def sockets_ok_def known_configs_def
      split: if_splits)

lemma neutral_stage_files:
  assumes unix: "is_unix (os (bd E))" and c: "core_socket E c"
  shows "neutral E (stage_files E (abs_path (cc_config_dir (clash_core c))) pid (clash_core c) yaml plan) (\<lambda>_. True)"
proof -
  from c obtain key where g: "abs_path (cc_config_dir (clash_core c)) = persistent_state_dir (bd E) @ ''users'' # [key, ''runtime'']"
    and p: "abs_path (cc_config_path (clash_core c)) =
      (persistent_state_dir (bd E) @ ''users'' # [key, ''runtime'']) @ [RUNTIME_CONFIG_FILE_NAME]"
    by (auto simp: core_socket_def)
  let ?g = "persistent_state_dir (bd E) @ ''users'' # [key, ''runtime'']"
  have n: "neutral E m (\<lambda>_. True)"
    if "\<And>q. outside ?g q \<Longrightarrow> keeps (file_data q) m" "keeps env m" "keeps crew m" for m :: "(world, 'e, 'a) op"
    using that session_outside [of _ E "[key, ''runtime'']"] by (intro neutral_keeps) simp_all
  have live: "keeps f (discard_live_caches E ?g ds)" "keeps f (refresh_live_assets E ?g cs)"
    "keeps f (sweep_obsolete E ?g ds)" "keeps f (remove_staged_file E q)"
    "keeps f (commit_staged_config E ?g q yaml m)" if f: "blind_to_staging f" for f :: "world \<Rightarrow> 'x" and ds cs q m
  proof -
    show "keeps f (discard_live_caches E ?g ds)" by (induction ds) (auto intro!: frame blind f)
    show "keeps f (refresh_live_assets E ?g cs)" by (induction cs) (auto intro!: frame blind f)
    show "keeps f (sweep_obsolete E ?g ds)" unfolding sweep_obsolete_def by (intro frame blind f)
  qed (intro blind f)+
  have "neutral E (discard_live_caches E ?g ds) (\<lambda>_. True)" "neutral E (refresh_live_assets E ?g cs) (\<lambda>_. True)"
    "neutral E (sweep_obsolete E ?g ds) (\<lambda>_. True)" "neutral E (remove_staged_file E (?g @ [x])) (\<lambda>_. True)"
    "neutral E (commit_staged_config E ?g (?g @ [RUNTIME_CONFIG_FILE_NAME]) yaml m) (\<lambda>_. True)" for ds cs x m
    by (intro n discard_outside assets_outside commit_outside live files outside_ne; (assumption | simp))+
  note ops = this
  show ?thesis
    unfolding stage_files_def commit_live_def g p Let_def
    by (intro neutral_bindE [OF ops(1)] neutral_bindE [OF ops(2)] neutral_bindE [OF neutral_watchdog [OF unix]]
        neutral_bindE [OF neutral_get] neutral_if neutral_okE neutral_match [OF ops(5)] neutral_bindE [OF ops(3)]
        neutral_tryE [OF ops(4)] neutral_case_option TrueI)
qed

lemma neutral_stage:
  assumes unix: "is_unix (os (bd E))"
  shows "neutral E (stage_runtime E owner bundle) (\<lambda>_. True)"
proof -
  have planning: "neutral E (validate_core_path E owner c) (\<lambda>_. True)" "neutral E (gather_bundle E owner bundle core) (\<lambda>_. True)" for c core
  proof -
    have "keeps (file_data q) (gather_bundle E owner bundle core)" for q
      unfolding gather_bundle_def by (intro frame files)
    then show "neutral E (gather_bundle E owner bundle core) (\<lambda>_. True)" by (simp add: neutral_keeps blind_prepare)
    show "neutral E (validate_core_path E owner c) (\<lambda>_. True)"
      by (simp add: neutral_keeps blind_prepare planning_data)
  qed
  have manifest: "neutral E (read_manifest g) (\<lambda>_. True)" for g
    unfolding read_manifest_def by (intro neutral_keeps frame files blind) simp_all
  have go: "neutral E (if \<not> same_path (cc_core_path (clash_core config)) core_path
      then okE (RestartRequired CorePathChanged)
      else
        (let generation = abs_path (cc_config_dir (clash_core config)) in
         bindE (gather_bundle E owner bundle core_path) (\<lambda>(sources, remote).
         tryE (read_manifest generation) (\<lambda>r.
           (case r of
              Inl detail \<Rightarrow> okE (RestartRequired (RuntimeUnwritable detail))
            | Inr previous \<Rightarrow>
                stage_files E generation core_pid (clash_core config) (rb_yaml bundle)
                  (plan_stage previous sources remote)))))) (\<lambda>_. True)"
    if "core_socket E config" for config core_path core_pid
    unfolding Let_def
    by (intro neutral_if neutral_okE neutral_bindE [OF planning(2)] TrueI)
      (auto intro!: neutral_tryE [OF manifest] neutral_okE neutral_stage_files [OF unix that] split: prod.splits)
  show ?thesis
    unfolding stage_runtime_def
  proof (rule neutral_bindE [OF neutral_running_core])
    fix core :: "(u32 \<times> clash_config) option"
    assume "\<forall>pid c. core = Some (pid, c) \<longrightarrow> core_socket E c"
    then show "neutral E (case core of
          None \<Rightarrow> okE (RestartRequired CoreNotRunning)
        | Some (core_pid, config) \<Rightarrow>
            bindE (validate_core_path E owner (rb_core_path bundle)) (\<lambda>core_path.
              if \<not> same_path (cc_core_path (clash_core config)) core_path
              then okE (RestartRequired CorePathChanged)
              else
                (let generation = abs_path (cc_config_dir (clash_core config)) in
                 bindE (gather_bundle E owner bundle core_path) (\<lambda>(sources, remote).
                 tryE (read_manifest generation) (\<lambda>r.
                   (case r of
                      Inl detail \<Rightarrow> okE (RestartRequired (RuntimeUnwritable detail))
                    | Inr previous \<Rightarrow>
                        stage_files E generation core_pid (clash_core config) (rb_yaml bundle)
                          (plan_stage previous sources remote))))))) (\<lambda>_. True)"
      by (cases core) (auto intro!: neutral_okE neutral_bindE [OF planning(1)] go split: prod.splits)
  qed
qed

section \<open>Requests that only read the session\<close>

text \<open>A flow whose result is looked at by \<open>respond\<close>.\<close>

lemma neutral_respond: "neutral E m (\<lambda>_. True) \<Longrightarrow> neutral E (respond m) (\<lambda>_. True)"
  unfolding respond_def by (rule neutral_tryE [where Q = "\<lambda>_. True"]) (auto intro: neutral_okE)

lemma neutral_authenticate:
  "neutral E (authenticate_request E c credentials body)
     (\<lambda>(request, owner). \<exists>uid gid. au_identity owner = UnixOwner uid gid)"
proof -
  have "keeps f (authenticate_owner E c cred)" if "\<And>w n. f (w\<lparr>tick := n\<rparr>) = f w" for f :: "world \<Rightarrow> 'x" and cred
    using that by (rule authenticate_owner_keeps)
  have owner: "neutral E (authenticate_owner E c cred) (\<lambda>owner. \<exists>uid gid. au_identity owner = UnixOwner uid gid)" for cred
  proof (rule neutralI)
    fix a g e
    have "neutral E (authenticate_owner E c cred) (\<lambda>_. True)"
      by (intro neutral_keeps authenticate_owner_keeps) (simp_all add: file_data_def crew_def handle_def)
    moreover have "\<exists>uid gid. au_identity x = UnixOwner uid gid" if "authenticate_owner E c cred w = (Inr x, v)" for w x v
      using that by (cases "cred_identity cred") (auto simp: authenticate_owner_def bindE_Inr split: if_splits)
    ultimately show "triple (still E a g e) (authenticate_owner E c cred)
        (\<lambda>x w. still E a g e w \<and> (\<exists>uid gid. au_identity x = UnixOwner uid gid)) (\<lambda>_. still E a g e)"
      using neutral_triple unfolding triple_def by blast
  qed
  show ?thesis
    unfolding authenticate_request_def
    by (intro neutral_bindE [OF neutral_liftE [where Q = "\<lambda>_. True"]]
        neutral_bindE [OF neutral_mapErrE [OF owner]] neutral_okE) simp_all
qed

lemma neutral_gate: "neutral E (enter_owner_lifecycle E owner gate) (\<lambda>_. True)"
proof -
  have "neutral E (require_active_owner E owner) (\<lambda>_. True)"
    unfolding require_active_owner_def
    by (intro neutral_bindE [OF neutral_mapErrE [OF neutral_state_ops(1)]])
      (auto intro: neutral_okE neutral_failE split: option.splits)
  moreover have "neutral E (require_active_session E owner p) (\<lambda>_. True)" for p
    unfolding require_active_session_def
    by (intro neutral_bindE [OF neutral_mapErrE [OF neutral_state_ops(1)]] neutral_bindE [OF neutral_liftE]
        neutral_if neutral_failE neutral_okE TrueI)
  ultimately show ?thesis
    unfolding enter_owner_lifecycle_def
    by (intro neutral_mapErrE) (cases gate; auto intro: neutral_okE neutral_bindE)
qed

lemma neutral_status: "neutral E (collect_service_status E owner) (\<lambda>_. True)"
  unfolding collect_service_status_def Let_def
  by (intro neutral_bindE [OF neutral_get] neutral_tryE [OF neutral_state_ops(2)] neutral_bindE [OF neutral_state_ops(1)]
      neutral_bindE [where Q = "\<lambda>_. True"] neutral_if neutral_get neutral_okE TrueI)

lemma neutral_snapshot: "neutral E (read_log_snapshot p) (\<lambda>_. True)"
proof -
  have data: "keeps (file_data q) (open_for_reading p)" "keeps (file_data q) seek_from_start" for q
    unfolding open_for_reading_def seek_from_start_def
    by (intro data_syscall_other; simp split: option.splits)+
  have b: "keeps f (open_for_reading p)" "keeps f seek_from_start" if "blind_to_files f" for f :: "world \<Rightarrow> 'x"
    unfolding open_for_reading_def seek_from_start_def
    by (intro blind_syscall [OF that]; simp add: keeps_def split: option.splits)+
  have n: "neutral E (open_for_reading p) (\<lambda>_. True)" "neutral E seek_from_start (\<lambda>_. True)"
    "neutral E (fstat p) (\<lambda>_. True)" "neutral E (fs_read p) (\<lambda>_. True)"
    by (intro neutral_keeps data files b blind; simp)+
  show ?thesis
    unfolding read_log_snapshot_def Let_def
    by (intro neutral_bindE [OF n(1)] neutral_bindE [OF n(3)] neutral_bindE [OF n(4)]
        neutral_bindE [where Q = "\<lambda>_. True"] neutral_if n(2) neutral_okE TrueI)
qed

lemma neutral_legacy:
  assumes "is_unix (os (bd E))"
  shows "neutral E (cleanup_legacy_owner_files E owner) (\<lambda>_. True)"
proof -
  let ?root = "for_owner (sha256 E) (paths_of E) (au_identity owner)"
  have root: "?root = persistent_state_dir (bd E) @ ''users'' # [owner_key (sha256 E) (au_identity owner)]"
    by (simp add: for_owner_def for_owner_key_def paths_of_def service_paths_of_def Let_def)
  have below: "active_owner_path (paths_of E) \<noteq> ?root @ x" "owner_generation_path (paths_of E) \<noteq> ?root @ x" for x
    unfolding root by (rule outside_ne [OF session_outside]; simp)+
  have layout: "active_owner_path (paths_of E) \<notin> layout_directories E" "owner_generation_path (paths_of E) \<notin> layout_directories E"
    using state_paths(1,2) [of E] by (simp_all add: state_path_def)
  have state: "neutral E (ensure_owner_state_directory E (au_identity owner)) (\<lambda>_. True)"
  proof (rule neutral_keeps)
    show "keeps (file_data (active_owner_path (paths_of E))) (ensure_owner_state_directory E (au_identity owner))"
      "keeps (file_data (owner_generation_path (paths_of E))) (ensure_owner_state_directory E (au_identity owner))"
      unfolding ensure_owner_state_directory_def Let_def
      using below [of "[]"] by (intro frame files layout; simp)+
  qed (simp_all add: blind_prepare)
  have tree: "neutral E (cleanup_root_owned_entries root) (\<lambda>_. True)" for root
    by (intro neutral_keeps keeps_cleanup) (simp_all add: file_data_def crew_def handle_def)
  have marker: "neutral E (bindE (fs_create (?root @ [m])) (\<lambda>_. fs_write_all (?root @ [m]) d)) (\<lambda>_. True)" for m d
    by (intro neutral_keeps frame files below blind) simp_all
  show ?thesis
    unfolding cleanup_legacy_owner_files_def Let_def
    by (intro neutral_bindE [OF neutral_mapErrE [OF state]] neutral_bindE [OF neutral_get] neutral_if neutral_okE
        neutral_bindE [where Q = "\<lambda>_. True"] neutral_mapErrE marker TrueI)
      (auto intro: neutral_failE neutral_okE neutral_mapErrE tree split: owner_identity.splits)
qed

end
