(* ===== verification/Sessions.thy ===== *)
theory Sessions
  imports Neutral
begin

text \<open>
  The life of a session: the operations that begin and end one, and the steps of a start request, which
  keep the contract of the owner transition (\<open>owner_proxy_steps\<close>) on the model's own state.
\<close>

section \<open>The life of a session\<close>

text \<open>
  \<open>session_is E w0 a g w\<close>: starting from \<open>w0\<close> the service has come to \<open>w\<close> by session steps, and there the
  active owner's record is \<open>a\<close> and the generation counter is \<open>g\<close>.
\<close>

definition session_is :: "params \<Rightarrow> world \<Rightarrow> active_owner_state option \<Rightarrow> u64 \<Rightarrow> world \<Rightarrow> bool" where
  "session_is E w0 a g w \<longleftrightarrow> (session_step E)\<^sup>*\<^sup>* w0 w \<and> sockets_ok E w \<and> honest w \<and>
     stored_active E w = a \<and> stored_generation E w = g"

lemma session_neutral:
  assumes "neutral E m Q"
  shows "triple (session_is E w0 a g) m (\<lambda>x w. session_is E w0 a g w \<and> Q x) (\<lambda>_. session_is E w0 a g)"
proof -
  have step: "session_is E w0 a g v"
    if w: "session_is E w0 a g w" and v: "still E (file_data (active_owner_path (paths_of E)) w)
      (file_data (owner_generation_path (paths_of E)) w) (env w) v" for w v
  proof -
    from v have same: "stored_active E v = stored_active E w" "stored_generation E v = stored_generation E w" "env v = env w"
      by (auto simp: still_def intro: stored_views)
    with w have "(session_step E)\<^sup>*\<^sup>* w0 v"
      unfolding session_is_def by (blast intro: rtranclp.rtrancl_into_rtrancl session_step.other)
    with w v same show ?thesis by (auto simp: session_is_def still_def dest: honest_env)
  qed
  show ?thesis
    unfolding triple_def
  proof (intro allI impI)
    fix w x e v assume w: "session_is E w0 a g w"
    then have s: "still E (file_data (active_owner_path (paths_of E)) w)
        (file_data (owner_generation_path (paths_of E)) w) (env w) w"
      by (simp add: still_def session_is_def)
    note t = neutral_triple [OF assms]
    show "(m w = (Inr x, v) \<longrightarrow> session_is E w0 a g v \<and> Q x) \<and> (m w = (Inl e, v) \<longrightarrow> session_is E w0 a g v)"
      using triple_ok [OF t s] triple_fails [OF t s] step [OF w] by blast
  qed
qed

lemma session_neutral': "neutral E m Q \<Longrightarrow> triple (session_is E w0 a g) m (\<lambda>_. session_is E w0 a g) (\<lambda>_. session_is E w0 a g)"
  by (rule triple_weaken [OF session_neutral]) auto

lemma sockets_keep: "keeps crew m \<Longrightarrow> m w = (r, v) \<Longrightarrow> sockets_ok E w \<Longrightarrow> sockets_ok E v"
  using keepsD [of crew m w r v] sockets_crew by blast

lemma clear_honest:
  assumes "clear_active_owner E w = (r, v)" "honest w"
  shows "if r = Inr () then stored_active E v = None else stored_active E v = stored_active E w"
proof -
  let ?p = "active_owner_path (paths_of E)"
  obtain r1 w1 where 1: "fs_remove_file ?p w = (r1, w1)" by (cases "fs_remove_file ?p w")
  have v: "v = w1" "r = Inr () \<longleftrightarrow> r1 = Inr () \<or> r1 = Inl NotFound" using assms(1) 1
    by (auto simp: clear_active_owner_def tryE_eq okE_def failE_def split: sum.splits if_splits)
  have "r1 = Inr () \<or> r1 = Inl NotFound \<Longrightarrow> fs w1 ?p = None"
    using 1 assms(2)
    by (auto simp: fs_remove_file_def syscall_def Let_def honest_def set_node_def split: option.splits if_splits)
  moreover have "r1 \<noteq> Inr () \<Longrightarrow> fs w1 ?p = fs w ?p"
    using 1 by (auto simp: fs_remove_file_def syscall_def Let_def split: option.splits if_splits)
  ultimately show ?thesis
    using v by (auto simp: stored_active_def stored_absent stored_def file_data_def)
qed

lemma session_clear:
  "triple (session_is E w0 a g) (clear_active_owner E) (\<lambda>_. session_is E w0 None g) (\<lambda>_. session_is E w0 a g)"
  unfolding triple_def
proof (intro allI impI)
  fix w x e v assume w: "session_is E w0 a g w"
  have after: "session_is E w0 (if r = Inr () then None else a) g v" if run: "clear_active_owner E w = (r, v)" for r
  proof -
    have "(session_step E)\<^sup>*\<^sup>* w0 v"
      using w session_step.clear [OF run] by (auto simp: session_is_def intro: rtranclp.rtrancl_into_rtrancl)
    moreover have "sockets_ok E v"
      using w sockets_keep [OF blind_desired_ops(3) run] by (simp add: session_is_def)
    moreover have "honest v"
      using w session_step_honest [OF session_step.clear [OF run]] by (simp add: session_is_def)
    ultimately show ?thesis
      using w clear_honest [OF run] clear_run(2) [OF run] by (auto simp: session_is_def split: if_splits)
  qed
  show "(clear_active_owner E w = (Inr x, v) \<longrightarrow> session_is E w0 None g v) \<and>
      (clear_active_owner E w = (Inl e, v) \<longrightarrow> session_is E w0 a g v)"
    using after by fastforce
qed

text \<open>The record that a commit for this owner and token stores.\<close>

definition session_of :: "params \<Rightarrow> authenticated_owner \<Rightarrow> string \<Rightarrow> u64 \<Rightarrow> active_owner_state \<Rightarrow> bool" where
  "session_of E owner token g a \<longleftrightarrow> ao_owner_key a = au_key owner \<and> ao_generation a = g \<and>
     hash_session_token (sha256 E) token = Inr (ao_session_token_hash a)"

lemma session_commit:
  "triple (session_is E w0 a g) (commit_active_owner_session E owner token)
     (\<lambda>x w. session_is E w0 (Some x) (saturating_inc g) w \<and> session_of E owner token (saturating_inc g) x)
     (\<lambda>_ w. session_is E w0 a g w \<or> session_is E w0 a (saturating_inc g) w \<or>
        (\<exists>x. session_is E w0 (Some x) (saturating_inc g) w \<and> session_of E owner token (saturating_inc g) x))"
  unfolding triple_def
proof (intro allI impI)
  fix w x e v assume w: "session_is E w0 a g w"
  have base: "(session_step E)\<^sup>*\<^sup>* w0 v \<and> sockets_ok E v \<and> honest v"
    if run: "commit_active_owner_session E owner token w = (r, v)" for r
    using w session_step.commit [OF run] sockets_keep [OF blind_desired_ops(2) run]
      session_step_honest [OF session_step.commit [OF run]]
    by (auto simp: session_is_def intro: rtranclp.rtrancl_into_rtrancl)
  from w have h: "honest w" "stored_active E w = a" "stored_generation E w = g" by (simp_all add: session_is_def)
  note adv = session_commit_outcome [OF h(1), of E owner token]
  show "(commit_active_owner_session E owner token w = (Inr x, v) \<longrightarrow>
        session_is E w0 (Some x) (saturating_inc g) v \<and> session_of E owner token (saturating_inc g) x) \<and>
      (commit_active_owner_session E owner token w = (Inl e, v) \<longrightarrow>
        session_is E w0 a g v \<or> session_is E w0 a (saturating_inc g) v \<or>
        (\<exists>x. session_is E w0 (Some x) (saturating_inc g) v \<and> session_of E owner token (saturating_inc g) x))"
    using base adv h by (fastforce simp: session_is_def session_of_def)
qed

section \<open>The steps of a start keep the contract of the transition\<close>

definition transition_ok :: "params \<Rightarrow> authenticated_owner \<Rightarrow> string \<Rightarrow> start_transition \<Rightarrow> bool" where
  "transition_ok E owner token t \<longleftrightarrow> is_unix (os (bd E)) \<and> proxy_library E \<and>
     tr_owner t = owner \<and> tr_proposed_session_token t = token \<and>
     (\<forall>p. tr_prepared_runtime t = Some p \<longrightarrow> prepared_ok E p)"

definition during :: "(start_transition \<Rightarrow> bool) \<Rightarrow> (world \<Rightarrow> bool) \<Rightarrow> start_transition \<times> world \<Rightarrow> bool" where
  "during A P s \<longleftrightarrow> A (fst s) \<and> P (snd s)"

definition new_session ::
  "params \<Rightarrow> authenticated_owner \<Rightarrow> string \<Rightarrow> world \<Rightarrow> u64 \<Rightarrow> active_owner_state \<Rightarrow> world \<Rightarrow> bool" where
  "new_session E owner token w0 g x w \<longleftrightarrow>
     session_is E w0 (Some x) (saturating_inc g) w \<and> session_of E owner token (saturating_inc g) x"

definition failed_session ::
  "params \<Rightarrow> authenticated_owner \<Rightarrow> string \<Rightarrow> world \<Rightarrow> u64 \<Rightarrow> world \<Rightarrow> bool" where
  "failed_session E owner token w0 g w \<longleftrightarrow>
     session_is E w0 None g w \<or> session_is E w0 None (saturating_inc g) w \<or>
     (\<exists>x. new_session E owner token w0 g x w)"

lemma on_world_run: "on_world m (t, w) = (fst (m w), (t, snd (m w)))"
  by (simp add: on_world_def split: prod.splits)

lemma during_run:
  assumes m: "triple P m Q R" and t: "A t"
  shows "triple (during (\<lambda>t'. t' = t) P) (on_world m) (\<lambda>x. during A (Q x)) (\<lambda>e. during A (R e))"
  unfolding triple_def
proof (intro allI impI)
  fix s x e s' assume s: "during (\<lambda>t'. t' = t) P s"
  then have w: "s = (t, snd s)" "P (snd s)" by (auto simp: during_def prod_eq_iff)
  obtain r v where run: "m (snd s) = (r, v)" by fastforce
  have out: "on_world m s = (r, (t, v))" using on_world_run [of m t "snd s"] w(1) run by simp
  show "(on_world m s = (Inr x, s') \<longrightarrow> during A (Q x) s') \<and> (on_world m s = (Inl e, s') \<longrightarrow> during A (R e) s')"
    using triple_ok [OF m w(2)] triple_fails [OF m w(2)] run t unfolding out during_def by auto
qed

lemma during_const:
  assumes "\<And>t. A t \<Longrightarrow> triple P m Q R"
  shows "triple (during A P) (on_world m) (\<lambda>x. during A (Q x)) (\<lambda>e. during A (R e))"
  unfolding triple_def
proof (intro allI impI)
  fix s x e s' assume s: "during A P s"
  then have t: "A (fst s)" "during (\<lambda>t'. t' = fst s) P s" by (simp_all add: during_def)
  note run = during_run [OF assms [OF t(1)], of A "fst s", OF t(1)]
  show "(on_world m s = (Inr x, s') \<longrightarrow> during A (Q x) s') \<and> (on_world m s = (Inl e, s') \<longrightarrow> during A (R e) s')"
    using triple_ok [OF run t(2)] triple_fails [OF run t(2)] by blast
qed

lemma during_this:
  assumes "\<And>t. A t \<Longrightarrow> triple (during (\<lambda>t'. t' = t) P) (f t) Q R"
  shows "triple (during A P) (\<lambda>(t, w). f t (t, w)) Q R"
  unfolding triple_def
proof (intro allI impI)
  fix s x e s' assume s: "during A P s"
  then have t: "A (fst s)" "during (\<lambda>t'. t' = fst s) P s" by (simp_all add: during_def)
  show "((case s of (t, w) \<Rightarrow> f t (t, w)) = (Inr x, s') \<longrightarrow> Q x s') \<and> ((case s of (t, w) \<Rightarrow> f t (t, w)) = (Inl e, s') \<longrightarrow> R e s')"
    using triple_ok [OF assms [OF t(1)] t(2)] triple_fails [OF assms [OF t(1)] t(2)] by (simp add: split_beta)
qed

lemma during_fail: "(\<And>t w. A t \<Longrightarrow> P w \<Longrightarrow> R e (t, w)) \<Longrightarrow> triple (during A P) (failE e) Q R"
  by (rule triple_failE) (auto simp: during_def)

lemma neutral_ctx: "neutral E m Q \<Longrightarrow> neutral E (ctx c m) Q"
  unfolding ctx_def by (rule neutral_mapErrE)

lemma triple_ctx: "triple P m Q (\<lambda>_. R) \<Longrightarrow> triple P (ctx c m) Q (\<lambda>_. R)"
  unfolding ctx_def by (rule triple_mapErrE)

lemma steps_proxy:
  assumes "\<And>t. A t \<Longrightarrow> neutral E (f t) (\<lambda>_. True)"
  shows "triple (during A (session_is E w0 a g)) (\<lambda>(t, w). on_world (f t) (t, w))
     (\<lambda>_. during A (session_is E w0 a g)) (\<lambda>_. during A (session_is E w0 a g))"
  using assms by (intro during_this during_run session_neutral')

lemma steps_stop:
  "triple (during (transition_ok E owner token) (session_is E w0 a g)) (stop_previous_core E)
     (\<lambda>_. during (transition_ok E owner token) (session_is E w0 None g))
     (\<lambda>_ s. during (transition_ok E owner token) (session_is E w0 a g) s \<or>
        during (transition_ok E owner token) (session_is E w0 None g) s)"
proof -
  have body: "triple (session_is E w0 a g)
       (bindE (stop_core E) (\<lambda>_.
        bindE (case tr_previous_owner t of
                 None \<Rightarrow> okE ()
               | Some previous \<Rightarrow>
                   ctx ''failed to persist the previous owner stopped state''
                     (bindE (persist_owner_core_stopped_by_key E (ao_owner_key previous)) (\<lambda>_. okE ()))) (\<lambda>_.
          ctx ''failed to clear the previous active owner'' (clear_active_owner E))))
       (\<lambda>_. session_is E w0 None g) (\<lambda>_. session_is E w0 a g)" if "is_unix (os (bd E))" for t
  proof -
    have persisted: "neutral E (case tr_previous_owner t of
                 None \<Rightarrow> okE ()
               | Some previous \<Rightarrow>
                   ctx ''failed to persist the previous owner stopped state''
                     (bindE (persist_owner_core_stopped_by_key E (ao_owner_key previous)) (\<lambda>_. okE ()))) (\<lambda>_. True)"
      by (intro neutral_case_option neutral_okE neutral_ctx neutral_bindE [OF neutral_state_ops(5)] TrueI)
    show ?thesis
      by (intro triple_bindE [OF session_neutral' [OF neutral_manager(1) [OF that]]]
          triple_bindE [OF session_neutral' [OF persisted]] triple_ctx session_clear)
  qed
  show ?thesis
    unfolding stop_previous_core_def
    by (rule during_this, rule triple_weaken [OF during_run [OF body]])
      (auto simp: transition_ok_def)
qed

lemma neutral_start_prepared:
  assumes "is_unix (os (bd E))" "prepared_ok E p"
  shows "neutral E (start_prepared E owner p) (\<lambda>_. True)"
proof -
  have c: "core_socket E (pr_clash_config p)" using assms(2) by (simp add: prepared_ok_def)
  show ?thesis
    unfolding start_prepared_def service_msg_def
    by (intro neutral_bindE [OF neutral_ctx [OF neutral_mapErrE [OF neutral_materialize(1) [OF assms(2)]]]]
        neutral_match [OF neutral_manager(3) [OF assms(1) c]] neutral_okE TrueI
        neutral_match [OF neutral_manager(1) [OF assms(1)]] neutral_failE neutral_tryE [OF neutral_state_ops(4)])
qed

lemma steps_start:
  "triple (during (transition_ok E owner token) (session_is E w0 a g)) (start_new_core E)
     (\<lambda>_. during (transition_ok E owner token) (session_is E w0 a g))
     (\<lambda>_. during (transition_ok E owner token) (session_is E w0 a g))"
  unfolding start_new_core_def
proof (rule during_this)
  fix t assume t: "transition_ok E owner token t"
  show "triple (during (\<lambda>t'. t' = t) (session_is E w0 a g)) 
     (\<lambda>s. case tr_prepared_runtime t of
        None \<Rightarrow> failE (Msg ''prepared runtime is unavailable'') s
      | Some prepared \<Rightarrow> on_world (start_prepared E (tr_owner t) prepared) s)
     (\<lambda>_. during (transition_ok E owner token) (session_is E w0 a g))
     (\<lambda>_. during (transition_ok E owner token) (session_is E w0 a g))"
  proof (cases "tr_prepared_runtime t")
    case None
    with t show ?thesis by (auto intro!: during_fail simp: during_def)
  next
    case (Some p)
    with t have "neutral E (start_prepared E (tr_owner t) p) (\<lambda>_. True)"
      by (intro neutral_start_prepared) (simp_all add: transition_ok_def)
    from during_run [OF session_neutral' [OF this], of "transition_ok E owner token" t] t Some show ?thesis by simp
  qed
qed

lemma failed_cases:
  assumes "\<And>a g'. (a = None \<and> (g' = g \<or> g' = saturating_inc g)) \<or>
      (\<exists>x. a = Some x \<and> g' = saturating_inc g \<and> session_of E owner token g' x) \<Longrightarrow> triple (session_is E w0 a g') m Q R"
  shows "triple (failed_session E owner token w0 g) m Q R"
proof -
  have "triple (session_is E w0 None g) m Q R" "triple (session_is E w0 None (saturating_inc g)) m Q R"
    by (rule assms; simp)+
  moreover have "triple (new_session E owner token w0 g x) m Q R" for x
    using assms [of "Some x" "saturating_inc g"] unfolding new_session_def triple_def by blast
  ultimately show ?thesis
    unfolding failed_session_def triple_def by blast
qed

lemma failed_neutral:
  assumes "neutral E m Q"
  shows "triple (failed_session E owner token w0 g) m (\<lambda>_. failed_session E owner token w0 g)
    (\<lambda>_. failed_session E owner token w0 g)"
  by (rule failed_cases, rule triple_weaken [OF session_neutral' [OF assms]])
    (auto simp: failed_session_def new_session_def)

lemma triple_keep_fact:
  "triple P m (\<lambda>_. P) (\<lambda>_. P) \<Longrightarrow> triple (\<lambda>w. P w \<and> A) m (\<lambda>_ w. P w \<and> A) (\<lambda>_ w. P w \<and> A)"
  unfolding triple_def by blast

lemma new_neutral:
  "neutral E m Q \<Longrightarrow> triple (new_session E owner token w0 g x) m (\<lambda>_. new_session E owner token w0 g x)
     (\<lambda>_. new_session E owner token w0 g x)"
  unfolding new_session_def by (rule triple_keep_fact) (rule session_neutral')

lemma failed_clear:
  "triple (failed_session E owner token w0 g) (clear_active_owner E) (\<lambda>_. failed_session E owner token w0 g)
     (\<lambda>_. failed_session E owner token w0 g)"
  by (rule failed_cases, rule triple_weaken [OF session_clear])
    (auto simp: failed_session_def new_session_def)

lemma rollback_world:
  assumes "is_unix (os (bd E))"
  shows "triple (failed_session E owner token w0 g) (rollback_started_owner E owner')
     (\<lambda>_. failed_session E owner token w0 g) (\<lambda>_. failed_session E owner token w0 g)"
proof -
  let ?F = "failed_session E owner token w0 g"
  have fatal: "triple ?F (bindE (set_core_state Fatal) (\<lambda>_. failE e)) (\<lambda>_. ?F) (\<lambda>_. ?F)" for e
    by (intro triple_bindE [OF failed_neutral [OF neutral_cells(1)]] triple_failE)
  have "triple ?F (case (d, c) of (Inr _, Inr _) \<Rightarrow> okE () | (Inl e, Inr _) \<Rightarrow> failE e | (Inr _, Inl e) \<Rightarrow> failE e
      | (Inl e, Inl e') \<Rightarrow> bindE (set_core_state Fatal) (\<lambda>_.
          failE (Msg (''failed to persist stopped owner state: '' @ show_err e @
                       ''; failed to clear active owner: '' @ show_err e')))) (\<lambda>_. ?F) (\<lambda>_. ?F)"
    for d :: "err + desired_state" and c :: "err + unit"
    by (cases d; cases c) (auto intro: triple_okE triple_failE fatal)
  note results = this
  show ?thesis
    unfolding rollback_started_owner_def
    by (rule triple_match [OF failed_neutral [OF neutral_manager(1) [OF assms]]],
        rule triple_tryE [OF failed_neutral [OF neutral_state_ops(4)]]; (rule triple_tryE [OF failed_clear])?)
      (rule results fatal)+
qed

lemma steps_rollback:
  assumes t: "transition_ok E owner token t"
  shows "triple (during (\<lambda>t'. t' = t) (failed_session E owner token w0 g)) (rollback_commit_failure E e)
     Q (\<lambda>_. during (transition_ok E owner token) (failed_session E owner token w0 g))"
  unfolding rollback_commit_failure_def
proof (rule during_this)
  fix t' assume "t' = t"
  let ?F = "failed_session E owner token w0 g" and ?A = "transition_ok E owner token"
  have u: "is_unix (os (bd E))" using t by (simp add: transition_ok_def)
  have taken: "triple (during ?A ?F) (bindE taken_runtime (\<lambda>_. failE e)) Q (\<lambda>_. during ?A ?F)"
    by (auto simp: triple_def bindE_def taken_runtime_def failE_def during_def transition_ok_def)
  show "triple (during (\<lambda>u. u = t') ?F)
      (tryE (on_world (rollback_started_owner E (tr_owner t'))) (\<lambda>rolled.
       (case rolled of
          Inl rollback_error \<Rightarrow>
            failE (Msg (show_err e @ ''; failed to roll back uncommitted owner core: '' @ show_err rollback_error))
        | Inr _ \<Rightarrow> bindE taken_runtime (\<lambda>_. failE e)))) Q (\<lambda>_. during ?A ?F)"
    unfolding \<open>t' = t\<close>
    by (rule triple_match [OF during_run [where A = ?A, OF rollback_world [OF u] t] taken]) (rule triple_failE)
qed

lemma steps_commit:
  "triple (during (transition_ok E owner token) (session_is E w0 None g)) (commit_new_owner E)
     (\<lambda>x. during (transition_ok E owner token) (new_session E owner token w0 g x))
     (\<lambda>_. during (transition_ok E owner token) (failed_session E owner token w0 g))"
  unfolding commit_new_owner_def
proof (rule during_this)
  fix t assume t: "transition_ok E owner token t"
  let ?A = "transition_ok E owner token" and ?T = "\<lambda>t'. t' = t"
  let ?F = "failed_session E owner token w0 g" and ?N = "new_session E owner token w0 g"
  have committed: "triple (session_is E w0 None g) (commit_active_owner_session E (tr_owner t) (tr_proposed_session_token t)) ?N (\<lambda>_. ?F)"
    by (rule triple_weaken [OF session_commit])
      (use t in \<open>auto simp: transition_ok_def new_session_def failed_session_def\<close>)
  have finish: "triple (during ?T (?N x)) (bindE taken_runtime (\<lambda>taken.
      bindE (liftE (ok_or (Msg ''prepared runtime disappeared during owner commit'') taken)) (\<lambda>prepared.
      bindE (on_world (service_msg (commit_prepared E prepared))) (\<lambda>_. okE x)))) (\<lambda>x. during ?A (?N x)) (\<lambda>_. during ?A ?F)" for x
  proof -
    define t' where "t' = t\<lparr>tr_prepared_runtime := None\<rparr>"
    have t': "?A t'" using t by (simp add: t'_def transition_ok_def)
    have take: "triple (during ?T (?N x)) taken_runtime
        (\<lambda>taken s. during (\<lambda>u. u = t') (?N x) s \<and> (\<forall>p. taken = Some p \<longrightarrow> prepared_ok E p)) (\<lambda>_. during ?A ?F)"
      using t by (auto simp: triple_def taken_runtime_def during_def t'_def transition_ok_def)
    have retire: "triple (during (\<lambda>u. u = t') (?N x)) (bindE (on_world (service_msg (commit_prepared E p))) (\<lambda>_. okE x))
        (\<lambda>x. during ?A (?N x)) (\<lambda>_. during ?A ?F)" if "prepared_ok E p" for p
    proof -
      have "neutral E (service_msg (commit_prepared E p)) (\<lambda>_. True)"
        unfolding service_msg_def by (rule neutral_mapErrE) (rule neutral_materialize(2) [OF that])
      then have "triple (?N x) (service_msg (commit_prepared E p)) (\<lambda>_. ?N x) (\<lambda>_. ?F)"
        by (rule triple_weaken [OF new_neutral]) (auto simp: failed_session_def)
      from during_run [OF this, of ?A t', OF t'] show ?thesis
        by (rule triple_bindE) (rule triple_okE)
    qed
    show ?thesis
    proof (rule triple_bindE [OF take])
      fix taken
      show "triple (\<lambda>s. during (\<lambda>u. u = t') (?N x) s \<and> (\<forall>p. taken = Some p \<longrightarrow> prepared_ok E p))
          (bindE (liftE (ok_or (Msg ''prepared runtime disappeared during owner commit'') taken)) (\<lambda>prepared.
          bindE (on_world (service_msg (commit_prepared E prepared))) (\<lambda>_. okE x)))
          (\<lambda>x. during ?A (?N x)) (\<lambda>_. during ?A ?F)"
      proof (cases taken)
        case None
        then show ?thesis
          using t' by (auto simp: triple_def bindE_def liftE_def during_def failed_session_def)
      next
        case (Some p)
        have "bindE (liftE (Inr p :: err + prepared_runtime)) k = k p" for k :: "prepared_runtime \<Rightarrow> active_owner_state transition"
          by (simp add: fun_eq_iff bindE_def liftE_def)
        with Some show ?thesis by (auto intro: triple_known retire)
      qed
    qed
  qed
  show "triple (during ?T (session_is E w0 None g)) (\<lambda>s. case tr_prepared_runtime t of
        None \<Rightarrow> failE (Msg ''prepared runtime is unavailable during owner commit'') s
      | Some prepared \<Rightarrow>
          tryE (on_world (persist_owner_core_started E (tr_owner t) (pr_clash_config prepared))) (\<lambda>persisted.
            (case persisted of
               Inl error \<Rightarrow> rollback_commit_failure E error
             | Inr _ \<Rightarrow>
                 tryE (on_world (commit_active_owner_session E (tr_owner t) (tr_proposed_session_token t))) (\<lambda>committed.
                   (case committed of
                      Inl error \<Rightarrow> rollback_commit_failure E error
                    | Inr active \<Rightarrow>
                        bindE taken_runtime (\<lambda>taken.
                        bindE (liftE (ok_or (Msg ''prepared runtime disappeared during owner commit'') taken)) (\<lambda>prepared.
                        bindE (on_world (service_msg (commit_prepared E prepared))) (\<lambda>_.
                          okE active))))))) s)
      (\<lambda>x. during ?A (?N x)) (\<lambda>_. during ?A ?F)"
  proof (cases "tr_prepared_runtime t")
    case None
    with t show ?thesis by (auto intro!: triple_failE simp: during_def failed_session_def)
  next
    case (Some prepared)
    have started: "triple (session_is E w0 None g) (persist_owner_core_started E (tr_owner t) (pr_clash_config prepared))
        (\<lambda>_. session_is E w0 None g) (\<lambda>_. ?F)"
      by (rule triple_weaken [OF session_neutral' [OF neutral_state_ops(6)]]) (auto simp: failed_session_def)
    show ?thesis
      unfolding Some option.case
      by (rule triple_match [OF during_run [OF started, of ?T t, OF refl]],
          rule triple_match [OF during_run [OF committed, of ?T t, OF refl]], rule finish)
        (rule steps_rollback [OF t])+
  qed
qed

lemma steps_apply:
  "triple (during (transition_ok E owner token) (new_session E owner token w0 g x)) (apply_new_proxy E)
     (\<lambda>_. during (transition_ok E owner token) (new_session E owner token w0 g x))
     (\<lambda>_. during (transition_ok E owner token) (new_session E owner token w0 g x))"
  unfolding apply_new_proxy_def
  by (rule during_this, rule during_run [OF new_neutral [OF neutral_proxy(3)]]) (auto simp: transition_ok_def)

lemma steps_clear:
  "triple (during (transition_ok E owner token) (session_is E w0 a g)) (on_world (clear_service_proxy E))
     (\<lambda>_. during (transition_ok E owner token) (session_is E w0 a g))
     (\<lambda>_. during (transition_ok E owner token) (session_is E w0 a g))"
  "triple (during (transition_ok E owner token) (session_is E w0 a g)) (on_world (compensate_service_proxy E))
     (\<lambda>_. during (transition_ok E owner token) (session_is E w0 a g))
     (\<lambda>_. during (transition_ok E owner token) (session_is E w0 a g))"
  by (rule during_const, rule session_neutral' [OF neutral_proxy(1)], simp add: transition_ok_def)
    (rule during_const, rule session_neutral' [OF neutral_proxy(2)], simp add: transition_ok_def)

interpretation start_steps: owner_proxy_steps
  "on_world (clear_service_proxy E)" "on_world (compensate_service_proxy E)" "stop_previous_core E" "start_new_core E"
  "commit_new_owner E" "apply_new_proxy E"
  "during (transition_ok E owner token) (session_is E w0 a g)"
  "during (transition_ok E owner token) (session_is E w0 None g)"
  "during (transition_ok E owner token) (failed_session E owner token w0 g)"
  "\<lambda>x. during (transition_ok E owner token) (new_session E owner token w0 g x)"
  for E owner token w0 a g
  by unfold_locales (rule steps_clear steps_stop steps_start steps_commit steps_apply)+

end
