(* ===== verification/Requests.thy ===== *)
theory Requests
  imports Sessions
begin

text \<open>
  What a request does to the session: the outcomes of a start and of a stop, the gates, and the whole
  service as a machine whose steps are requests and rounds of the watchdog.
\<close>

section \<open>Starting\<close>

definition response_code :: "http_response \<Rightarrow> u16" where
  "response_code r = (case hr_body r of JsonBody code message data \<Rightarrow> code | TextBody t \<Rightarrow> 0)"

lemma response_code_simps [simp]:
  "response_code (service_error_response e) = error_code_u16 (se_code e)"
  "response_code (ok_json d) = 0" "response_code (ok_empty m) = 0" "response_code (service_unavailable m) = 1"
  "response_code (bad_request m) = 400"
  by (simp_all add: response_code_def service_error_response_def json_response_def ok_json_def ok_empty_def
      service_unavailable_def bad_request_def)

text \<open>What a failing start may leave, by the code it reports.\<close>

definition start_failed ::
  "params \<Rightarrow> authenticated_owner \<Rightarrow> string \<Rightarrow> world \<Rightarrow> active_owner_state option \<Rightarrow> u64 \<Rightarrow> http_response \<Rightarrow> world \<Rightarrow> bool" where
  "start_failed E owner token w0 a g resp w \<longleftrightarrow>
     session_is E w0 a g w \<or>
     (response_code resp = 1006 \<and> failed_session E owner token w0 g w) \<or>
     (response_code resp = 1011 \<and> (\<exists>x. new_session E owner token w0 g x w))"

lemma run_transition_outcome:
  assumes t: "transition_ok E owner token t"
  shows "triple (session_is E w0 a g) (mapErrE service_error_response (run_transition E t))
    (\<lambda>(x, p). new_session E owner token w0 g x) (start_failed E owner token w0 a g)"
proof (rule triple_mapErrE)
  note out = start_steps.outcome [of E owner token w0 a g, folded start_owner_transition_def]
  show "triple (session_is E w0 a g) (run_transition E t) (\<lambda>(x, p). new_session E owner token w0 g x)
      (\<lambda>e. start_failed E owner token w0 a g (service_error_response e))"
    unfolding triple_def
  proof (intro allI impI)
    fix w xp e v assume w: "session_is E w0 a g w"
    obtain r t' u where run: "start_owner_transition E (t, w) = (r, (t', u))" by (metis prod.collapse)
    have d: "during (transition_ok E owner token) (session_is E w0 a g) (t, w)"
      using t w by (simp add: during_def)
    show "(run_transition E t w = (Inr xp, v) \<longrightarrow> (case xp of (x, p) \<Rightarrow> new_session E owner token w0 g x) v) \<and>
        (run_transition E t w = (Inl e, v) \<longrightarrow> start_failed E owner token w0 a g (service_error_response e) v)"
    proof (intro conjI impI)
      assume "run_transition E t w = (Inr xp, v)"
      with run have "start_owner_transition E (t, w) = (Inr xp, (t', v))" by (auto simp: run_transition_def)
      from triple_ok [OF out d this] show "(case xp of (x, p) \<Rightarrow> new_session E owner token w0 g x) v"
        by (cases xp) (simp add: during_def)
    next
      assume "run_transition E t w = (Inl e, v)"
      with run have "start_owner_transition E (t, w) = (Inl e, (t', v))" by (auto simp: run_transition_def)
      from triple_fails [OF out d this] show "start_failed E owner token w0 a g (service_error_response e) v"
        by (auto simp: start_steps.reported_def during_def start_failed_def failed_session_def)
    qed
  qed
qed

lemma start_locked_outcome:
  assumes unix: "is_unix (os (bd E))" and lib: "proxy_library E" and owner: "au_identity owner = UnixOwner uid gid"
  shows "triple (session_is E w0 a g) (start_locked E owner request)
    (\<lambda>resp w. \<exists>x. new_session E owner (sr_proposed_session_token request) w0 g x w \<and>
       (\<exists>p. resp = ok_json (Started \<lparr>res_generation = ao_generation x, res_proxy_outcome = p\<rparr>)))
    (start_failed E owner (sr_proposed_session_token request) w0 a g)"
proof -
  let ?token = "sr_proposed_session_token request"
  let ?F = "start_failed E owner ?token w0 a g" and ?N = "new_session E owner ?token w0 g"
  have same: "triple (session_is E w0 a g) m (\<lambda>x w. session_is E w0 a g w \<and> Q x) ?F" if "neutral E m Q" for m :: "'z flow" and Q
    by (rule triple_weaken [OF session_neutral [OF that]]) (auto simp: start_failed_def)
  have last: "triple (?N x) (tryE (cleanup_legacy_owner_files E owner) (\<lambda>_. okE (ok_json (Started
       \<lparr>res_generation = ao_generation x, res_proxy_outcome = p\<rparr>))))
      (\<lambda>resp w. \<exists>x. ?N x w \<and> (\<exists>p. resp = ok_json (Started \<lparr>res_generation = ao_generation x, res_proxy_outcome = p\<rparr>))) ?F" for x p
    by (rule triple_tryE [OF new_neutral [OF neutral_legacy [OF unix]]]; rule triple_okE) blast+
  show ?thesis
    unfolding start_locked_def
  proof (rule triple_bindE [OF same [OF neutral_mapErrE [OF neutral_state_ops(1)]]])
    fix previous
    let ?t = "\<lambda>p. \<lparr>tr_previous_owner = previous, tr_owner = owner, tr_prepared_runtime = Some p,
               tr_proposed_session_token = ?token, tr_macos_proxy = sr_macos_proxy request\<rparr>"
    have t: "transition_ok E owner ?token (?t p)" if "prepared_ok E p" for p
      using that unix lib by (simp add: transition_ok_def)
    have "triple (session_is E w0 a g) (bindE (mapErrE service_error_response (prepare_runtime E owner (sr_runtime request))) (\<lambda>p.
      bindE (mapErrE service_error_response (run_transition E (?t p))) (\<lambda>(x, p).
      tryE (cleanup_legacy_owner_files E owner) (\<lambda>_. okE (ok_json (Started
       \<lparr>res_generation = ao_generation x, res_proxy_outcome = p\<rparr>))))))
      (\<lambda>resp w. \<exists>x. ?N x w \<and> (\<exists>p. resp = ok_json (Started \<lparr>res_generation = ao_generation x, res_proxy_outcome = p\<rparr>))) ?F"
      by (intro triple_bindE [OF same [OF neutral_mapErrE [OF neutral_prepare [OF unix owner]]]] triple_known
          triple_bindE [OF run_transition_outcome [OF t]]) (auto intro: last)
    then show "triple (\<lambda>w. session_is E w0 a g w \<and> True) (bindE (mapErrE service_error_response (prepare_runtime E owner (sr_runtime request))) (\<lambda>p.
      bindE (mapErrE service_error_response (run_transition E (?t p))) (\<lambda>(x, p).
      tryE (cleanup_legacy_owner_files E owner) (\<lambda>_. okE (ok_json (Started
       \<lparr>res_generation = ao_generation x, res_proxy_outcome = p\<rparr>))))))
      (\<lambda>resp w. \<exists>x. ?N x w \<and> (\<exists>p. resp = ok_json (Started \<lparr>res_generation = ao_generation x, res_proxy_outcome = p\<rparr>))) ?F"
      by simp
  qed
qed

lemma neutral_value:
  assumes "neutral E m Q" and "\<And>w x v. m w = (Inr x, v) \<Longrightarrow> S x"
  shows "neutral E m (\<lambda>x. Q x \<and> S x)"
  using assms unfolding neutral_def triple_def by blast

text \<open>What a start request decodes and authenticates before it takes the lock changes nothing of the session.\<close>

lemma start_request:
  assumes unix: "is_unix (os (bd E))" and lib: "proxy_library E"
  shows "triple (session_is E w0 a g) (handle_start_clash E c body)
    (\<lambda>resp w. \<exists>request owner x. body = Inr request \<and>
       new_session E owner (sr_proposed_session_token (ar_payload request)) w0 g x w \<and>
       (\<exists>p. resp = ok_json (Started \<lparr>res_generation = ao_generation x, res_proxy_outcome = p\<rparr>)))
    (\<lambda>resp w. session_is E w0 a g w \<or>
       (\<exists>request owner. body = Inr request \<and>
          start_failed E owner (sr_proposed_session_token (ar_payload request)) w0 a g resp w))"
    (is "triple _ _ ?Q ?R")
proof -
  have same: "triple (session_is E w0 a g) m (\<lambda>x w. session_is E w0 a g w \<and> Q x) ?R" if "neutral E m Q" for m :: "'z flow" and Q
    by (rule triple_weaken [OF session_neutral [OF that]]) auto
  have auth: "neutral E (authenticate_request E c ar_credentials body)
      (\<lambda>(request, owner). body = Inr request \<and> (\<exists>uid gid. au_identity owner = UnixOwner uid gid))"
  proof (rule neutral_weaken [OF neutral_value [OF neutral_authenticate]])
    show "body = Inr (fst p)" if "authenticate_request E c ar_credentials body w = (Inr p, v)" for w p v
      using that by (cases body) (auto simp: authenticate_request_def bindE_Inr liftE_def)
  qed auto
  show ?thesis
    unfolding handle_start_clash_def
  proof (rule triple_bindE [OF same [OF auth]], rule triple_known)
    fix q :: "start_clash_request authenticated_request \<times> authenticated_owner"
    assume q: "case q of (request, owner) \<Rightarrow> body = Inr request \<and> (\<exists>uid gid. au_identity owner = UnixOwner uid gid)"
    obtain request owner where qq: "q = (request, owner)" by (cases q)
    with q obtain uid gid where body: "body = Inr request" and owner: "au_identity owner = UnixOwner uid gid" by auto
    have proxy: "neutral E (case sr_macos_proxy (ar_payload request) of
              None \<Rightarrow> okE ()
            | Some proxy \<Rightarrow> liftE (map_err (\<lambda>e. service_error_response (se_invalid_proxy_config (show_outer e)))
                (validate_proxy_config E proxy))) (\<lambda>_. True)"
      by (intro neutral_case_option neutral_okE neutral_liftE TrueI)
    have locked: "triple (session_is E w0 a g) (start_locked E owner (ar_payload request)) ?Q ?R"
      by (rule triple_weaken [OF start_locked_outcome [OF unix lib owner]]) (use body in auto)
    show "triple (session_is E w0 a g) (case q of (request, owner) \<Rightarrow>
        let start_request = ar_payload request in
        bindE (liftE (map_err (\<lambda>_. bad_request ''Invalid proposed owner session token'')
              (hash_session_token (sha256 E) (sr_proposed_session_token start_request)))) (\<lambda>_.
        bindE (case sr_macos_proxy start_request of
              None \<Rightarrow> okE ()
            | Some proxy \<Rightarrow> liftE (map_err (\<lambda>e. service_error_response (se_invalid_proxy_config (show_outer e)))
                (validate_proxy_config E proxy))) (\<lambda>_.
        bindE (enter_owner_lifecycle E owner Unchecked) (\<lambda>_.
          start_locked E owner start_request)))) ?Q ?R"
      unfolding qq prod.case Let_def
      by (intro triple_bindE [OF same [OF neutral_liftE [where Q = "\<lambda>_. True"]]] triple_bindE [OF same [OF proxy]]
          triple_bindE [OF same [OF neutral_gate]] triple_known locked TrueI)
  qed
qed

text \<open>
  C5. The outcome of a start request. A request that is answered with success has stored a new session for the
  authenticated owner: the next generation, which the answer carries, and the hash of the token the
  client proposed. A request that is refused leaves the session as it was, unless its code says more:
  \<open>OwnerSwitchFailed\<close> (1006) may have ended the previous session, and \<open>ProxyApplyFailed\<close> (1011) has begun the new one.
  (After 1006 the new record can be there only if both writing it and removing it again failed half way.)
\<close>

theorem start_request_outcome:
  assumes "is_unix (os (bd E))" and "proxy_library E" and "honest w" and "sockets_ok E w"
    and "handle_start_clash E c body w = (r, v)"
  shows "case r of
      Inr resp \<Rightarrow> \<exists>request x p. body = Inr request \<and> stored_active E v = Some x \<and> stored_generation E v = ao_generation x \<and>
        ao_generation x = saturating_inc (stored_generation E w) \<and>
        hash_session_token (sha256 E) (sr_proposed_session_token (ar_payload request)) = Inr (ao_session_token_hash x) \<and>
        resp = ok_json (Started \<lparr>res_generation = ao_generation x, res_proxy_outcome = p\<rparr>)
    | Inl resp \<Rightarrow> (stored_active E v = stored_active E w \<and> stored_generation E v = stored_generation E w) \<or>
        (response_code resp = 1006 \<and> stored_active E v = None) \<or>
        (response_code resp \<in> {1006, 1011} \<and>
         (\<exists>x. stored_active E v = Some x \<and> ao_generation x = saturating_inc (stored_generation E w)))"
proof -
  let ?a = "stored_active E w" and ?g = "stored_generation E w"
  have w: "session_is E w ?a ?g w" using assms(3,4) by (simp add: session_is_def)
  note t = start_request [OF assms(1,2), of w ?a ?g c body]
  show ?thesis
  proof (cases r)
    case (Inr resp)
    with triple_ok [OF t w] assms(5) show ?thesis
      by (fastforce simp: new_session_def session_is_def session_of_def)
  next
    case (Inl resp)
    with triple_fails [OF t w] assms(5) show ?thesis
      by (auto simp: start_failed_def failed_session_def new_session_def session_is_def session_of_def)
  qed
qed

text \<open>A request without the protocol header, for the witnesses.\<close>

definition bare_context :: request_context where
  "bare_context = \<lparr>rq_headers = (\<lambda>_. None), rq_peer_uid = Some 501, rq_peer_gid = Some 20\<rparr>"

lemma proxies_only:
  "\<exists>s a n. w\<lparr>sys_proxy := p\<rparr> = (w :: world)\<lparr>sys_proxy := s, pac_proxy := a, tick := n\<rparr>"
  "\<exists>s a n. w\<lparr>pac_proxy := q\<rparr> = (w :: world)\<lparr>sys_proxy := s, pac_proxy := a, tick := n\<rparr>"
  by (rule exI [of _ p], rule exI [of _ "pac_proxy w"], rule exI [of _ "tick w"], simp)
    (rule exI [of _ "sys_proxy w"], rule exI [of _ q], rule exI [of _ "tick w"], simp)

lemma plain_service [simp]:
  "is_unix (os (bd plain_params))" "proxy_library plain_params"
  "honest (calm_world F)" "sockets_ok plain_params (calm_world F)"
  "stored_active plain_params (calm_world Map.empty) = None"
  by (auto simp: plain_params_def proxy_library_def modify_def proxies_only honest_def calm_world_def calm_env_def sockets_ok_def
      known_configs_def handle_def idle_manager_def stored_active_def stored_def file_data_def)

theorem start_request_outcome_witness:
  "stored_active plain_params (snd (handle_start_clash plain_params bare_context (Inl ''eof'') (calm_world Map.empty))) = None"
proof -
  have run: "handle_start_clash plain_params bare_context (Inl ''eof'') (calm_world Map.empty) =
      (Inl (service_error_response se_protocol_mismatch), calm_world Map.empty)"
    by (simp add: handle_start_clash_def authenticate_request_def require_protocol_version_def bare_context_def
        bindE_def liftE_def)
  from start_request_outcome [OF plain_service(1,2,3,4) run] show ?thesis by (simp add: run)
qed

section \<open>The session gate\<close>

lemma load_active_stored:
  assumes "load_active_owner E w = (Inr found, v)" and "found \<noteq> None"
  shows "stored_active E w = found"
proof -
  let ?p = "active_owner_path (paths_of E)"
  from assms(1) obtain w1 where 1: "secure_state_file_if_exists ?p w = (Inr (), w1)"
    and 2: "tryE (fs_read ?p) (\<lambda>r.
        (case r of
           Inr c \<Rightarrow> liftE (ok_or (Msg ''failed to parse active owner'')
                       (map_option Some (Option.bind (content_json c) de_active)))
         | Inl k \<Rightarrow>
             if k = NotFound then okE None else failE (Ctx ''failed to read active owner'' (Io k)))) w1 = (Inr found, v)"
    by (auto simp: load_active_owner_def Let_def bindE_Inr)
  obtain r2 w2 where 3: "fs_read ?p w1 = (r2, w2)" by (cases "fs_read ?p w1")
  with 2 assms(2) obtain c where c: "r2 = Inr c" "Option.bind (content_json c) de_active = found"
    by (cases r2) (auto simp: tryE_eq liftE_def okE_def failE_def split: if_splits elim!: ok_or.elims)
  from fs_read_ok [OF 3 [unfolded c(1)]] have "file_data ?p w1 = Some (RegularFile, c)"
    by (auto simp: file_data_def)
  with keepsD [OF secure_state_data 1] c(2) show ?thesis
    by (simp add: stored_active_def stored_def)
qed

lemma session_gate_passes:
  "(\<exists>v. require_active_session E owner p w = (Inr a, v)) \<longleftrightarrow>
   (\<exists>v. load_active_owner E w = (Inr (Some a), v)) \<and> stored_active E w = Some a \<and>
   ao_owner_key a = au_key owner \<and> ao_generation a = proof_generation p \<and>
   hash_session_token (sha256 E) (proof_token p) = Inr (ao_session_token_hash a)"
proof -
  have eq: "constant_time_eq (map byte_of s) (map byte_of t) \<longleftrightarrow> s = t" for s t
    using inj_map_eq_map [of byte_of s t] byte_of_inj by (auto simp: constant_time_eq_iff inj_def)
  have "(\<exists>v. require_active_session E owner p w = (Inr a, v)) \<longleftrightarrow>
      (\<exists>v. load_active_owner E w = (Inr (Some a), v)) \<and>
      ao_owner_key a = au_key owner \<and> ao_generation a = proof_generation p \<and>
      hash_session_token (sha256 E) (proof_token p) = Inr (ao_session_token_hash a)"
  proof (cases "load_active_owner E w")
    case (Pair r v)
    have gate: "require_active_session E owner p w = (case r of
        Inl e \<Rightarrow> (Inl se_stale_owner_session, v)
      | Inr None \<Rightarrow> (Inl se_stale_owner_session, v)
      | Inr (Some x) \<Rightarrow> (case hash_session_token (sha256 E) (proof_token p) of
            Inl e \<Rightarrow> (Inl se_stale_owner_session, v)
          | Inr h \<Rightarrow> ((if ao_owner_key x = au_key owner \<and> ao_generation x = proof_generation p \<and>
                ao_session_token_hash x = h then Inr x else Inl se_stale_owner_session), v)))"
      unfolding require_active_session_def eq
      by (auto simp: Pair bindE_def mapErrE_def liftE_def okE_def failE_def
          split: sum.splits option.splits)
    then show ?thesis by (auto simp: Pair split: sum.splits option.splits)
  qed
  then show ?thesis using load_active_stored [of E w "Some a"] by blast
qed

text \<open>
  C4. Exactly the proof of the active session passes the gate: the request's owner is the active one, the
  generation is the stored one, and the token's hash, compared without leaking timing, is the stored hash.
  Whoever passes is the owner of the record that is on disk, and the gate itself changes no contents of
  any file.
\<close>

theorem session_gate_exact:
  "(\<exists>v. require_active_session E owner p w = (Inr a, v)) \<longleftrightarrow>
   (\<exists>v. load_active_owner E w = (Inr (Some a), v)) \<and> stored_active E w = Some a \<and>
   ao_owner_key a = au_key owner \<and> ao_generation a = proof_generation p \<and>
   hash_session_token (sha256 E) (proof_token p) = Inr (ao_session_token_hash a)"
  by (rule session_gate_passes)

end
