(* ===== verification/Service.thy ===== *)
theory Service
  imports Requests
begin

text \<open>
  The whole service as a machine. A step serves one request or lets one watchdog have a round. The
  machine refines an abstract one whose state is the active owner's record and the generation counter
  (\<open>session_spec\<close>), in two stages: requests and rounds are runs of session steps, and session steps are
  runs of the specification.
\<close>

section \<open>Refinement\<close>

text \<open>
  Every step from a good state is matched by a run of the abstract machine, and good states stay good.
\<close>

locale stepwise_refinement =
  fixes concrete :: "'c \<Rightarrow> 'c \<Rightarrow> bool" and abstract :: "'a \<Rightarrow> 'a \<Rightarrow> bool"
    and view :: "'c \<Rightarrow> 'a" and good :: "'c \<Rightarrow> bool"
  assumes simulates: "good w \<Longrightarrow> concrete w v \<Longrightarrow> good v \<and> abstract\<^sup>*\<^sup>* (view w) (view v)"
begin

lemma runs:
  assumes "concrete\<^sup>*\<^sup>* w v" and "good w"
  shows "good v \<and> abstract\<^sup>*\<^sup>* (view w) (view v)"
  using assms(1)
proof (induction rule: rtranclp_induct)
  case base
  then show ?case using assms(2) by simp
next
  case (step x y)
  then show ?case using simulates [of x y] by (meson rtranclp_trans)
qed

lemma invariant:
  assumes step: "\<And>s t. I s \<Longrightarrow> abstract s t \<Longrightarrow> I t"
    and run: "concrete\<^sup>*\<^sup>* w v" "good w" and start: "I (view w)"
  shows "I (view v)"
proof -
  have "abstract\<^sup>*\<^sup>* (view w) (view v)" using runs [OF run] by simp
  then show ?thesis by (induction rule: rtranclp_induct) (use start step in auto)
qed

end

section \<open>The specification of the sessions\<close>

type_synonym session_state = "active_owner_state option \<times> u64"

definition session_view :: "params \<Rightarrow> world \<Rightarrow> session_state" where
  "session_view E w = (stored_active E w, stored_generation E w)"

text \<open>
  A session begins with the next generation and the hash of a well-formed token. The counter may be
  written without the record that was to follow it.
\<close>

inductive session_spec :: "params \<Rightarrow> session_state \<Rightarrow> session_state \<Rightarrow> bool" for E where
  begin_session: "ao_generation x = saturating_inc g \<Longrightarrow>
    hash_session_token (sha256 E) token = Inr (ao_session_token_hash x) \<Longrightarrow>
    session_spec E (a, g) (Some x, saturating_inc g)"
| reserve_generation: "session_spec E (a, g) (a, saturating_inc g)"
| end_session: "session_spec E (a, g) (None, g)"

inductive_cases session_specE: "session_spec E s t"

lemma session_step_simulated:
  assumes "honest w" and "session_step E w v"
  shows "honest v \<and> (session_spec E)\<^sup>*\<^sup>* (session_view E w) (session_view E v)"
proof (intro conjI)
  show "honest v" using session_step_honest [OF assms(2,1)] .
  let ?a = "stored_active E w" and ?g = "stored_generation E w"
  from assms(2) show "(session_spec E)\<^sup>*\<^sup>* (session_view E w) (session_view E v)"
  proof (cases rule: session_step.cases)
    case (commit owner token r)
    from session_commit_outcome [OF assms(1) commit] consider
        "stored_active E v = ?a" "stored_generation E v = ?g"
      | "stored_active E v = ?a" "stored_generation E v = saturating_inc ?g"
      | x where "stored_active E v = Some x" "stored_generation E v = saturating_inc ?g"
          "ao_generation x = saturating_inc ?g" "hash_session_token (sha256 E) token = Inr (ao_session_token_hash x)"
      by (auto split: sum.splits)
    then show ?thesis
      by cases (auto simp: session_view_def intro: r_into_rtranclp session_spec.intros)
  next
    case (clear r)
    from clear_run [OF clear] show ?thesis
      by (auto simp: session_view_def) (blast intro: r_into_rtranclp session_spec.intros)
  next
    case (update key f r)
    from keepsD [OF update_elsewhere(1) update] keepsD [OF update_elsewhere(2) update]
    show ?thesis using stored_views [of E v w] by (simp add: session_view_def)
  next
    case other
    then show ?thesis by (simp add: session_view_def)
  qed
qed

interpretation session_files: stepwise_refinement "session_step E" "session_spec E" "session_view E" honest for E
  by unfold_locales (rule session_step_simulated)

section \<open>The service\<close>

inductive service_step :: "params \<Rightarrow> world \<Rightarrow> world \<Rightarrow> bool" for E where
  request: "serve E c q w = (r, v) \<Longrightarrow> service_step E w v"
| watchdog: "watchdog_turn E w = (r, v) \<Longrightarrow> service_step E w v"
| detached: "detached_turn E w = (r, v) \<Longrightarrow> service_step E w v"

inductive_cases service_stepE: "service_step E w v"

lemma quiet_detached:
  assumes q: "state_file E q"
  shows "triple (quiet E q d) (detached_turn E) (\<lambda>_. quiet E q d) (\<lambda>_. quiet E q d)"
proof -
  have taken: "triple (\<lambda>w. wd # rest = detached_watchdogs w \<and> quiet E q d w)
      (modify (\<lambda>w. w\<lparr>detached_watchdogs := rest\<rparr>))
      (\<lambda>_ w. quiet E q d w \<and> core_socket E (wd_config wd)) (\<lambda>_. quiet E q d)" for wd rest
    by (auto simp: triple_def modify_def quiet_def file_data_def sockets_ok_def known_configs_def handle_def
        eq_commute [of "wd # rest"])
  have put: "triple (\<lambda>w. quiet E q d w \<and> task_ok E task)
      (modify (\<lambda>w. w\<lparr>detached_watchdogs := detached_watchdogs w @
        (case task of WatchdogRunning wd' \<Rightarrow> [wd'] | WatchdogDone r \<Rightarrow> [])\<rparr>)) (\<lambda>_. quiet E q d) (\<lambda>_. quiet E q d)" for task
    by (cases task)
      (auto simp: triple_def modify_def quiet_def file_data_def sockets_ok_def known_configs_def handle_def task_ok_def)
  have round: "triple (\<lambda>w. wd # rest = detached_watchdogs w \<and> quiet E q d w)
      (bindE (modify (\<lambda>w. w\<lparr>detached_watchdogs := rest\<rparr>)) (\<lambda>_.
       bindE (watchdog_step E True wd) (\<lambda>task. modify (\<lambda>w. w\<lparr>detached_watchdogs := detached_watchdogs w @
         (case task of WatchdogRunning wd' \<Rightarrow> [wd'] | WatchdogDone r \<Rightarrow> [])\<rparr>))))
      (\<lambda>_. quiet E q d) (\<lambda>_. quiet E q d)" for wd rest
    by (intro triple_bindE [OF taken] triple_known triple_bindE [OF quiet_step [OF q]] put)
  show ?thesis
    unfolding detached_turn_def
  proof (rule triple_bindE [OF triple_get])
    fix ds
    show "triple (\<lambda>w. ds = detached_watchdogs w \<and> quiet E q d w)
        (case ds of [] \<Rightarrow> okE () | wd # rest \<Rightarrow>
            bindE (modify (\<lambda>w. w\<lparr>detached_watchdogs := rest\<rparr>)) (\<lambda>_.
            bindE (watchdog_step E True wd) (\<lambda>task.
              modify (\<lambda>w. w\<lparr>detached_watchdogs := detached_watchdogs w @
                (case task of WatchdogRunning wd' \<Rightarrow> [wd'] | WatchdogDone r \<Rightarrow> [])\<rparr>))))
        (\<lambda>_. quiet E q d) (\<lambda>_. quiet E q d)"
      by (cases ds) (auto intro: triple_okE round)
  qed
qed

lemma env_detached [frame]: "keeps env (detached_turn E)"
  unfolding detached_turn_def by (intro frame) simp_all

lemma neutral_detached:
  "is_unix (os (bd E)) \<Longrightarrow> neutral E (detached_turn E) (\<lambda>_. True)"
  by (intro neutral_quiet quiet_detached env_detached)

text \<open>Every route but two leaves the session alone.\<close>

lemma neutral_authenticated:
  assumes "\<And>q owner. neutral E (k q owner) (\<lambda>_. True)"
  shows "neutral E (bindE (authenticate_request E c credentials body) (\<lambda>(q, owner). k q owner)) (\<lambda>_. True)"
  using assms by (auto intro: neutral_bindE [OF neutral_authenticate])

lemma neutral_handlers:
  assumes unix: "is_unix (os (bd E))" and lib: "proxy_library E"
  shows "neutral E (handle_magic c) (\<lambda>_. True)" "neutral E (handle_version E c) (\<lambda>_. True)"
    "neutral E (handle_status E c unit_body) (\<lambda>_. True)" "neutral E (handle_logs E c unit_body) (\<lambda>_. True)"
    "neutral E (handle_log_snapshot E c unit_body) (\<lambda>_. True)"
    "neutral E (handle_stage_runtime E c bundle_body) (\<lambda>_. True)"
    "neutral E (handle_update_writer E c writer_body) (\<lambda>_. True)"
    "neutral E (handle_set_proxy E c proxy_body) (\<lambda>_. True)"
proof -
  show "neutral E (handle_magic c) (\<lambda>_. True)" "neutral E (handle_version E c) (\<lambda>_. True)"
    unfolding handle_magic_def handle_version_def
    by (intro neutral_bindE [OF neutral_liftE [where Q = "\<lambda>_. True"]] neutral_okE TrueI)+
  note gated = neutral_authenticated neutral_bindE [OF neutral_gate]
  show "neutral E (handle_status E c unit_body) (\<lambda>_. True)" "neutral E (handle_logs E c unit_body) (\<lambda>_. True)"
    "neutral E (handle_log_snapshot E c unit_body) (\<lambda>_. True)"
    unfolding handle_status_def handle_logs_def handle_log_snapshot_def
    by (intro gated neutral_tryE [OF neutral_status] neutral_tryE [OF neutral_snapshot] neutral_bindE [OF neutral_get]
        neutral_okE TrueI)+
  show "neutral E (handle_stage_runtime E c bundle_body) (\<lambda>_. True)"
    unfolding handle_stage_runtime_def
    by (intro gated neutral_bindE [OF neutral_mapErrE [OF neutral_stage [OF unix]]] neutral_okE TrueI)
  show "neutral E (handle_update_writer E c writer_body) (\<lambda>_. True)"
    unfolding handle_update_writer_def update_writer_locked_def Let_def
    by (intro gated neutral_bindE [OF neutral_mapErrE [OF neutral_cells(2)]]
        neutral_bindE [OF neutral_mapErrE [OF neutral_state_ops(7)]] neutral_okE TrueI)
  show "neutral E (handle_set_proxy E c proxy_body) (\<lambda>_. True)"
    unfolding handle_set_proxy_def
    by (intro gated neutral_bindE [OF neutral_liftE [where Q = "\<lambda>_. True"]]
        neutral_bindE [OF neutral_mapErrE [OF neutral_proxy(3) [OF lib]]] neutral_okE TrueI)
qed

text \<open>\<open>reached E w0 w\<close>: the service has come from \<open>w0\<close> to \<open>w\<close> by session steps.\<close>

definition reached :: "params \<Rightarrow> world \<Rightarrow> world \<Rightarrow> bool" where
  "reached E w0 w \<longleftrightarrow> (\<exists>a g. session_is E w0 a g w)"

lemma reached_iff: "reached E w0 w \<longleftrightarrow> (session_step E)\<^sup>*\<^sup>* w0 w \<and> sockets_ok E w \<and> honest w"
  by (simp add: reached_def session_is_def)

lemma reached_neutral:
  assumes "neutral E m (\<lambda>_. True)" and "m w = (r, v)" and "reached E w0 w"
  shows "reached E w0 v"
  using assms triple_either [OF session_neutral' [OF assms(1)]] unfolding reached_def by blast

lemma reached_respond:
  assumes "\<And>a g. triple (session_is E w0 a g) m (\<lambda>_. reached E w0) (\<lambda>_. reached E w0)"
    and "respond m w = (r, v)" and "reached E w0 w"
  shows "reached E w0 v"
proof -
  from assms(2) obtain x where "m w = (x, v)" by (cases "m w") (auto simp: respond_def tryE_eq okE_def)
  with assms(3) triple_either [OF assms(1)] show ?thesis unfolding reached_def [of E w0 w] by blast
qed

lemma stop_outcome:
  assumes unix: "is_unix (os (bd E))" and lib: "proxy_library E"
  shows "triple (session_is E w0 a g) (handle_stop_clash E c body) (\<lambda>_. session_is E w0 None g) (\<lambda>_. session_is E w0 a g)"
proof -
  note same = session_neutral'
  have fatal: "triple (session_is E w0 a g) (bindE (modify (set_core_lifecycle_state Fatal)) (\<lambda>_. failE r :: http_response flow))
      (\<lambda>_. session_is E w0 None g) (\<lambda>_. session_is E w0 a g)" for r
    by (intro triple_bindE [OF same [OF neutral_set_cell]] triple_failE)
  have locked: "triple (session_is E w0 a g) (stop_locked E owner) (\<lambda>_. session_is E w0 None g) (\<lambda>_. session_is E w0 a g)" for owner
    unfolding stop_locked_def
    by (intro triple_bindE [OF same [OF neutral_mapErrE [OF neutral_proxy(4) [OF lib]]]]
        triple_bindE [OF same [OF neutral_mapErrE [OF neutral_manager(1) [OF unix]]]]
        triple_match [OF same [OF neutral_state_ops(4)]] triple_match [OF session_clear] fatal triple_okE)
  show ?thesis
    unfolding handle_stop_clash_def
    by (rule triple_bindE [OF same [OF neutral_authenticate]])
      (auto intro!: triple_bindE [OF same [OF neutral_gate]] locked)
qed

lemma serve_reached:
  assumes unix: "is_unix (os (bd E))" and lib: "proxy_library E"
    and run: "serve E c q w = (r, v)" and w: "reached E w0 w"
  shows "reached E w0 v"
proof -
  note n = reached_neutral [OF neutral_respond _ w] reached_neutral [OF _ _ w]
  note handlers = neutral_handlers [OF unix lib]
  have started: "triple (session_is E w0 a g) (handle_start_clash E c body) (\<lambda>_. reached E w0) (\<lambda>_. reached E w0)" for a g body
    by (rule triple_weaken [OF start_request [OF unix lib]])
      (auto simp: reached_def new_session_def start_failed_def failed_session_def)
  have stopped: "triple (session_is E w0 a g) (handle_stop_clash E c body) (\<lambda>_. reached E w0) (\<lambda>_. reached E w0)" for a g body
    by (rule triple_weaken [OF stop_outcome [OF unix lib]]) (auto simp: reached_def)
  show ?thesis
    using run by (cases q) (auto intro: n handlers reached_respond [OF started _ w] reached_respond [OF stopped _ w])
qed

definition service_ok :: "params \<Rightarrow> world \<Rightarrow> bool" where
  "service_ok E w \<longleftrightarrow> is_unix (os (bd E)) \<and> proxy_library E \<and> honest w \<and> sockets_ok E w"

lemma service_step_simulated:
  assumes ok: "service_ok E w" and step: "service_step E w v"
  shows "service_ok E v \<and> (session_step E)\<^sup>*\<^sup>* w v"
proof -
  from ok have env: "is_unix (os (bd E))" "proxy_library E" and w: "reached E w w"
    by (simp_all add: service_ok_def reached_iff)
  from step have "reached E w v"
  proof (cases rule: service_step.cases)
    case (request c q r)
    then show ?thesis using serve_reached [OF env _ w] by blast
  next
    case (watchdog r)
    then show ?thesis by (rule reached_neutral [OF neutral_manager(2) [OF env(1)] _ w])
  next
    case (detached r)
    then show ?thesis by (rule reached_neutral [OF neutral_detached [OF env(1)] _ w])
  qed
  with env show ?thesis by (simp add: service_ok_def reached_iff)
qed

interpretation service: stepwise_refinement "service_step E" "session_step E" "\<lambda>w. w" "service_ok E" for E
  by unfold_locales (rule service_step_simulated)

lemma service_run_sessions:
  assumes "(service_step E)\<^sup>*\<^sup>* w v" and "service_ok E w"
  shows "service_ok E v" "(session_step E)\<^sup>*\<^sup>* w v" "(session_spec E)\<^sup>*\<^sup>* (session_view E w) (session_view E v)"
proof -
  from service.runs [OF assms] show "service_ok E v" and s: "(session_step E)\<^sup>*\<^sup>* w v" by simp_all
  from assms(2) have "honest w" by (simp add: service_ok_def)
  with session_files.runs [OF s] show "(session_spec E)\<^sup>*\<^sup>* (session_view E w) (session_view E v)" by blast
qed

section \<open>Requests that are refused\<close>

text \<open>
  What a request can be seen to do: the contents of files, the manager and its processes, the settings of
  the machine, the writer and its log, and the lifecycle states.
\<close>

definition apart_from_files ::
  "world \<Rightarrow> core_manager \<times> (u32 list \<times> u32 list \<times> watchdog list) \<times> (nat \<times> u32 \<times> signal) list \<times>
     (writer_config option \<times> string list) \<times> (system_proxy \<times> auto_proxy) \<times> (u8 \<times> u8)" where
  "apart_from_files w = (mgr w, (children w, dropped_children w, detached_watchdogs w), signals w,
     (log_writer w, core_logs w), (sys_proxy w, pac_proxy w), (service_cell w, core_cell w))"

definition unaffected :: "world \<Rightarrow> world \<Rightarrow> bool" where
  "unaffected w v \<longleftrightarrow> (\<forall>q. file_data q v = file_data q w) \<and> apart_from_files v = apart_from_files w"

lemma unaffected_refl [simp]: "unaffected w w"
  by (simp add: unaffected_def)

lemma unaffected_trans: "unaffected u w \<Longrightarrow> unaffected w v \<Longrightarrow> unaffected u v"
  by (simp add: unaffected_def)

lemma blind_apart [simp]: "blind_to_state_files apart_from_files"
  by (simp add: blind_to_state_files_def blind_to_files_def apart_from_files_def)

lemma unaffected_keeps:
  "(\<And>q. keeps (file_data q) m) \<Longrightarrow> keeps apart_from_files m \<Longrightarrow> m w = (r, v) \<Longrightarrow> unaffected w v"
  unfolding unaffected_def by (blast dest: keepsD)

lemma unaffected_session: "unaffected w v \<Longrightarrow> stored_active E v = stored_active E w"
  by (auto simp: unaffected_def intro: stored_views)

lemma authenticate_unaffected:
  assumes "authenticate_request E c credentials body w = (r, v)"
  shows "unaffected w v"
proof -
  have "keeps (file_data q) (authenticate_request E c credentials body)" for q
    unfolding authenticate_request_def by (intro frame) (simp add: file_data_def)
  moreover have "keeps apart_from_files (authenticate_request E c credentials body)"
    unfolding authenticate_request_def by (intro frame) (simp add: apart_from_files_def)
  ultimately show ?thesis using assms by (rule unaffected_keeps)
qed

lemma gate_unaffected:
  assumes "enter_owner_lifecycle E owner (ActiveSession p) w = (r, v)"
  shows "unaffected w v"
proof -
  have load: "keeps apart_from_files (load_active_owner E)" by (rule blind_desired_ops) simp
  have "keeps (file_data q) (enter_owner_lifecycle E owner (ActiveSession p))" for q
    unfolding enter_owner_lifecycle_def require_active_session_def owner_lifecycle_gate.case by (intro frame files)
  moreover have "keeps apart_from_files (enter_owner_lifecycle E owner (ActiveSession p))"
    unfolding enter_owner_lifecycle_def require_active_session_def owner_lifecycle_gate.case by (intro frame load)
  ultimately show ?thesis using assms by (rule unaffected_keeps)
qed

text \<open>The session that a request claims, on the routes that require one.\<close>

fun claimed_session :: "ipc_request \<Rightarrow> owner_session_proof option" where
  "claimed_session (StopClashRequest (Inr request)) = Some (as_session request)"
| "claimed_session (StageRuntimeRequest (Inr request)) = Some (as_session request)"
| "claimed_session (UpdateWriterRequest (Inr request)) = Some (as_session request)"
| "claimed_session (SetProxyRequest (Inr request)) = Some (as_session request)"
| "claimed_session _ = None"

definition names_session :: "params \<Rightarrow> owner_session_proof \<Rightarrow> active_owner_state \<Rightarrow> bool" where
  "names_session E p a \<longleftrightarrow> ao_generation a = proof_generation p \<and>
     hash_session_token (sha256 E) (proof_token p) = Inr (ao_session_token_hash a)"

lemma gate_refuses:
  assumes "\<nexists>a. stored_active E w = Some a \<and> names_session E p a"
  shows "\<exists>v. enter_owner_lifecycle E owner (ActiveSession p) w = (Inl (service_error_response se_stale_owner_session), v)"
proof -
  obtain r v where run: "require_active_session E owner p w = (r, v)" by (cases "require_active_session E owner p w")
  have refused: "r = Inl se_stale_owner_session"
  proof (cases r)
    case (Inr a)
    with run have "require_active_session E owner p w = (Inr a, v)" by simp
    then have "\<exists>v. require_active_session E owner p w = (Inr a, v)" by blast
    then have "stored_active E w = Some a \<and> names_session E p a"
      unfolding session_gate_passes names_session_def by blast
    with assms show ?thesis by blast
  next
    case (Inl e)
    with run show ?thesis
      by (auto simp: require_active_session_def bindE_def mapErrE_def liftE_def okE_def failE_def
          split: prod.splits sum.splits if_splits elim!: ok_or.elims map_err.elims)
  qed
  with run show ?thesis
    by (simp add: enter_owner_lifecycle_def bindE_def mapErrE_def okE_def failE_def)
qed

lemma authenticate_status:
  assumes "authenticate_request E c credentials (Inr request) w = (Inl resp, v)"
  shows "hr_status resp \<in> {401, 422}"
proof (cases "require_protocol_version c")
  case (Inl e)
  then have "e = se_protocol_mismatch"
    by (auto simp: require_protocol_version_def ensure_def split: option.splits if_splits)
  with assms Inl show ?thesis
    by (auto simp: authenticate_request_def bindE_def liftE_def service_error_response_def json_response_def)
next
  case (Inr u)
  obtain r v' where run: "authenticate_owner E c (credentials request) w = (r, v')" by (cases "authenticate_owner E c (credentials request) w")
  with assms Inr obtain e where "r = Inl e" "resp = service_error_response e"
    by (auto simp: authenticate_request_def bindE_def liftE_def mapErrE_def okE_def split: sum.splits elim!: map_err.elims)
  with owner_auth_code [of E c "credentials request" w e] run show ?thesis
    by (simp add: service_error_response_def json_response_def)
qed

lemma refused_flow:
  assumes refused: "\<nexists>a. stored_active E w = Some a \<and> names_session E (claim request) a"
    and run: "respond (bindE (authenticate_request E c credentials (Inr request)) (\<lambda>(q, owner).
      bindE (enter_owner_lifecycle E owner (ActiveSession (claim q))) (\<lambda>_. k q owner))) w = (r, v)"
  shows "unaffected w v \<and> (\<exists>resp. r = Inr resp \<and> hr_status resp \<in> {401, 422})"
proof -
  obtain ra wa where auth: "authenticate_request E c credentials (Inr request) w = (ra, wa)"
    by (cases "authenticate_request E c credentials (Inr request) w")
  note ua = authenticate_unaffected [OF auth]
  show ?thesis
  proof (cases ra)
    case (Inl resp)
    with run auth have "v = wa" "r = Inr resp" by (simp_all add: respond_def tryE_def bindE_def okE_def)
    with ua authenticate_status [OF auth [unfolded Inl]] show ?thesis by simp
  next
    case (Inr x)
    then obtain owner where x: "x = (request, owner)"
      using auth by (cases x) (auto simp: authenticate_request_def bindE_Inr liftE_def)
    from refused unaffected_session [OF ua] have "\<nexists>a. stored_active E wa = Some a \<and> names_session E (claim request) a" by simp
    from gate_refuses [OF this] obtain wb where
      gate: "enter_owner_lifecycle E owner (ActiveSession (claim request)) wa = (Inl (service_error_response se_stale_owner_session), wb)"
      by blast
    from run auth gate Inr x have "v = wb" "r = Inr (service_error_response se_stale_owner_session)"
      by (simp_all add: respond_def tryE_def bindE_def okE_def)
    with unaffected_trans [OF ua gate_unaffected [OF gate]] show ?thesis
      by (auto simp: service_error_response_def json_response_def split: service_error_code.splits)
  qed
qed

lemma refused_request:
  assumes "claimed_session q = Some p" and "\<nexists>a. stored_active E w = Some a \<and> names_session E p a"
    and "serve E c q w = (r, v)"
  shows "unaffected w v \<and> (\<exists>resp. r = Inr resp \<and> hr_status resp \<in> {401, 422})"
  using assms
  by (cases q rule: claimed_session.cases)
    (auto simp: handle_stop_clash_def handle_stage_runtime_def handle_update_writer_def handle_set_proxy_def
      dest: refused_flow [where claim = as_session, rotated] refused_flow)

section \<open>The service refines its specification\<close>

text \<open>
  C1. Whatever clients send and however the watchdogs' rounds fall between the requests, and whichever
  system calls fail, what the service does to its sessions is a run of the specification: a session
  begins only with the next generation and the hash of a token that some client proposed, the counter only
  moves on, and otherwise a session only ends.
\<close>

theorem service_refines_session_spec:
  assumes "(service_step E)\<^sup>*\<^sup>* w v" and "service_ok E w"
  shows "(session_spec E)\<^sup>*\<^sup>* (session_view E w) (session_view E v)"
  using assms by (rule service_run_sessions(3))

lemma plain_service_ok: "service_ok plain_params (calm_world Map.empty)"
  by (simp add: service_ok_def)

definition stop_body :: "unit authenticated_session_request" where
  "stop_body = \<lparr>as_credentials = \<lparr>cred_identity = UnixOwner 501 20, cred_app_data_dir = ''/d'', cred_token = None\<rparr>,
     as_session = \<lparr>proof_generation = 0, proof_token = ''token''\<rparr>, as_payload = ()\<rparr>"

lemma plain_service_run:
  "(service_step plain_params)\<^sup>*\<^sup>* (calm_world Map.empty)
     (snd (serve plain_params bare_context (StopClashRequest (Inr stop_body)) (calm_world Map.empty)))"
  by (rule r_into_rtranclp, rule service_step.request [OF surjective_pairing])

text \<open>The type of an active owner's record: its generation was counted, its hash is that of a SHA-256 digest.\<close>

definition record_typed :: "session_state \<Rightarrow> bool" where
  "record_typed s = (case fst s of
     None \<Rightarrow> True
   | Some a \<Rightarrow> ao_generation a \<le> snd s \<and> length (ao_session_token_hash a) = 64 \<and>
       list_all is_lower_hex (ao_session_token_hash a))"

lemma session_spec_typed:
  assumes digest: "\<And>s. length (sha256 E s) = 32" and "record_typed s" and "session_spec E s t"
  shows "record_typed t"
  using assms(3,2)
proof cases
  case (begin_session x g token a)
  then show ?thesis
    using hex_bytes_lower [of "sha256 E token"] digest [of token]
    by (simp add: record_typed_def hash_session_token_Inr list_all_iff)
next
  case (reserve_generation a g)
  then show ?thesis
    using assms(2) saturating_inc_le [of g] by (auto simp: record_typed_def split: option.splits intro: order_trans)
qed (simp add: record_typed_def)

text \<open>
  C7. The active owner's record is well typed at all times: it carries a generation that the counter has
  reached, and 64 lower-case hexadecimal digits as the hash of its token. (SHA-256 digests have 32
  bytes.) No request, failure or round of a watchdog leaves a record of another form.
\<close>

theorem active_record_well_formed:
  assumes "\<forall>s. length (sha256 E s) = 32" and "(service_step E)\<^sup>*\<^sup>* w v" and "service_ok E w"
    and "record_typed (session_view E w)"
  shows "record_typed (session_view E v)"
proof (rule session_files.invariant)
  show "(session_step E)\<^sup>*\<^sup>* w v" by (rule service_run_sessions(2) [OF assms(2,3)])
  show "honest w" using assms(3) by (simp add: service_ok_def)
  show "record_typed t" if "record_typed s" "session_spec E s t" for s t
    using session_spec_typed [OF _ that] assms(1) by blast
  show "record_typed (session_view E w)" by (rule assms(4))
qed

text \<open>
  C3. A stale session stays refused. If a session proof is not the active one's now, and its generation is
  not newer than the counter's, then after whatever the service does next, every request that needs a
  session and shows this proof is answered with an error (401 or 422) and has no effect: no file's contents, no
  process, no setting of the machine and no part of the manager's state changes. (The largest generation, at which
  the counter stops, is left out.)
\<close>

theorem stale_session_refused:
  assumes "(service_step E)\<^sup>*\<^sup>* w v" and "service_ok E w"
    and "\<not> (\<exists>a. stored_active E w = Some a \<and> names_session E p a)"
    and "proof_generation p \<le> stored_generation E w" and "proof_generation p \<noteq> - 1"
    and "claimed_session q = Some p" and "serve E c q v = (r, u)"
  shows "unaffected v u \<and> (\<exists>resp. r = Inr resp \<and> hr_status resp \<in> {401, 422})"
proof (rule refused_request [OF assms(6) _ assms(7)])
  from assms(2) have h: "honest w" by (simp add: service_ok_def)
  show "\<nexists>a. stored_active E v = Some a \<and> names_session E p a"
  proof
    assume "\<exists>a. stored_active E v = Some a \<and> names_session E p a"
    then obtain a where a: "stored_active E v = Some a" "names_session E p a" by blast
    then have "stored_active E w = Some a"
      using session_history [OF service_run_sessions(2) [OF assms(1,2)] h a(1)] assms(4,5)
      by (simp add: names_session_def)
    with a(2) assms(3) show False by blast
  qed
qed

text \<open>With a SHA-256 whose digests have 32 bytes, as that of \<open>plain_params\<close>.\<close>

theorem active_record_well_formed_witness:
  "record_typed (session_view plain_params
     (snd (serve plain_params bare_context (StopClashRequest (Inr stop_body)) (calm_world Map.empty))))"
  using active_record_well_formed [OF _ plain_service_run plain_service_ok]
  by (simp add: plain_params_def record_typed_def session_view_def stored_active_def stored_def file_data_def calm_world_def)

section \<open>Stopping\<close>

text \<open>A stop that succeeds leaves no core behind in the manager's record of it.\<close>

definition no_core :: "world \<Rightarrow> bool" where
  "no_core w \<longleftrightarrow> running_pid (mgr w) = 0 \<and> running_config (mgr w) = None \<and> failed_child (mgr w) = None"

lemma no_core_keeps: "keeps mgr m \<Longrightarrow> triple no_core m (\<lambda>_. no_core) (\<lambda>_. no_core)"
  unfolding triple_def no_core_def by (auto dest: keepsD)

lemma mgr_ops:
  "keeps mgr (kill_now child)" "keeps mgr (remove_core_runtime_record E)" "keeps mgr (cleanup_core_socket p)"
  "keeps mgr clear_logs" "keeps mgr (set_core_state st)"
proof -
  show "keeps mgr (kill_now child)"
    unfolding kill_now_def kill_child_def reap_child_def
    by (intro frame blind_syscall) (auto simp: keeps_def)
  show "keeps mgr (remove_core_runtime_record E)" "keeps mgr (cleanup_core_socket p)"
    by (intro blind; simp)+
  show "keeps mgr clear_logs" "keeps mgr (set_core_state st)"
    by (simp_all add: clear_logs_def set_core_state_def set_core_lifecycle_state_def keeps_def modify_def)
qed

lemma stop_leaves_no_core: "triple P (stop_core E) (\<lambda>_. no_core) (\<lambda>_ _. True)"
proof -
  have any: "triple P m (\<lambda>_ _. True) (\<lambda>_ _. True)" for P and m :: "(world, 'e, 'z) op"
    by (simp add: triple_def)
  let ?N = "\<lambda>w. failed_child (mgr w) = None"
  have kill: "triple ?N (kill_now child) (\<lambda>_. ?N) (\<lambda>_ _. True)" for child
    using keepsD [OF mgr_ops(1)] by (auto simp: triple_def)
  have drop: "triple P (modify_mgr (\<lambda>m. m\<lparr>failed_child := None\<rparr>)) (\<lambda>_. ?N) (\<lambda>_ _. True)" for P
    by (simp add: triple_def modify_mgr_def modify_def)
  have retried: "triple (\<lambda>_. True) retry_failed_child (\<lambda>_. ?N) (\<lambda>_ _. True)"
    unfolding retry_failed_child_def
    by (rule triple_bindE [OF any], rule triple_bindE [OF drop])
      (intro triple_case_option triple_okE triple_match [OF kill] triple_bindE [OF any] triple_failE TrueI)
  have forget: "triple ?N (forget_core E) (\<lambda>_. no_core) (\<lambda>_ _. True)"
  proof -
    note keep = triple_weaken [OF no_core_keeps]
    have after: "keeps mgr (after_stop p)" for p
      unfolding after_stop_def by (intro frame mgr_ops)
    show ?thesis
      unfolding forget_core_def
      by (rule triple_bindE [where Q = "\<lambda>_ w. ?N w \<and> running_pid (mgr w) = 0"],
          simp add: triple_def modify_mgr_def modify_def,
          rule triple_bindE [where Q = "\<lambda>_ w. ?N w \<and> running_pid (mgr w) = 0"],
          simp add: triple_def get_def,
          rule triple_bindE [where Q = "\<lambda>_. no_core"],
          simp add: triple_def modify_mgr_def modify_def no_core_def)
        (auto intro!: triple_bindE [OF keep [OF mgr_ops(2)]] triple_bindE [OF keep [OF after]] keep [OF mgr_ops(5)])
  qed
  show ?thesis
    unfolding stop_core_def
    by (rule triple_bindE [OF any], rule triple_tryE [OF any]; rule triple_bindE [OF retried],
        rule triple_bindE [where Q = "\<lambda>_. ?N"])
      (auto intro!: triple_if triple_okE triple_liftE forget)
qed

lemma stop_locked_leaves:
  assumes "stop_locked E owner w = (Inr resp, v)"
  shows "resp = ok_empty ''Core stopped successfully'' \<and> no_core v"
proof -
  have any: "triple P m (\<lambda>_ _. True) (\<lambda>_ _. True)" for P and m :: "(world, 'e, 'z) op"
    by (simp add: triple_def)
  have failed: "triple P (bindE (modify f) (\<lambda>_. failE e)) Q (\<lambda>_ _. True)"
    for P e and f :: "world \<Rightarrow> world" and Q :: "http_response \<Rightarrow> world \<Rightarrow> bool"
    by (intro triple_bindE [OF any] triple_failE TrueI)
  have weak: "triple no_core m (\<lambda>_. no_core) (\<lambda>_ _. True)" if "keeps mgr m" for m :: "(world, 'e, 'z) op"
    by (rule triple_weaken [OF no_core_keeps [OF that]]) auto
  have mgr: "keeps mgr (persist_owner_core_stopped E owner)" "keeps mgr (clear_active_owner E)"
    unfolding persist_owner_core_stopped_def persist_owner_core_stopped_by_key_def by (intro blind; simp)+
  have "triple (\<lambda>_. True) (stop_locked E owner)
      (\<lambda>resp w. resp = ok_empty ''Core stopped successfully'' \<and> no_core w) (\<lambda>_ _. True)"
    unfolding stop_locked_def
    by (rule triple_bindE [OF any], rule triple_bindE [OF triple_mapErrE [where R = "\<lambda>_ _. True"]],
        rule stop_leaves_no_core)
      (intro triple_match [OF weak [OF mgr(1)]] triple_match [OF weak [OF mgr(2)]] triple_okE failed; simp)+
  from triple_ok [OF this _ assms] show ?thesis by simp
qed


end
