(* ===== verification/Scenario.thy ===== *)
theory Scenario
  imports Service
begin

text \<open>
  A run of the model on concrete data: a world in which an owner has a session, the request that ends it, and what the
  service answers. The evaluation rewrites with the definitions in the order of the program: the congruence rules
  keep the simplifier out of the continuation of an operation until its state is known.
\<close>

section \<open>The owner, the session and the world\<close>

definition session_token :: string where
  "session_token = ''0123456789abcdef0123456789abcdef0123456789abcdef0123456789abcdef''"

definition session_record :: active_owner_state where
  "session_record =
     \<lparr>ao_owner_key = ''501'', ao_identity = UnixOwner 501 20, ao_app_data_root = ''/home/u'', ao_generation = 1,
      ao_session_token_hash = hex_bytes (replicate 32 64)\<rparr>"

definition session_files :: "path \<Rightarrow> node option" where
  "session_files =
     [[] \<mapsto> directory_node 0, [''var''] \<mapsto> directory_node 0, [''var'', ''lib''] \<mapsto> directory_node 0,
      [''var'', ''lib'', ''clash-verge-service''] \<mapsto> directory_node 0,
      [''var'', ''lib'', ''clash-verge-service'', ''active-owner.json''] \<mapsto> file_node 0 (JsonText (ser_active session_record)),
      [''var'', ''lib'', ''clash-verge-service'', ''owner-generation.json''] \<mapsto>
        file_node 0 (JsonText (ser_generation \<lparr>og_generation = 1\<rparr>))]"

definition session_env :: environment where
  "session_env = calm_env\<lparr>ev_client := (\<lambda>_. [[''home''] \<mapsto> directory_node 0, [''home'', ''u''] \<mapsto> directory_node 501])\<rparr>"

definition session_world :: world where
  "session_world = (calm_world session_files)\<lparr>env := session_env\<rparr>"

definition owner_context :: request_context where
  "owner_context =
     \<lparr>rq_headers = [SERVICE_PROTOCOL_HEADER \<mapsto> header_value current_version],
      rq_peer_uid = Some 501, rq_peer_gid = Some 20\<rparr>"

definition stop_request :: "unit authenticated_session_request" where
  "stop_request =
     \<lparr>as_credentials = \<lparr>cred_identity = UnixOwner 501 20, cred_app_data_dir = ''/home/u'', cred_token = None\<rparr>,
      as_session = \<lparr>proof_generation = 1, proof_token = session_token\<rparr>, as_payload = ()\<rparr>"

section \<open>Running a program\<close>

lemma bindE_cong: "m = m' \<Longrightarrow> bindE m k = bindE m' k"
  by simp

lemma tryE_cong: "m = m' \<Longrightarrow> tryE m k = tryE m' k"
  by simp

lemma syscall_cong: "syscall f = syscall f"
  by (rule refl)

lemmas run_cong = bindE_cong tryE_cong syscall_cong

lemmas run_combinators =
  bindE_def tryE_def okE_def failE_def liftE_def mapErrE_def ctx_def ctx_io_def io_act_def get_def modify_def ensure_def
  Let_def

lemmas run_calls =
  syscall_def read_clock_def is_dir_def new_file_def new_dir_def set_node_def fs_read_def fs_try_exists_def fs_exists_def
  fs_remove_file_def fs_rename_def fs_create_new_def fs_write_all_def fs_sync_def fs_create_dir_def atomic_replace_def
  open_directory_def open_file_nofollow_def fstat_def fchown_root_def fchmod_def

lemmas run_paths =
  CHANNEL_IDENTITY_def SERVICE_SLUG_def components_def component_of_def kept_piece_def path_is_absolute_def
  abs_path_def path_text_def active_owner_path_def owner_generation_path_def for_owner_key_def
  owner_desired_state_path_def persistent_state_dir_def runtime_dir_def install_dir_def service_paths_of_def
  paths_of_def IPC_PATH_def PIPE_ROOT_def sibling_name_def with_file_name_def sibling_state_path_def desired_path_def

lemmas run_text =
  rsplit_once_def starts_with_def is_digit_def digit_value_def read_digits_def parse_unsigned_def parse_u16_def
  is_lower_hex_def header_to_str_def parse_header_def header_value_def show_nat.simps current_version_def PROTOCOL_EPOCH_def
  PROTOCOL_REVISION_def MIN_SUPPORTED_CLIENT_REVISION_def SERVICE_PROTOCOL_HEADER_def SESSION_TOKEN_HEX_LEN_def
  hash_session_token_def constant_time_eq_iff serde_simps

lemmas run_files =
  secure_open_directory_def ensure_service_directory_def ensure_private_service_directory_def apply_private_mode_def
  secure_private_service_file_if_exists_def ensure_persistent_state_layout_def secure_state_file_if_exists_def
  write_state_temp_def write_and_replace_def write_json_atomic_def load_active_owner_def clear_active_owner_def
  default_desired_state_def quarantine_corrupt_owner_desired_state_def read_owner_desired_state_resilient_def
  update_owner_desired_state_def persist_owner_core_stopped_by_key_def persist_owner_core_stopped_def

lemmas run_core =
  set_core_lifecycle_state_def modify_mgr_def set_core_state_def stop_watchdog_def clear_logs_def
  after_stop_def retry_failed_child_def forget_core_def stop_core_def remove_core_runtime_record_def cleanup_core_socket_def
  SERVICE_PROXY_IS_LIVE_def clear_service_proxy_def compensate_service_proxy_def clear_proxy_with_direct_compensation_def

lemmas run_requests =
  client_view_def client_canonicalize_def client_metadata_def validate_unix_identity_def zip_option_def
  authenticate_owner_def ok_empty_def json_response_def require_protocol_version_def authenticate_request_def
  require_active_session_def enter_owner_lifecycle_def stop_locked_def handle_stop_clash_def

lemma digits:
  "digit_char 0 = CHR ''0''" "digit_char (Suc 0) = CHR ''1''" "digit_char 1 = CHR ''1''" "digit_char 2 = CHR ''2''"
  "digit_char 3 = CHR ''3''" "digit_char 4 = CHR ''4''" "digit_char 5 = CHR ''5''" "digit_char 6 = CHR ''6''"
  "digit_char 7 = CHR ''7''" "digit_char 8 = CHR ''8''" "digit_char 9 = CHR ''9''"
  by code_simp+

lemmas run_data =
  session_world_def session_env_def session_files_def calm_world_def calm_env_def plain_params_def idle_manager_def
  directory_node_def file_node_def owner_context_def stop_request_def session_token_def session_record_def digits

lemmas run_views = session_view_def stored_active_def stored_generation_def stored_def file_data_def

section \<open>Ending the session\<close>

lemma session_stops:
  "case handle_stop_clash plain_params owner_context (Inr stop_request) session_world of (r, v) \<Rightarrow>
     r = Inr (ok_empty ''Core stopped successfully'') \<and> session_view plain_params v = (None, 1)"
  by (simp cong: run_cong add: run_combinators run_calls run_paths run_text run_files run_core run_requests run_data run_views)

lemma session_view_before: "session_view plain_params session_world = (Some session_record, 1)"
  by (simp add: run_paths run_text run_data run_views)

lemma session_world_ok: "service_ok plain_params session_world"
proof -
  have "is_unix (os (bd plain_params))" by (simp add: plain_params_def)
  then show ?thesis
    by (simp add: service_ok_def honest_def session_world_def session_env_def calm_world_def calm_env_def
        sockets_ok_def known_configs_def handle_def idle_manager_def)
qed

text \<open>The world after the request, and the step of the service that leads there.\<close>

definition stopped_world :: world where
  "stopped_world = snd (handle_stop_clash plain_params owner_context (Inr stop_request) session_world)"

lemma session_stopped:
  "handle_stop_clash plain_params owner_context (Inr stop_request) session_world =
     (Inr (ok_empty ''Core stopped successfully''), stopped_world)"
  "session_view plain_params stopped_world = (None, 1)"
  using session_stops by (auto simp: stopped_world_def split: prod.splits)

lemma session_stop_step: "service_step plain_params session_world stopped_world"
  using service_step.request [of plain_params owner_context "StopClashRequest (Inr stop_request)" session_world _ stopped_world]
  by (simp add: respond_def tryE_eq okE_def session_stopped)

theorem service_refines_session_spec_witness:
  "(session_spec plain_params)\<^sup>*\<^sup>* (Some session_record, 1) (None, 1)"
  using service_refines_session_spec [OF r_into_rtranclp, OF session_stop_step session_world_ok]
  by (simp add: session_stopped session_view_before)


text \<open>The same request again: its session is stale now, so it is refused and changes nothing.\<close>

theorem stale_session_refused_witness:
  "unaffected stopped_world (snd (serve plain_params owner_context (StopClashRequest (Inr stop_request)) stopped_world))"
proof -
  have "service_ok plain_params stopped_world"
    using service_step_simulated [OF session_world_ok session_stop_step] by simp
  moreover have "stored_active plain_params stopped_world = None" "stored_generation plain_params stopped_world = 1"
    using session_stopped(2) by (simp_all add: session_view_def)
  ultimately show ?thesis
    using stale_session_refused [OF rtranclp.rtrancl_refl, of plain_params stopped_world "as_session stop_request"
        "StopClashRequest (Inr stop_request)" owner_context]
    by (cases "serve plain_params owner_context (StopClashRequest (Inr stop_request)) stopped_world")
      (simp add: stop_request_def)
qed

end
