(* ===== verification/Refresh.thy ===== *)
theory Refresh
  imports Service
begin

text \<open>
  What refreshing a running core promises (\<open>stage_runtime\<close>), what the status report shows, and how much of
  the log a snapshot sends.
\<close>

section \<open>Refreshing the runtime of a running core\<close>

text \<open>A configuration file keeps its contents, and the sockets stay in place, while the other files are staged.\<close>

lemma quiet_holds:
  assumes "preserves (holds q d) m" and "keeps crew m"
  shows "triple (quiet E q (Some d)) m (\<lambda>_. quiet E q (Some d)) (\<lambda>_. quiet E q (Some d))"
  using assms unfolding triple_def quiet_def
  by (metis holds_def keepsD preservesD sockets_crew)

lemma holds_live:
  assumes "\<And>d p. resolve_in_generation g d = Inr p \<Longrightarrow> q \<noteq> p" and "untouchable q"
  shows "preserves (holds q d) (discard_live_caches E g ds)" "preserves (holds q d) (refresh_live_assets E g cs)"
proof -
  have remove: "preserves (holds q d) (remove_staged_file E p)" if "q \<noteq> p" for p
    using that by (intro holds_keeps files)
  show "preserves (holds q d) (discard_live_caches E g ds)"
  proof (induction ds)
    case (Cons x ds)
    show ?case
      unfolding discard_live_caches.simps
      by (rule preserves_bindE_val [where Q = "\<lambda>p. q \<noteq> p"])
        (auto intro!: preserves_tryE preserves_case_sum preserves_liftE preserves_okE remove Cons.IH
          simp: liftE_def assms(1) split: sum.splits)
  qed (simp add: preserves_okE)
  have changed: "preserves (holds q d) (source_identity_changed s i)" for s i
    unfolding source_identity_changed_def by (intro holds_keeps frame files)
  show "preserves (holds q d) (refresh_live_assets E g cs)"
  proof (induction cs)
    case (Cons c cs)
    show ?case
      unfolding refresh_live_assets.simps
      by (rule preserves_bindE_val [where Q = "\<lambda>p. q \<noteq> p"])
        (auto intro!: preserves_tryE preserves_case_sum preserves_liftE preserves_okE preserves_bindE preserves_if holds_copy_staged changed
          assms(2) Cons.IH simp: liftE_def assms(1) split: sum.splits)
  qed (simp add: preserves_okE)
qed

text \<open>What a refresh leaves, by its outcome; a refresh that fails leaves the old configuration.\<close>

definition refreshed ::
  "path \<Rightarrow> file_kind \<times> content \<Rightarrow> string \<Rightarrow> u32 \<Rightarrow> core_config \<Rightarrow> stage_runtime_outcome \<Rightarrow> world \<Rightarrow> bool" where
  "refreshed cfg d yaml pid running outcome w =
     (case outcome of
        Staged p \<Rightarrow> p = cc_config_path running \<and> file_data cfg w = Some (RegularFile, Bytes yaml) \<and>
          map_option fst (running_core_config w) = Some pid
      | RestartRequired r \<Rightarrow> file_data cfg w = Some d)"

lemma quiet_watchdog_run:
  assumes "state_file E q"
  shows "triple (quiet E q d) (let_watchdog_run E) (\<lambda>_. quiet E q d) (\<lambda>_. quiet E q d)"
proof -
  have rounds: "triple (quiet E q d) (watchdog_rounds E n) (\<lambda>_. quiet E q d) (\<lambda>_. quiet E q d)" for n
    by (induction n) (auto intro: triple_okE triple_bindE [OF quiet_turn [OF assms]])
  show ?thesis
    unfolding let_watchdog_run_def
    by (rule triple_bindE [where Q = "\<lambda>_. quiet E q d"], simp add: triple_def get_def)
      (auto intro: triple_tryE [OF rounds] triple_okE)
qed

lemma commit_refreshes:
  assumes run: "commit_live E g pid running yaml plan w = (r, v)"
    and cfg: "abs_path (cc_config_path running) = g @ [RUNTIME_CONFIG_FILE_NAME]"
    and d: "file_data (g @ [RUNTIME_CONFIG_FILE_NAME]) w = Some d"
  shows "\<exists>outcome. r = Inr outcome \<and> refreshed (g @ [RUNTIME_CONFIG_FILE_NAME]) d yaml pid running outcome v"
proof (cases "map_option fst (running_core_config w) = Some pid")
  case False
  with run d show ?thesis
    by (auto simp: commit_live_def bindE_def get_def okE_def refreshed_def)
next
  case True
  let ?cfg = "g @ [RUNTIME_CONFIG_FILE_NAME]"
  let ?c = "commit_staged_config E g ?cfg yaml (sp_manifest plan)"
  obtain r1 w1 where 1: "?c w = (r1, w1)" by (cases "?c w")
  from commit_config_run [OF 1, of d] d
  have h: "if r1 = Inr () then holds ?cfg (RegularFile, Bytes yaml) w1 else holds ?cfg d w1" by (simp add: holds_def)
  show ?thesis
  proof (cases r1)
    case (Inl k)
    let ?m = "remove_staged_file E (g @ [MANIFEST_FILE_NAME])"
    obtain r2 w2 where 2: "?m w1 = (r2, w2)" by (cases "?m w1")
    have "keeps (file_data ?cfg) ?m" by (intro files) simp
    from keepsD [OF this 2] h Inl have "file_data ?cfg w2 = Some d" by (simp add: holds_def)
    with run True 1 2 Inl cfg show ?thesis
      by (auto simp: commit_live_def bindE_def get_def tryE_eq okE_def refreshed_def Let_def)
  next
    case (Inr u)
    let ?s = "sweep_obsolete E g (sp_hygiene_deletes plan)"
    obtain r2 w2 where 2: "?s w1 = (r2, w2)" by (cases "?s w1")
    have r2: "r2 = Inr ()" using sweep_ok [of E g "sp_hygiene_deletes plan" w1] 2 by simp
    have "preserves (holds ?cfg (RegularFile, Bytes yaml)) ?s"
      by (rule holds_sweep) (use targets_not_reserved in blast)+
    from preservesD [OF this 2] h Inr have "holds ?cfg (RegularFile, Bytes yaml) w2" by simp
    moreover have "keeps mgr ?c" by (intro blind) simp
    from keepsD [OF this 1] have "mgr w1 = mgr w" .
    moreover have "keeps mgr ?s" unfolding sweep_obsolete_def by (intro frame blind) simp
    from keepsD [OF this 2] have "mgr w2 = mgr w1" .
    ultimately show ?thesis
      using run True 1 2 Inr r2 cfg
      by (auto simp: commit_live_def bindE_def get_def tryE_eq okE_def refreshed_def Let_def holds_def running_core_config_def)
  qed
qed

lemma files_refresh:
  assumes unix: "is_unix (os (bd E))" and c: "core_socket E c"
  defines "g \<equiv> abs_path (cc_config_dir (clash_core c))"
  defines "cfg \<equiv> g @ [RUNTIME_CONFIG_FILE_NAME]"
  shows "triple (quiet E cfg (Some d)) (stage_files E g pid (clash_core c) yaml plan)
    (refreshed cfg d yaml pid (clash_core c)) (\<lambda>_ w. file_data cfg w = Some d)"
proof -
  from c have cfg: "abs_path (cc_config_path (clash_core c)) = cfg" and state: "state_file E cfg"
    using unix by (auto simp: core_socket_def cfg_def g_def state_file_def)
  have ne: "cfg \<noteq> p" if "resolve_in_generation g x = Inr p" for x p
    using targets_not_reserved [OF that] by (simp add: cfg_def)
  have u: "untouchable cfg" by (simp add: cfg_def)
  have crew: "keeps crew (discard_live_caches E g ds)" "keeps crew (refresh_live_assets E g cs)" for ds cs
  proof -
    show "keeps crew (discard_live_caches E g ds)" by (induction ds) (auto intro!: frame blind)
    show "keeps crew (refresh_live_assets E g cs)" by (induction cs) (auto intro!: frame blind)
  qed
  note live = triple_weaken [OF quiet_holds [OF holds_live(1) [OF ne u] crew(1)]]
    triple_weaken [OF quiet_holds [OF holds_live(2) [OF ne u] crew(2)]]
  have rejected: "triple (quiet E cfg (Some d)) (okE (RestartRequired reason))
      (refreshed cfg d yaml pid (clash_core c)) (\<lambda>_ w. file_data cfg w = Some d)" for reason
    by (rule triple_okE) (simp add: refreshed_def quiet_def)
  have commit: "triple (quiet E cfg (Some d)) (commit_live E g pid (clash_core c) yaml plan)
      (refreshed cfg d yaml pid (clash_core c)) (\<lambda>_ w. file_data cfg w = Some d)"
    unfolding triple_def
    using commit_refreshes [of E g pid "clash_core c" yaml plan] cfg by (fastforce simp: quiet_def cfg_def)
  show ?thesis
    unfolding stage_files_def
    by (rule triple_bindE [where Q = "\<lambda>_. quiet E cfg (Some d)"], rule live(1))
      (auto simp: quiet_def intro!: triple_case_option rejected triple_bindE [OF live(2)]
        triple_bindE [OF triple_weaken [OF quiet_watchdog_run [OF state]]] commit)
qed

text \<open>
  C10. A refresh commits its configuration last, and only to the core it was planned for. When it answers
  \<open>Staged\<close>, the configuration file of the running core holds exactly the new configuration, and the core that
  runs is the process that ran when the refresh began, although the watchdog may have worked in between. In every
  other case, an error or any reason for a restart, the configuration file holds what it held.
\<close>

theorem live_refresh_commits_last:
  assumes "is_unix (os (bd E))" and "sockets_ok E w" and "running_core_config w = Some (pid, c)"
    and "file_data (abs_path (cc_config_path (clash_core c))) w = Some d"
    and "stage_runtime E owner bundle w = (r, v)"
  shows "case r of
      Inr outcome \<Rightarrow> refreshed (abs_path (cc_config_path (clash_core c))) d (rb_yaml bundle) pid (clash_core c) outcome v
    | Inl e \<Rightarrow> file_data (abs_path (cc_config_path (clash_core c))) v = Some d"
proof -
  let ?g = "abs_path (cc_config_dir (clash_core c))" and ?cfg = "abs_path (cc_config_path (clash_core c))"
  let ?Q = "refreshed ?cfg d (rb_yaml bundle) pid (clash_core c)" and ?R = "\<lambda>_ w. file_data ?cfg w = Some d"
  have c: "core_socket E c"
    using assms(2,3) by (auto simp: running_core_config_def sockets_ok_def known_configs_def split: if_splits)
  then have g: "?cfg = ?g @ [RUNTIME_CONFIG_FILE_NAME]" by (auto simp: core_socket_def)
  note keep = triple_weaken [OF quiet_keeps]
  have weak: "triple (quiet E ?cfg (Some d)) m (\<lambda>_. quiet E ?cfg (Some d)) ?R"
    if "keeps (file_data ?cfg) m" "keeps crew m" for m :: "(world, 'e, 'z) op"
    by (rule keep [OF that]) (auto simp: quiet_def)
  have gather: "keeps (file_data ?cfg) (gather_bundle E owner bundle core)" for core
    unfolding gather_bundle_def by (intro frame files)
  have manifest: "keeps (file_data ?cfg) (read_manifest ?g)" "keeps crew (read_manifest ?g)"
    unfolding read_manifest_def by (intro frame files blind; simp)+
  have reject: "triple (quiet E ?cfg (Some d)) (okE (RestartRequired reason)) ?Q ?R" for reason
    by (rule triple_okE) (simp add: refreshed_def quiet_def)
  have go: "triple (quiet E ?cfg (Some d)) (bindE (validate_core_path E owner (rb_core_path bundle)) (\<lambda>core_path.
      if \<not> same_path (cc_core_path (clash_core c)) core_path then okE (RestartRequired CorePathChanged)
      else bindE (gather_bundle E owner bundle core_path) (\<lambda>(sources, remote).
        tryE (read_manifest ?g) (\<lambda>r. case r of
            Inl detail \<Rightarrow> okE (RestartRequired (RuntimeUnwritable detail))
          | Inr previous \<Rightarrow> stage_files E ?g pid (clash_core c) (rb_yaml bundle) (plan_stage previous sources remote))))) ?Q ?R"
    by (intro triple_bindE [OF weak [OF planning_data(1) blind_prepare(3)]] triple_if reject
        triple_bindE [OF weak [OF gather blind_prepare(2)]] blind_crew)
      (auto intro!: triple_tryE [OF quiet_keeps [OF manifest]] reject files_refresh [OF assms(1) c, folded g])
  from assms(2,4) have q: "quiet E ?cfg (Some d) w" by (simp add: quiet_def)
  have run: "bindE (validate_core_path E owner (rb_core_path bundle)) (\<lambda>core_path.
      if \<not> same_path (cc_core_path (clash_core c)) core_path then okE (RestartRequired CorePathChanged)
      else bindE (gather_bundle E owner bundle core_path) (\<lambda>(sources, remote).
        tryE (read_manifest ?g) (\<lambda>r. case r of
            Inl detail \<Rightarrow> okE (RestartRequired (RuntimeUnwritable detail))
          | Inr previous \<Rightarrow> stage_files E ?g pid (clash_core c) (rb_yaml bundle) (plan_stage previous sources remote)))) w = (r, v)"
    using assms(5) unfolding stage_runtime_def Let_def
    by (simp add: bindE_def [of "get running_core_config"] get_def assms(3))
  show ?thesis
    using triple_ok [OF go q] triple_fails [OF go q] run by (cases r) auto
qed

text \<open>A running core whose bundle names another core binary.\<close>

definition refresh_config :: clash_config where
  "refresh_config =
     \<lparr>clash_core = \<lparr>cc_core_path = ''/c'', cc_core_ipc_path = ''/run/clash-verge-service/users/501/verge-mihomo.sock'',
        cc_config_path = ''/var/lib/clash-verge-service/users/501/runtime/config.yaml'',
        cc_config_dir = ''/var/lib/clash-verge-service/users/501/runtime''\<rparr>,
      clash_log = default_writer_config\<rparr>"

definition refresh_world :: world where
  "refresh_world =
     (calm_world [[''var'', ''lib'', ''clash-verge-service'', ''users'', ''501'', ''runtime'', ''config.yaml''] \<mapsto> file_node 0 (Bytes ''old'')])
       \<lparr>mgr := idle_manager\<lparr>running_pid := 7, running_config := Some refresh_config\<rparr>\<rparr>"

definition refresh_bundle :: runtime_bundle where
  "refresh_bundle = \<lparr>rb_yaml = ''new'', rb_assets = [], rb_remote_providers = [], rb_core_path = ''/c''\<rparr>"

theorem live_refresh_commits_last_witness:
  "file_data [''var'', ''lib'', ''clash-verge-service'', ''users'', ''501'', ''runtime'', ''config.yaml'']
     (snd (stage_runtime plain_params \<lparr>au_key = ''501'', au_identity = UnixOwner 501 20, au_app_data_root = [''d'']\<rparr>
        refresh_bundle refresh_world))
   \<in> {Some (RegularFile, Bytes ''old''), Some (RegularFile, Bytes ''new'')}"
proof -
  let ?o = "\<lparr>au_key = ''501'', au_identity = UnixOwner 501 20, au_app_data_root = [''d'']\<rparr>"
  let ?r = "stage_runtime plain_params ?o refresh_bundle refresh_world"
  have p: "abs_path (cc_config_path (clash_core refresh_config)) =
      [''var'', ''lib'', ''clash-verge-service'', ''users'', ''501'', ''runtime'', ''config.yaml'']" by code_simp
  have parts: "abs_path (cc_core_ipc_path (clash_core refresh_config)) = runtime_dir (bd plain_params) @ [''users'', ''501'', ''verge-mihomo.sock'']"
    "abs_path (cc_config_dir (clash_core refresh_config)) = persistent_state_dir (bd plain_params) @ [''users'', ''501'', ''runtime'']"
    "persistent_state_dir (bd plain_params) = [''var'', ''lib'', ''clash-verge-service'']"
    "RUNTIME_CONFIG_FILE_NAME = ''config.yaml''"
    by code_simp+
  have socket: "core_socket plain_params refresh_config"
    unfolding core_socket_def parts(1,2) p parts(3,4) by (intro conjI exI; simp)
  have sockets: "sockets_ok plain_params refresh_world"
    using socket by (simp add: sockets_ok_def known_configs_def refresh_world_def handle_def idle_manager_def calm_world_def)
  have core: "running_core_config refresh_world = Some (7, refresh_config)"
    by (simp add: running_core_config_def refresh_world_def)
  have d: "file_data (abs_path (cc_config_path (clash_core refresh_config))) refresh_world = Some (RegularFile, Bytes ''old'')"
    unfolding p by (simp add: file_data_def refresh_world_def calm_world_def file_node_def)
  from live_refresh_commits_last [OF plain_service(1) sockets core d surjective_pairing, of ?o refresh_bundle]
  show ?thesis
    unfolding p by (cases "fst ?r") (auto simp: refreshed_def refresh_bundle_def split: sum.splits stage_runtime_outcome.splits)
qed

section \<open>The status report\<close>


section \<open>The log snapshot\<close>

lemma snapshot_run:
  assumes "read_log_snapshot p w = (Inr s, v)"
  shows "\<exists>n. fs w p = Some n \<and>
    s = hex_bytes (map byte_of (snapshot_lines (unat (nd_len n)) (snapshot_tail (unat (nd_len n)) (file_text (nd_data n)))))"
  using assms
  by (auto simp: read_log_snapshot_def bindE_Inr Let_def open_for_reading_def fstat_def seek_from_start_def
      syscall_Inr fs_read_def split: option.splits if_splits)

text \<open>
  C37. A log snapshot sends whole lines from the end of the log, and never more than fits a response: the
  hexadecimal form of a suffix of the file, of at most four mebibytes; of the whole file when it is not longer
  than that; and otherwise of what follows a line break, if the last four mebibytes have one.
\<close>

theorem log_snapshot_sends_last_lines:
  assumes "read_log_snapshot p w = (Inr s, v)"
    and "fs w p = Some n" and "nd_data n = Bytes text" and "unat (nd_len n) = length text"
  shows "\<exists>sent before. s = hex_bytes (map byte_of sent) \<and> text = before @ sent \<and> length s \<le> 8388608 \<and>
    (length text \<le> 4194304 \<longrightarrow> before = '''') \<and>
    (4194304 < length text \<and> CHR 0x0A \<in> set (drop (length text - 4194304) text) \<longrightarrow> last before = CHR 0x0A \<and> before \<noteq> '''')"
proof (cases "length text \<le> 4194304")
  case True
  with snapshot_run [OF assms(1)] assms(2-4) show ?thesis
    by (auto simp: snapshot_lines_def snapshot_tail_def MAX_SNAPSHOT_BYTES_def file_text_def)
next
  case False
  let ?tail = "drop (length text - 4194304) text"
  have s: "s = hex_bytes (map byte_of (case split_once (CHR 0x0A) ?tail of None \<Rightarrow> ?tail | Some (partial, rest) \<Rightarrow> rest))"
    using snapshot_run [OF assms(1)] assms(2-4) False
    by (clarsimp simp: snapshot_lines_def snapshot_tail_def MAX_SNAPSHOT_BYTES_def file_text_def cong: option.case_cong)
  have whole: "text = take (length text - 4194304) text @ ?tail" by simp
  show ?thesis
  proof (cases "split_once (CHR 0x0A) ?tail")
    case None
    with s False whole show ?thesis
      by (intro exI [of _ ?tail] exI [of _ "take (length text - 4194304) text"]) (auto simp: split_once_None)
  next
    case (Some pr)
    then obtain partial rest where pr: "split_once (CHR 0x0A) ?tail = Some (partial, rest)" by (cases pr) auto
    from split_once_SomeD [OF this] have tail: "?tail = partial @ CHR 0x0A # rest" by simp
    then have "length rest \<le> length ?tail" by simp
    then have "length rest \<le> 4194304" using False by simp
    with s pr False whole tail show ?thesis
      by (intro exI [of _ rest] exI [of _ "take (length text - 4194304) text @ partial @ [CHR 0x0A]"]) simp
  qed
qed

theorem log_snapshot_sends_last_lines_witness:
  "length (hex_bytes (map byte_of ''ab'')) \<le> 8388608 \<and>
   fst (read_log_snapshot [''log''] (calm_world [[''log''] \<mapsto> (file_node 0 (Bytes ''ab''))\<lparr>nd_len := 2\<rparr>])) =
     Inr (hex_bytes (map byte_of ''ab''))"
proof -
  let ?n = "(file_node 0 (Bytes ''ab''))\<lparr>nd_len := 2\<rparr>"
  let ?w = "calm_world [[''log''] \<mapsto> ?n]"
  have r: "fst (read_log_snapshot [''log''] ?w) = Inr (hex_bytes (map byte_of ''ab''))"
    by (simp add: read_log_snapshot_def open_for_reading_def fstat_def fs_read_def syscall_def bindE_def okE_def Let_def
        calm_world_def calm_env_def file_node_def MAX_SNAPSHOT_BYTES_def snapshot_lines_def snapshot_tail_def file_text_def)
  then have run: "read_log_snapshot [''log''] ?w = (Inr (hex_bytes (map byte_of ''ab'')), snd (read_log_snapshot [''log''] ?w))"
    by (metis prod.collapse)
  have node: "fs ?w [''log''] = Some ?n" "nd_data ?n = Bytes ''ab''" "unat (nd_len ?n) = length ''ab''"
    by (simp_all add: calm_world_def file_node_def)
  from log_snapshot_sends_last_lines [OF run node] r show ?thesis by blast
qed


end
