(* ===== verification/Client.thy ===== *)
theory Client
  imports Server
begin

text \<open>
  The client of the service (\<open>src/client/mod.rs\<close>), which the GUI and the installer call: what a call puts on
  the wire, how the router of the service (\<open>create_ipc_router\<close>) finds its handler, and what the client makes of
  the answers. The transport is \<open>kode_bridge\<close>'s: a parameter that takes a request and answers with a
  response or fails. Timeouts and retries are its configuration. On Windows the client also asks who serves the
  pipe (\<open>src/client/windows_identity.rs\<close>).
\<close>

section \<open>Serde representations of the requests\<close>

text \<open>Structs are objects, \<open>()\<close> is \<open>null\<close>, and the proxy configuration is tagged by its member \<open>mode\<close>.\<close>

definition ser_list :: "('a \<Rightarrow> json) \<Rightarrow> 'a list \<Rightarrow> json" where
  "ser_list s xs = JArr (map s xs)"

fun de_elements :: "(json \<Rightarrow> 'a option) \<Rightarrow> json list \<Rightarrow> 'a list option" where
  "de_elements d [] = Some []"
| "de_elements d (j # js) =
     (case d j of None \<Rightarrow> None | Some x \<Rightarrow> (case de_elements d js of None \<Rightarrow> None | Some xs \<Rightarrow> Some (x # xs)))"

fun de_list :: "(json \<Rightarrow> 'a option) \<Rightarrow> json \<Rightarrow> 'a list option" where
  "de_list d (JArr js) = de_elements d js"
| "de_list d _ = None"

fun de_unit :: "json \<Rightarrow> unit option" where
  "de_unit JNull = Some ()"
| "de_unit _ = None"

definition ser_unit :: "unit \<Rightarrow> json" where
  "ser_unit _ = JNull"

definition ser_credentials :: "owner_credentials \<Rightarrow> json" where
  "ser_credentials c = JObj
     [(''identity'', ser_identity (cred_identity c)), (''app_data_dir'', JStr (cred_app_data_dir c)),
      (''token'', ser_option JStr (cred_token c))]"

definition de_credentials :: "json \<Rightarrow> owner_credentials option" where
  "de_credentials j =
     (case as_object j of None \<Rightarrow> None
      | Some ms \<Rightarrow>
          (case (required de_identity ''identity'' ms, required de_string ''app_data_dir'' ms, optional de_string ''token'' ms) of
             (Some i, Some d, Some t) \<Rightarrow> Some \<lparr>cred_identity = i, cred_app_data_dir = d, cred_token = t\<rparr>
           | _ \<Rightarrow> None))"

definition ser_session :: "owner_session_proof \<Rightarrow> json" where
  "ser_session s = JObj [(''generation'', ser_word (proof_generation s)), (''token'', JStr (proof_token s))]"

definition de_session :: "json \<Rightarrow> owner_session_proof option" where
  "de_session j =
     (case as_object j of None \<Rightarrow> None
      | Some ms \<Rightarrow>
          (case (required de_word ''generation'' ms, required de_string ''token'' ms) of
             (Some g, Some t) \<Rightarrow> Some \<lparr>proof_generation = g, proof_token = t\<rparr>
           | _ \<Rightarrow> None))"

definition ser_asset :: "runtime_asset \<Rightarrow> json" where
  "ser_asset a = JObj [(''source'', JStr (ra_source a)), (''destination'', JStr (ra_destination a))]"

definition de_asset :: "json \<Rightarrow> runtime_asset option" where
  "de_asset j =
     (case as_object j of None \<Rightarrow> None
      | Some ms \<Rightarrow>
          (case (required de_string ''source'' ms, required de_string ''destination'' ms) of
             (Some s, Some d) \<Rightarrow> Some \<lparr>ra_source = s, ra_destination = d\<rparr>
           | _ \<Rightarrow> None))"

definition ser_provider :: "remote_provider \<Rightarrow> json" where
  "ser_provider p = JObj [(''destination'', JStr (rp_destination p)), (''url'', JStr (rp_url p))]"

definition de_provider :: "json \<Rightarrow> remote_provider option" where
  "de_provider j =
     (case as_object j of None \<Rightarrow> None
      | Some ms \<Rightarrow>
          (case (required de_string ''destination'' ms, required de_string ''url'' ms) of
             (Some d, Some u) \<Rightarrow> Some \<lparr>rp_destination = d, rp_url = u\<rparr>
           | _ \<Rightarrow> None))"

definition ser_bundle :: "runtime_bundle \<Rightarrow> json" where
  "ser_bundle b = JObj
     [(''yaml'', JStr (rb_yaml b)), (''assets'', ser_list ser_asset (rb_assets b)),
      (''remote_providers'', ser_list ser_provider (rb_remote_providers b)), (''core_path'', JStr (rb_core_path b))]"

definition de_bundle :: "json \<Rightarrow> runtime_bundle option" where
  "de_bundle j =
     (case as_object j of None \<Rightarrow> None
      | Some ms \<Rightarrow>
          (case (required de_string ''yaml'' ms, required (de_list de_asset) ''assets'' ms,
                 defaulted [] (de_list de_provider) ''remote_providers'' ms, required de_string ''core_path'' ms) of
             (Some y, Some a, Some r, Some c) \<Rightarrow>
               Some \<lparr>rb_yaml = y, rb_assets = a, rb_remote_providers = r, rb_core_path = c\<rparr>
           | _ \<Rightarrow> None))"

fun ser_proxy :: "macos_proxy_config \<Rightarrow> json" where
  "ser_proxy ProxyDisabled = JObj [(''mode'', JStr ''disabled'')]"
| "ser_proxy (ProxyGlobal host port bypass) = JObj
     [(''mode'', JStr ''global''), (''host'', JStr host), (''port'', ser_word port), (''bypass'', JStr bypass)]"
| "ser_proxy (ProxyPac url) = JObj [(''mode'', JStr ''pac''), (''url'', JStr url)]"

definition de_proxy :: "json \<Rightarrow> macos_proxy_config option" where
  "de_proxy j =
     (case as_object j of None \<Rightarrow> None
      | Some ms \<Rightarrow>
          (case required de_string ''mode'' ms of
             None \<Rightarrow> None
           | Some mode \<Rightarrow>
               if mode = ''disabled'' then Some ProxyDisabled
               else if mode = ''global'' then
                 (case (required de_string ''host'' ms, required de_word ''port'' ms, required de_string ''bypass'' ms) of
                    (Some h, Some p, Some b) \<Rightarrow> Some (ProxyGlobal h p b)
                  | _ \<Rightarrow> None)
               else if mode = ''pac'' then map_option ProxyPac (required de_string ''url'' ms)
               else None))"

definition ser_start :: "start_clash_request \<Rightarrow> json" where
  "ser_start r = JObj
     [(''runtime'', ser_bundle (sr_runtime r)), (''proposed_session_token'', JStr (sr_proposed_session_token r)),
      (''macos_proxy'', ser_option ser_proxy (sr_macos_proxy r))]"

definition de_start :: "json \<Rightarrow> start_clash_request option" where
  "de_start j =
     (case as_object j of None \<Rightarrow> None
      | Some ms \<Rightarrow>
          (case (required de_bundle ''runtime'' ms, required de_string ''proposed_session_token'' ms,
                 optional de_proxy ''macos_proxy'' ms) of
             (Some b, Some t, Some p) \<Rightarrow>
               Some \<lparr>sr_runtime = b, sr_proposed_session_token = t, sr_macos_proxy = p\<rparr>
           | _ \<Rightarrow> None))"

definition ser_owner_request :: "('a \<Rightarrow> json) \<Rightarrow> 'a authenticated_request \<Rightarrow> json" where
  "ser_owner_request s r = JObj [(''credentials'', ser_credentials (ar_credentials r)), (''payload'', s (ar_payload r))]"

definition de_owner_request :: "(json \<Rightarrow> 'a option) \<Rightarrow> json \<Rightarrow> 'a authenticated_request option" where
  "de_owner_request d j =
     (case as_object j of None \<Rightarrow> None
      | Some ms \<Rightarrow>
          (case (required de_credentials ''credentials'' ms, required d ''payload'' ms) of
             (Some c, Some p) \<Rightarrow> Some \<lparr>ar_credentials = c, ar_payload = p\<rparr>
           | _ \<Rightarrow> None))"

definition ser_session_request :: "('a \<Rightarrow> json) \<Rightarrow> 'a authenticated_session_request \<Rightarrow> json" where
  "ser_session_request s r = JObj
     [(''credentials'', ser_credentials (as_credentials r)), (''session'', ser_session (as_session r)),
      (''payload'', s (as_payload r))]"

definition de_session_request :: "(json \<Rightarrow> 'a option) \<Rightarrow> json \<Rightarrow> 'a authenticated_session_request option" where
  "de_session_request d j =
     (case as_object j of None \<Rightarrow> None
      | Some ms \<Rightarrow>
          (case (required de_credentials ''credentials'' ms, required de_session ''session'' ms, required d ''payload'' ms) of
             (Some c, Some s, Some p) \<Rightarrow> Some \<lparr>as_credentials = c, as_session = s, as_payload = p\<rparr>
           | _ \<Rightarrow> None))"

lemma de_ser_unit [serde_simps]: "de_unit (ser_unit u) = Some u"
  by (simp add: ser_unit_def)

lemma de_ser_list: "(\<And>x. d (s x) = Some x) \<Longrightarrow> de_list d (ser_list s xs) = Some xs"
  by (induction xs) (simp_all add: ser_list_def)

lemma de_ser_credentials [serde_simps]: "de_credentials (ser_credentials c) = Some c"
  by (simp add: de_credentials_def ser_credentials_def serde_members serde_simps de_option_ser_option)

lemma de_ser_session [serde_simps]: "de_session (ser_session s) = Some s"
  by (simp add: de_session_def ser_session_def serde_members)

lemma de_ser_asset [serde_simps]: "de_asset (ser_asset a) = Some a"
  by (simp add: de_asset_def ser_asset_def serde_members)

lemma de_ser_provider [serde_simps]: "de_provider (ser_provider p) = Some p"
  by (simp add: de_provider_def ser_provider_def serde_members)

lemma de_ser_bundle [serde_simps]: "de_bundle (ser_bundle b) = Some b"
  by (simp add: de_bundle_def ser_bundle_def serde_members de_ser_list serde_simps)

lemma de_ser_proxy [serde_simps]: "de_proxy (ser_proxy p) = Some p"
  by (cases p) (simp_all add: de_proxy_def serde_members)

lemma de_ser_start [serde_simps]: "de_start (ser_start r) = Some r"
proof -
  have "ser_proxy p \<noteq> JNull" for p by (cases p) simp_all
  then show ?thesis
    by (simp add: de_start_def ser_start_def serde_members serde_simps de_option_ser_option)
qed

lemma de_ser_owner_request [serde_simps]:
  "(\<And>x. d (s x) = Some x) \<Longrightarrow> de_owner_request d (ser_owner_request s r) = Some r"
  by (simp add: de_owner_request_def ser_owner_request_def serde_members serde_simps)

lemma de_ser_session_request [serde_simps]:
  "(\<And>x. d (s x) = Some x) \<Longrightarrow> de_session_request d (ser_session_request s r) = Some r"
  by (simp add: de_session_request_def ser_session_request_def serde_members serde_simps)


section \<open>The wire\<close>

datatype verb = Get | Post | Put | Delete

record wire_request =
  wr_verb :: verb
  wr_path :: string
  wr_headers :: "(string \<times> string) list"
  wr_timeout :: "nat option"
  wr_body :: "json option"

definition IPC_AUTH_HEADER_KEY :: string where "IPC_AUTH_HEADER_KEY = ''X-IPC-Magic''"
definition LIFECYCLE_TIMEOUT :: nat where "LIFECYCLE_TIMEOUT = 30000"

definition protected :: "wire_request \<Rightarrow> wire_request" where
  "protected r = r\<lparr>wr_headers := wr_headers r @ [(SERVICE_PROTOCOL_HEADER, header_value current_version)]\<rparr>"

text \<open>What \<open>protected_call\<close> sends; \<open>session\<close> selects the envelope.\<close>

definition protected_request ::
  "verb \<Rightarrow> ipc_command \<Rightarrow> owner_credentials \<Rightarrow> owner_session_proof option \<Rightarrow> ('p \<Rightarrow> json) \<Rightarrow> 'p \<Rightarrow> nat option \<Rightarrow> wire_request" where
  "protected_request v command credentials session ser payload timeout =
     (let body = (case session of
           None \<Rightarrow> ser_owner_request ser \<lparr>ar_credentials = credentials, ar_payload = payload\<rparr>
         | Some s \<Rightarrow> ser_session_request ser \<lparr>as_credentials = credentials, as_session = s, as_payload = payload\<rparr>);
         request = protected \<lparr>wr_verb = v, wr_path = command_path command, wr_headers = [], wr_timeout = None, wr_body = None\<rparr>
      in request\<lparr>wr_timeout := timeout, wr_body := Some body\<rparr>)"

definition magic_request :: wire_request where
  "magic_request =
     \<lparr>wr_verb = Get, wr_path = command_path Magic, wr_headers = [(IPC_AUTH_HEADER_KEY, IPC_AUTH_EXPECT)],
      wr_timeout = None, wr_body = None\<rparr>"

definition version_request :: wire_request where
  "version_request =
     \<lparr>wr_verb = Get, wr_path = command_path GetVersion, wr_headers = [(IPC_AUTH_HEADER_KEY, IPC_AUTH_EXPECT)],
      wr_timeout = None, wr_body = None\<rparr>"

text \<open>The calls of the client, by their arguments.\<close>

datatype client_call =
    CallStatus
  | CallStart start_clash_request
  | CallLogs
  | CallLogSnapshot
  | CallStop owner_session_proof
  | CallStage owner_session_proof runtime_bundle
  | CallWriter owner_session_proof writer_config
  | CallProxy owner_session_proof macos_proxy_config

fun client_request :: "owner_credentials \<Rightarrow> client_call \<Rightarrow> wire_request" where
  "client_request c CallStatus = protected_request Get Status c None ser_unit () None"
| "client_request c (CallStart body) = protected_request Post StartClash c None ser_start body (Some LIFECYCLE_TIMEOUT)"
| "client_request c CallLogs = protected_request Get GetClashLogs c None ser_unit () None"
| "client_request c CallLogSnapshot = protected_request Get GetClashLogSnapshot c None ser_unit () None"
| "client_request c (CallStop session) =
     protected_request Delete StopClash c (Some session) ser_unit () (Some LIFECYCLE_TIMEOUT)"
| "client_request c (CallStage session body) =
     protected_request Put StageRuntime c (Some session) ser_bundle body (Some LIFECYCLE_TIMEOUT)"
| "client_request c (CallWriter session body) = protected_request Put UpdateWriter c (Some session) ser_writer body None"
| "client_request c (CallProxy session body) = protected_request Put SetSystemProxy c (Some session) ser_proxy body None"

section \<open>The router\<close>

text \<open>\<open>ctx.json\<close>: a body that is missing or does not decode is an error, whose text is the library's.\<close>

definition json_body :: "(json \<Rightarrow> 'a option) \<Rightarrow> wire_request \<Rightarrow> string + 'a" where
  "json_body d r =
     (case wr_body r of
        None \<Rightarrow> Inl ''EOF while parsing a value''
      | Some j \<Rightarrow> (case d j of None \<Rightarrow> Inl ''invalid data'' | Some x \<Rightarrow> Inr x))"

definition route :: "wire_request \<Rightarrow> ipc_request option" where
  "route r =
     (if wr_verb r = Get \<and> wr_path r = command_path Magic then Some MagicRequest
      else if wr_verb r = Get \<and> wr_path r = command_path GetVersion then Some VersionRequest
      else if wr_verb r = Get \<and> wr_path r = command_path Status then
        Some (StatusRequest (json_body (de_owner_request de_unit) r))
      else if wr_verb r = Post \<and> wr_path r = command_path StartClash then
        Some (StartClashRequest (json_body (de_owner_request de_start) r))
      else if wr_verb r = Get \<and> wr_path r = command_path GetClashLogs then
        Some (GetLogsRequest (json_body (de_owner_request de_unit) r))
      else if wr_verb r = Get \<and> wr_path r = command_path GetClashLogSnapshot then
        Some (LogSnapshotRequest (json_body (de_owner_request de_unit) r))
      else if wr_verb r = Delete \<and> wr_path r = command_path StopClash then
        Some (StopClashRequest (json_body (de_session_request de_unit) r))
      else if wr_verb r = Put \<and> wr_path r = command_path StageRuntime then
        Some (StageRuntimeRequest (json_body (de_session_request de_bundle) r))
      else if wr_verb r = Put \<and> wr_path r = command_path UpdateWriter then
        Some (UpdateWriterRequest (json_body (de_session_request de_writer) r))
      else if wr_verb r = Put \<and> wr_path r = command_path SetSystemProxy then
        Some (SetProxyRequest (json_body (de_session_request de_proxy) r))
      else None)"

text \<open>What a request becomes for a handler: its headers, and the peer the kernel reports.\<close>

definition context_of :: "(u32 \<times> u32) option \<Rightarrow> wire_request \<Rightarrow> request_context" where
  "context_of peer r =
     \<lparr>rq_headers = map_of (wr_headers r), rq_peer_uid = map_option fst peer, rq_peer_gid = map_option snd peer\<rparr>"

text \<open>The handler a call is meant for, with what it was called with.\<close>

fun meant :: "owner_credentials \<Rightarrow> client_call \<Rightarrow> ipc_request" where
  "meant c CallStatus = StatusRequest (Inr \<lparr>ar_credentials = c, ar_payload = ()\<rparr>)"
| "meant c (CallStart body) = StartClashRequest (Inr \<lparr>ar_credentials = c, ar_payload = body\<rparr>)"
| "meant c CallLogs = GetLogsRequest (Inr \<lparr>ar_credentials = c, ar_payload = ()\<rparr>)"
| "meant c CallLogSnapshot = LogSnapshotRequest (Inr \<lparr>ar_credentials = c, ar_payload = ()\<rparr>)"
| "meant c (CallStop session) = StopClashRequest (Inr \<lparr>as_credentials = c, as_session = session, as_payload = ()\<rparr>)"
| "meant c (CallStage session body) =
     StageRuntimeRequest (Inr \<lparr>as_credentials = c, as_session = session, as_payload = body\<rparr>)"
| "meant c (CallWriter session body) =
     UpdateWriterRequest (Inr \<lparr>as_credentials = c, as_session = session, as_payload = body\<rparr>)"
| "meant c (CallProxy session body) =
     SetProxyRequest (Inr \<lparr>as_credentials = c, as_session = session, as_payload = body\<rparr>)"

text \<open>The commands have different paths, and \<open>IpcCommand::from_str\<close> reads them back.\<close>

lemma command_of_command_path: "command_of_path (command_path c) = Some c"
  by (cases c) (simp_all add: command_of_path_def all_commands_def)

lemma command_path_inj [simp]: "command_path c = command_path d \<longleftrightarrow> c = d"
  by (metis command_of_command_path option.inject)

lemma visible_header: "header_to_str (header_value v) = Some (header_value v)"
proof -
  have "list_all is_digit (show_nat n)" for n
    using show_nat_digits by (auto simp: list_all_iff)
  moreover have "32 \<le> (of_char c :: nat) \<and> (of_char c :: nat) < 127" if "is_digit c" for c
    using that by (simp add: is_digit_def)
  ultimately show ?thesis
    by (auto simp: header_to_str_def header_value_def list_all_iff)
qed

lemma parsed_header: "parse_header (header_value v) = Some v"
  by (simp add: parse_header_def header_value_def show_nat_no_char)

lemma current_accepted:
  "rq_headers c SERVICE_PROTOCOL_HEADER = Some (header_value current_version) \<Longrightarrow> require_protocol_version c = Inr ()"
  by (simp add: require_protocol_version_def visible_header parsed_header ensure_def current_version_def
      MIN_SUPPORTED_CLIENT_REVISION_def PROTOCOL_REVISION_def)

text \<open>
  C22. Every call of the client reaches the handler it is meant for. The service's router finds it by the verb and
  the path the client uses, decodes the body to exactly the credentials, the session proof and the payload the
  client was called with, and the protocol version of the client passes the version gate.
\<close>

theorem client_call_reaches_handler:
  "route (client_request c call) = Some (meant c call) \<and>
   require_protocol_version (context_of peer (client_request c call)) = Inr ()"
proof
  show "route (client_request c call) = Some (meant c call)"
    by (cases call)
      (simp_all add: route_def protected_request_def protected_def json_body_def serde_simps Let_def del: command_path.simps)
  show "require_protocol_version (context_of peer (client_request c call)) = Inr ()"
    by (rule current_accepted, cases call) (simp_all add: context_of_def protected_request_def protected_def Let_def)
qed


section \<open>Answers\<close>

record 'r response =
  rs_code :: u16
  rs_message :: string
  rs_data :: "'r option"

text \<open>\<open>json::<Response<R>>\<close>; \<open>pick\<close> reads the data of a reply as the type \<open>R\<close>.\<close>

definition decode_response :: "(reply \<Rightarrow> 'r option) \<Rightarrow> http_response \<Rightarrow> err + 'r response" where
  "decode_response pick h =
     (case hr_body h of
        TextBody t \<Rightarrow> Inl (Msg ''invalid response'')
      | JsonBody code message data \<Rightarrow>
          if data = NoData then Inr \<lparr>rs_code = code, rs_message = message, rs_data = None\<rparr>
          else (case pick data of
                  None \<Rightarrow> Inl (Msg ''invalid response'')
                | Some x \<Rightarrow> Inr \<lparr>rs_code = code, rs_message = message, rs_data = Some x\<rparr>))"

fun pick_protocol :: "reply \<Rightarrow> protocol_info option" where
  "pick_protocol (Protocol info) = Some info"
| "pick_protocol _ = None"

record ipc_config =
  default_timeout :: nat
  max_retries :: nat
  retry_delay :: nat

definition default_ipc_config :: ipc_config where
  "default_ipc_config = \<lparr>default_timeout = 50, max_retries = 8, retry_delay = 150\<rparr>"

text \<open>The transport, as it is configured; a failure is the text of the library's error.\<close>

type_synonym transport = "ipc_config \<Rightarrow> wire_request \<Rightarrow> (world, string, http_response) op"

definition path_metadata :: "path \<Rightarrow> unit io" where
  "path_metadata p = syscall (\<lambda>w. (case fs w p of None \<Rightarrow> (Inl NotFound, w) | Some n \<Rightarrow> (Inr (), w)))"

definition is_ipc_path_exists :: "params \<Rightarrow> bool act" where
  "is_ipc_path_exists E = fs_exists (abs_path (IPC_PATH (bd E)))"

text \<open>The client a successful \<open>connect\<close> returns sends with the same configuration.\<close>

definition connect :: "params \<Rightarrow> transport \<Rightarrow> ipc_config option \<Rightarrow> ipc_config act" where
  "connect E T configured =
     bindE (if is_unix (os (bd E)) then
              mapErrE (\<lambda>k. Msg (''IPC path unavailable: '' @ io_text k)) (path_metadata (abs_path (IPC_PATH (bd E))))
            else okE ()) (\<lambda>_.
     let c = (case configured of None \<Rightarrow> default_ipc_config | Some c \<Rightarrow> c) in
     bindE (mapErrE (\<lambda>e. Msg (''Failed to connect to IPC server: '' @ e)) (T c magic_request)) (\<lambda>_. okE c))"

definition get_version :: "params \<Rightarrow> transport \<Rightarrow> ipc_config option \<Rightarrow> protocol_info response act" where
  "get_version E T configured =
     bindE (connect E T configured) (\<lambda>c.
     bindE (mapErrE Msg (T c version_request)) (\<lambda>h.
       liftE (decode_response pick_protocol h)))"

definition protected_call ::
  "params \<Rightarrow> transport \<Rightarrow> ipc_config option \<Rightarrow> (reply \<Rightarrow> 'r option) \<Rightarrow> owner_credentials \<Rightarrow> client_call \<Rightarrow> 'r response act" where
  "protected_call E T configured pick credentials call =
     bindE (connect E T configured) (\<lambda>c.
     bindE (mapErrE Msg (T c (client_request credentials call))) (\<lambda>h.
       liftE (decode_response pick h)))"

definition is_reinstall_service_needed :: "params \<Rightarrow> transport \<Rightarrow> ipc_config option \<Rightarrow> bool act" where
  "is_reinstall_service_needed E T configured =
     bindE (is_ipc_path_exists E) (\<lambda>there.
       if \<not> there then okE False
       else
         tryE (get_version E T configured) (\<lambda>r. okE
           (case r of
              Inr resp \<Rightarrow>
                (case rs_data resp of
                   None \<Rightarrow> True
                 | Some info \<Rightarrow> \<not> supports_client info current_version MIN_REQUIRED_SERVICE_REVISION)
            | Inl e \<Rightarrow> True)))"

section \<open>Who serves the pipe\<close>

definition is_local_system_account :: "string \<Rightarrow> bool" where
  "is_local_system_account account \<longleftrightarrow>
     map ascii_lower account \<in> {''localsystem'', ''nt authority'' @ [CHR 0x5C] @ ''system''}"

definition trusted_service_identity :: "u32 \<Rightarrow> u32 option \<Rightarrow> string option \<Rightarrow> bool" where
  "trusted_service_identity pipe_process_id service_process_id account \<longleftrightarrow>
     pipe_process_id \<noteq> 0 \<and> service_process_id = Some pipe_process_id \<and>
     (case account of None \<Rightarrow> False | Some a \<Rightarrow> is_local_system_account a)"

text \<open>What the service control manager answers about the registered service: its process and its account.\<close>

definition verify_registered_service_process_id ::
  "err + (err + u32 option) \<times> (err + string option) \<Rightarrow> u32 \<Rightarrow> err + unit" where
  "verify_registered_service_process_id service pipe_process_id =
     bindR (map_err (Ctx ''failed to query registered service'') service) (\<lambda>(status, config).
     bindR (map_err (Ctx ''failed to query status for service'') status) (\<lambda>process_id.
     bindR (map_err (Ctx ''failed to query configuration for service'') config) (\<lambda>account_name.
       ensure (trusted_service_identity pipe_process_id process_id account_name)
         (Msg ''Windows named-pipe server does not match the registered LocalSystem service process''))))"


section \<open>Agreement of client and service\<close>

text \<open>
  C23. The client's check of the service and the service's check of the client agree. A client of any version that
  asks the service which versions it supports finds itself supported exactly when the service is new enough for
  it and the version gate of the service admits its requests: no client that takes the service for compatible is
  refused afterwards, and no client is sent to reinstall a service that would have admitted it.
\<close>

theorem supported_client_is_admitted:
  "supports_client (current_info version) v least \<longleftrightarrow>
     least \<le> PROTOCOL_REVISION \<and>
     require_protocol_version (context_of peer (r\<lparr>wr_headers := [(SERVICE_PROTOCOL_HEADER, header_value v)]\<rparr>)) = Inr ()"
  by (auto simp: supports_client_def current_info_def require_protocol_version_def context_of_def visible_header
      parsed_header ensure_def current_version_def split: if_splits)

text \<open>The transport ends at this service: what the router finds a handler for is what the handler answers.\<close>

definition delivers :: "params \<Rightarrow> (u32 \<times> u32) option \<Rightarrow> transport \<Rightarrow> bool" where
  "delivers E peer T \<longleftrightarrow>
     (\<forall>c r q w h v. route r = Some q \<longrightarrow> serve E (context_of peer r) q w = (Inr h, v) \<longrightarrow> T c r w = (Inr h, v))"

lemma served_magic: "serve E (context_of peer magic_request) MagicRequest w = (Inr \<lparr>hr_status = 200, hr_body = TextBody ''Tunglies!''\<rparr>, w)"
  by (simp add: handle_magic_def ipc_request_context_to_auth_context_def context_of_def magic_request_def IPC_AUTH_HEADER_KEY_def
      liftE_def bindE_def okE_def)

lemma served_version: "serve E (context_of peer version_request) VersionRequest w = (Inr (ok_json (Protocol (current_info (pkg_version E)))), w)"
  by (simp add: handle_version_def ipc_request_context_to_auth_context_def context_of_def version_request_def IPC_AUTH_HEADER_KEY_def
      liftE_def bindE_def okE_def)

lemma version_served:
  assumes "delivers E peer T" and "\<And>k. fault w k = None" and "fs w (abs_path (IPC_PATH (bd E))) \<noteq> None"
  shows "\<exists>v. get_version E T configured w =
    (Inr \<lparr>rs_code = 0, rs_message = ''Success'', rs_data = Some (current_info (pkg_version E))\<rparr>, v)"
proof -
  from assms(1) served_magic [of E peer] have magic: "T c magic_request w = (Inr \<lparr>hr_status = 200, hr_body = TextBody ''Tunglies!''\<rparr>, w)" for c w
    unfolding delivers_def by (simp add: magic_request_def route_def del: command_path.simps)
  from assms(1) served_version [of E peer] have version: "T c version_request w = (Inr (ok_json (Protocol (current_info (pkg_version E)))), w)" for c w
    unfolding delivers_def by (simp add: version_request_def route_def del: command_path.simps)
  show ?thesis
    using assms(2,3)
    by (auto simp: get_version_def connect_def path_metadata_def syscall_def bindE_def mapErrE_def magic version okE_def
        liftE_def decode_response_def ok_json_def json_response_def Let_def split: option.splits)
qed

text \<open>
  A client is not told to reinstall the service it came with. If the transport ends at a service of the same
  build, no system call fails and the socket of the service is there, then \<open>is_reinstall_service_needed\<close>
  answers no; and where there is no socket it answers no as well, without asking anyone.
\<close>

lemma current_service_needs_no_reinstall:
  assumes "\<And>k. fault w k = None"
    and "delivers E peer T \<or> fs w (abs_path (IPC_PATH (bd E))) = None"
  shows "\<exists>v. is_reinstall_service_needed E T configured w = (Inr False, v)"
proof (cases "fs w (abs_path (IPC_PATH (bd E))) = None")
  case True
  with assms(1) show ?thesis
    by (simp add: is_reinstall_service_needed_def is_ipc_path_exists_def fs_exists_def fs_try_exists_def syscall_def bindE_def
        tryE_eq okE_def Let_def)
next
  case False
  let ?w = "w\<lparr>tick := Suc (tick w)\<rparr>"
  from False assms(2) have d: "delivers E peer T" by auto
  obtain v where "get_version E T configured ?w =
      (Inr \<lparr>rs_code = 0, rs_message = ''Success'', rs_data = Some (current_info (pkg_version E))\<rparr>, v)"
    using version_served [OF d, of ?w] assms(1) False by auto
  then show ?thesis
    using assms(1) False
    by (simp add: is_reinstall_service_needed_def is_ipc_path_exists_def fs_exists_def fs_try_exists_def syscall_def bindE_def
        tryE_eq okE_def Let_def supports_client_def current_info_def current_version_def MIN_REQUIRED_SERVICE_REVISION_def
        MIN_SUPPORTED_CLIENT_REVISION_def PROTOCOL_REVISION_def)
qed

text \<open>A transport that ends at the service.\<close>

definition loopback :: "params \<Rightarrow> (u32 \<times> u32) option \<Rightarrow> transport" where
  "loopback E peer c r =
     (case route r of
        None \<Rightarrow> failE ''no route''
      | Some q \<Rightarrow> mapErrE (\<lambda>_. ''refused'') (serve E (context_of peer r) q))"

section \<open>Every answer is one the client understands\<close>

text \<open>The data of a successful answer to a call; \<open>()\<close> is no data.\<close>

fun answers_call :: "client_call \<Rightarrow> reply \<Rightarrow> bool" where
  "answers_call CallStatus r \<longleftrightarrow> (case r of StatusReport s \<Rightarrow> True | _ \<Rightarrow> False)"
| "answers_call (CallStart body) r \<longleftrightarrow> (case r of Started s \<Rightarrow> True | _ \<Rightarrow> False)"
| "answers_call CallLogs r \<longleftrightarrow> (case r of Logs s \<Rightarrow> True | _ \<Rightarrow> False)"
| "answers_call CallLogSnapshot r \<longleftrightarrow> (case r of LogSnapshot s \<Rightarrow> True | _ \<Rightarrow> False)"
| "answers_call (CallStop session) r \<longleftrightarrow> r = NoData"
| "answers_call (CallStage session body) r \<longleftrightarrow> (case r of StageOutcome s \<Rightarrow> True | _ \<Rightarrow> False)"
| "answers_call (CallWriter session body) r \<longleftrightarrow> r = NoData"
| "answers_call (CallProxy session body) r \<longleftrightarrow> (case r of ProxyOutcome s \<Rightarrow> True | _ \<Rightarrow> False)"

definition success_of :: "client_call \<Rightarrow> http_response \<Rightarrow> bool" where
  "success_of call h \<longleftrightarrow> hr_status h = 200 \<and>
     (case hr_body h of JsonBody code message data \<Rightarrow> code = 0 \<and> answers_call call data | TextBody t \<Rightarrow> False)"

definition refusal :: "http_response \<Rightarrow> bool" where
  "refusal h \<longleftrightarrow> 400 \<le> hr_status h \<and>
     (case hr_body h of JsonBody code message data \<Rightarrow> code \<noteq> 0 \<and> data = NoData | TextBody t \<Rightarrow> False)"

lemma refusals [simp]:
  "refusal (service_error_response e)" "refusal (bad_request m)" "refusal (service_unavailable m)"
proof -
  have "error_code_u16 c \<noteq> 0" for c by (cases c) simp_all
  then show "refusal (service_error_response e)"
    by (simp add: refusal_def service_error_response_def json_response_def split: service_error_code.split)
qed (simp_all add: refusal_def bad_request_def service_unavailable_def json_response_def)

lemma successes [simp]:
  "success_of call (ok_json data) \<longleftrightarrow> answers_call call data"
  "success_of call (ok_empty m) \<longleftrightarrow> answers_call call NoData"
  by (simp_all add: success_of_def ok_json_def ok_empty_def json_response_def)

text \<open>A flow whose early answers are refusals, and whose last one is a success of the call or a refusal.\<close>

abbreviation refuses :: "'a flow \<Rightarrow> bool" where
  "refuses m \<equiv> triple (\<lambda>_. True) m (\<lambda>_ _. True) (\<lambda>h _. refusal h)"

abbreviation concludes :: "client_call \<Rightarrow> http_response flow \<Rightarrow> bool" where
  "concludes call m \<equiv> triple (\<lambda>_. True) m (\<lambda>h _. success_of call h \<or> refusal h) (\<lambda>h _. refusal h)"

lemma refuses_mapErrE: "(\<And>e. refusal (f e)) \<Longrightarrow> refuses (mapErrE f m)"
  by (rule triple_mapErrE) (simp add: triple_def)

lemma refuses_liftE: "(\<And>e. refusal (f e)) \<Longrightarrow> refuses (liftE (map_err f r))"
  by (cases r) (auto simp: triple_def liftE_def)

lemma refuses_rules:
  "refuses m \<Longrightarrow> (\<And>x. concludes call (k x)) \<Longrightarrow> concludes call (bindE m k)"
  "refuses n \<Longrightarrow> (\<And>x. refuses (l x)) \<Longrightarrow> refuses (bindE n l)"
  "(\<And>r. concludes call (h r)) \<Longrightarrow> concludes call (tryE u h)"
  "success_of call x \<or> refusal x \<Longrightarrow> concludes call (okE x)"
  "refusal x \<Longrightarrow> concludes call (failE x)"
  "refuses (okE y)" "refuses (get g)" "refuses (modify j)"
  subgoal by (rule triple_bindE)
  subgoal by (rule triple_bindE)
  subgoal by (rule triple_tryE [where Q = "\<lambda>_ _. True" and R = "\<lambda>_ _. True"]) (simp_all add: triple_def)
  by (auto simp: triple_def okE_def failE_def get_def modify_def)

lemma refuses_gates: "refuses (authenticate_request E c f body)" "refuses (enter_owner_lifecycle E owner gate)"
  unfolding authenticate_request_def enter_owner_lifecycle_def
  by (intro refuses_rules refuses_mapErrE refuses_liftE; simp)+

lemma concludes_locked: "concludes (CallStart b) (start_locked E owner request)" "concludes (CallStop s) (stop_locked E owner)"
  "concludes (CallWriter s p) (update_writer_locked E owner payload)"
  unfolding start_locked_def stop_locked_def update_writer_locked_def Let_def
  by (auto intro!: refuses_rules refuses_mapErrE split: prod.split sum.split)

lemma handlers_conclude:
  "concludes CallStatus (handle_status E c b1)" "concludes (CallStart p2) (handle_start_clash E c b2)"
  "concludes CallLogs (handle_logs E c b3)" "concludes CallLogSnapshot (handle_log_snapshot E c b4)"
  "concludes (CallStop s) (handle_stop_clash E c b5)" "concludes (CallStage s p6) (handle_stage_runtime E c b6)"
  "concludes (CallWriter s p7) (handle_update_writer E c b7)" "concludes (CallProxy s p8) (handle_set_proxy E c b8)"
  unfolding handle_status_def handle_start_clash_def handle_logs_def handle_log_snapshot_def handle_stop_clash_def
    handle_stage_runtime_def handle_update_writer_def handle_set_proxy_def Let_def
  by (auto intro!: refuses_rules refuses_gates concludes_locked refuses_mapErrE refuses_liftE split: prod.split sum.split option.split)

lemma respond_concludes: "concludes call m \<Longrightarrow> \<exists>h v. respond m w = (Inr h, v) \<and> (success_of call h \<or> refusal h)"
  by (cases "m w") (auto simp: respond_def triple_def tryE_eq okE_def split: sum.split)


end
