(* ===== verification/Listener.thy ===== *)
theory Listener
  imports Service Owner
begin

text \<open>
  The IPC listener and its supervisor (\<open>run_ipc_server\<close>, \<open>stop_ipc_server\<close> and
  \<open>run_ipc_supervisor_until_shutdown\<close> in \<open>src/core/server.rs\<close>), and the daemon that runs it
  (\<open>src/bin/service.rs\<close>). The listener itself is \<open>kode_bridge\<close>'s; building one may fail. What happens
  to it is a list of events, of which the supervisor sees one at a time.
\<close>

section \<open>The listener\<close>

text \<open>\<open>IPC_SERVER\<close> and the two ends of the channels to the running server task: whether each static holds one.\<close>

record ipc_cells =
  ipc_server :: bool
  ipc_shutdown_sender :: bool
  ipc_shutdown_done :: bool

type_synonym 'a ipc = "(ipc_cells \<times> world, err, 'a) op"

definition in_world :: "'a act \<Rightarrow> 'a ipc" where
  "in_world m = (\<lambda>(c, w). (case m w of (r, v) \<Rightarrow> (r, (c, v))))"

definition set_cells :: "(ipc_cells \<Rightarrow> ipc_cells) \<Rightarrow> unit ipc" where
  "set_cells f = (\<lambda>(c, w). (Inr (), (f c, w)))"

definition get_cells :: "(ipc_cells \<Rightarrow> 'a) \<Rightarrow> 'a ipc" where
  "get_cells f = (\<lambda>(c, w). (Inr (f c), (c, w)))"

definition IPC_MAX_RESTARTS :: u32 where "IPC_MAX_RESTARTS = 10"
definition IPC_RESTART_WINDOW :: nat where "IPC_RESTART_WINDOW = 10000"
definition IPC_MAX_BACKOFF :: nat where "IPC_MAX_BACKOFF = 500"

definition ensure_control_runtime_dir :: "path \<Rightarrow> unit act" where
  "ensure_control_runtime_dir dir = mapErrE (\<lambda>e. Msg (show_outer e)) (ensure_service_directory dir 493)"

definition make_ipc_dir :: "params \<Rightarrow> unit act" where
  "make_ipc_dir E =
     (if is_unix (os (bd E)) then
        (case path_parent (sp_ipc_path (paths_of E)) of
           None \<Rightarrow> okE ()
         | Some dir \<Rightarrow> ensure_control_runtime_dir dir)
      else okE ())"

definition cleanup_ipc_path :: "params \<Rightarrow> unit act" where
  "cleanup_ipc_path E =
     (if is_unix (os (bd E)) then
        bindE (fs_exists (sp_ipc_path (paths_of E))) (\<lambda>there.
          if there then io_act (fs_remove_file (sp_ipc_path (paths_of E))) else okE ())
      else okE ())"

definition cleanup_stale_ipc_socket :: "params \<Rightarrow> unit act" where
  "cleanup_stale_ipc_socket E =
     (if is_unix (os (bd E)) then
        (let socket_path = sp_ipc_path (paths_of E) in
         bindE (fs_exists socket_path) (\<lambda>there.
           if \<not> there then okE ()
           else
             bindE (is_core_socket_reachable (path_text socket_path)) (\<lambda>connected.
               if connected then okE () else io_act (fs_remove_file socket_path))))
      else okE ())"

text \<open>Building the server reads its path and may fail; nothing listens before it is served.\<close>

definition create_ipc_server :: "params \<Rightarrow> unit act" where
  "create_ipc_server E = io_act (syscall (\<lambda>w. (Inr (), w)))"

definition init_ipc_state :: "params \<Rightarrow> unit ipc" where
  "init_ipc_state E =
     bindE (in_world (create_ipc_server E)) (\<lambda>_.
       set_cells (\<lambda>c. c\<lparr>ipc_server := True\<rparr>))"

definition shutdown_ipc_server :: "unit ipc" where
  "shutdown_ipc_server = set_cells (\<lambda>c. c\<lparr>ipc_server := False\<rparr>)"

text \<open>The server moves from its static into the task that serves it.\<close>

definition run_ipc_server :: "params \<Rightarrow> unit ipc" where
  "run_ipc_server E =
     bindE (in_world (make_ipc_dir E)) (\<lambda>_.
     bindE (in_world (cleanup_stale_ipc_socket E)) (\<lambda>_.
     bindE (init_ipc_state E) (\<lambda>_.
     bindE (set_cells (\<lambda>c. c\<lparr>ipc_shutdown_sender := True, ipc_shutdown_done := True\<rparr>)) (\<lambda>_.
     bindE (get_cells ipc_server) (\<lambda>initialized.
     bindE (set_cells (\<lambda>c. c\<lparr>ipc_server := False\<rparr>)) (\<lambda>_.
       if initialized then okE () else failE (Msg ''IPC server not initialized'')))))))"

text \<open>The task answers the shutdown signal, so waiting for it ends.\<close>

definition stop_ipc_server :: "params \<Rightarrow> unit ipc" where
  "stop_ipc_server E =
     bindE (in_world (mapErrE (\<lambda>e. Msg (show_outer e)) (stop_core E))) (\<lambda>_.
     bindE (set_cells (\<lambda>c. c\<lparr>ipc_shutdown_sender := False, ipc_shutdown_done := False\<rparr>)) (\<lambda>_.
     bindE shutdown_ipc_server (\<lambda>_.
       in_world (cleanup_ipc_path E))))"

section \<open>The supervisor\<close>

definition ipc_backoff_delay :: "u32 \<Rightarrow> nat" where
  "ipc_backoff_delay attempt =
     (if attempt = 0 then 0
      else min (unat (push_bit (unat (min (attempt - 1) 3)) (100 :: u64))) IPC_MAX_BACKOFF)"

record supervisor =
  restart_timestamps :: "nat list"
  consecutive_attempt :: u32

datatype supervisor_event = ShutdownSignal | ServerExited

datatype supervisor_task = Supervising supervisor | SupervisorDone "err + unit"

definition set_service_state :: "lifecycle_state \<Rightarrow> unit ipc" where
  "set_service_state s = in_world (modify (set_service_lifecycle_state s))"

definition ipc_recent :: "nat \<Rightarrow> nat list \<Rightarrow> nat list" where
  "ipc_recent t timestamps = filter (\<lambda>s. t - s < IPC_RESTART_WINDOW) timestamps"

definition after_server_exit :: "nat \<Rightarrow> supervisor \<Rightarrow> supervisor" where
  "after_server_exit t s =
     (let recent = ipc_recent t (restart_timestamps s) in
      \<lparr>restart_timestamps = recent @ [t],
       consecutive_attempt = (if recent = [] then 0 else consecutive_attempt s)\<rparr>)"

text \<open>\<open>ipc_backoff_delay (consecutive_attempt s)\<close> is how long the supervisor sleeps before it rebuilds the listener.\<close>

definition rebuild_listener :: "params \<Rightarrow> supervisor \<Rightarrow> supervisor_task ipc" where
  "rebuild_listener E s =
     tryE (run_ipc_server E) (\<lambda>rebuilt.
       (case rebuilt of
          Inl e \<Rightarrow>
            bindE (set_service_state Fatal) (\<lambda>_.
              okE (SupervisorDone (Inl (Msg (''failed to rebuild IPC server: '' @ show_outer e)))))
        | Inr _ \<Rightarrow>
            bindE (set_service_state Running) (\<lambda>_.
              okE (Supervising (s\<lparr>consecutive_attempt := consecutive_attempt s + 1\<rparr>)))))"

definition server_exited :: "params \<Rightarrow> supervisor \<Rightarrow> supervisor_task ipc" where
  "server_exited E s =
     bindE (set_service_state RecoveringIpc) (\<lambda>_.
     bindE (in_world read_instant) (\<lambda>now_instant.
     (let s' = after_server_exit now_instant s in
      if IPC_MAX_RESTARTS < of_nat (length (restart_timestamps s')) then
        bindE (set_service_state Fatal) (\<lambda>_.
          okE (SupervisorDone (Inl (Msg (''IPC server restarted '' @ show_nat (length (restart_timestamps s')) @ '' times in 10s'')))))
      else rebuild_listener E s')))"

definition supervisor_step :: "params \<Rightarrow> supervisor_event \<Rightarrow> supervisor \<Rightarrow> supervisor_task ipc" where
  "supervisor_step E event s =
     (case event of
        ShutdownSignal \<Rightarrow> tryE (stop_ipc_server E) (\<lambda>r. okE (SupervisorDone r))
      | ServerExited \<Rightarrow> server_exited E s)"

fun supervise :: "params \<Rightarrow> supervisor_event list \<Rightarrow> supervisor \<Rightarrow> supervisor_task ipc" where
  "supervise E [] s = okE (Supervising s)"
| "supervise E (event # events) s =
     bindE (supervisor_step E event s) (\<lambda>task.
       (case task of
          Supervising s' \<Rightarrow> supervise E events s'
        | SupervisorDone r \<Rightarrow> okE (SupervisorDone r)))"

definition run_ipc_supervisor :: "params \<Rightarrow> supervisor_event list \<Rightarrow> supervisor_task ipc" where
  "run_ipc_supervisor E events =
     bindE (set_service_state Starting) (\<lambda>_.
     tryE (run_ipc_server E) (\<lambda>started.
       (case started of
          Inl e \<Rightarrow>
            bindE (set_service_state Fatal) (\<lambda>_.
              okE (SupervisorDone (Inl (Msg (''failed to start IPC server: '' @ show_outer e)))))
        | Inr _ \<Rightarrow>
            bindE (set_service_state Running) (\<lambda>_.
              supervise E events \<lparr>restart_timestamps = [], consecutive_attempt = 0\<rparr>))))"

section \<open>The daemon\<close>

text \<open>Neither a failed reconciliation nor a failed restoration keeps the listener from starting.\<close>

definition recover_core :: "params \<Rightarrow> unit act" where
  "recover_core E =
     tryE (reconcile_service_startup E) (\<lambda>r.
       (case r of
          Inl e \<Rightarrow> okE ()
        | Inr _ \<Rightarrow> tryE (restore_desired_state E) (\<lambda>_. okE ())))"

text \<open>The guard of the owner lock is dropped when the supervisor has ended, however it ended.\<close>

definition run_standalone :: "params \<Rightarrow> supervisor_event list \<Rightarrow> supervisor_task ipc" where
  "run_standalone E events =
     bindE (in_world (acquire_service_owner E)) (\<lambda>owned.
       if \<not> owned then okE (SupervisorDone (Inr ()))
       else
         bindE (in_world (recover_core E)) (\<lambda>_.
         bindE (run_ipc_supervisor E events) (\<lambda>task.
           (case task of
              Supervising s \<Rightarrow> okE (Supervising s)
            | SupervisorDone r \<Rightarrow> bindE (in_world (release_service_owner E)) (\<lambda>_. okE (SupervisorDone r))))))"

text \<open>
  As a Windows service the same steps run under the service dispatcher, which is told whether they failed. The
  result is \<open>None\<close> while the supervisor is waiting.
\<close>

definition run_service :: "params \<Rightarrow> supervisor_event list \<Rightarrow> bool option ipc" where
  "run_service E events =
     tryE (in_world (acquire_service_owner E)) (\<lambda>acquired.
       (case acquired of
          Inl e \<Rightarrow> okE (Some True)
        | Inr owned \<Rightarrow>
            if \<not> owned then okE (Some False)
            else
              bindE (in_world (recover_core E)) (\<lambda>_.
              bindE (run_ipc_supervisor E events) (\<lambda>task.
                (case task of
                   Supervising s \<Rightarrow> okE None
                 | SupervisorDone r \<Rightarrow>
                     bindE (in_world (release_service_owner E)) (\<lambda>_.
                       okE (Some (case r of Inl e \<Rightarrow> True | Inr _ \<Rightarrow> False))))))))"

definition service_exit_code :: "bool \<Rightarrow> u32" where
  "service_exit_code fatal = (if fatal then 1 else 0)"

section \<open>Restarts of the listener\<close>

text \<open>What an operation on the world keeps, it keeps beside the cells.\<close>

lemma keeps_in_world [frame]: "keeps f m \<Longrightarrow> keeps (f \<circ> snd) (in_world m)"
  by (auto simp: keeps_def in_world_def split: prod.splits) (metis snd_conv)

lemma keeps_cells [frame]: "keeps (f \<circ> snd) (set_cells g)" "keeps (f \<circ> snd) (get_cells h)"
  by (simp_all add: keeps_def set_cells_def get_cells_def split: prod.splits)

lemma listener_keeps [frame]:
  assumes "blind_to_files f"
  shows "keeps (f \<circ> snd) (run_ipc_server E)"
proof -
  have t: "keeps f (is_core_socket_reachable p)" for p
    by (simp add: keeps_def is_core_socket_reachable_def blind_tick [OF assms])
  have "keeps f (create_ipc_server E)"
    unfolding create_ipc_server_def by (intro frame blind_syscall assms) (simp add: keeps_def)
  moreover have "keeps f (make_ipc_dir E)" "keeps f (cleanup_stale_ipc_socket E)"
    unfolding make_ipc_dir_def ensure_control_runtime_dir_def cleanup_stale_ipc_socket_def Let_def
    by (intro frame blind assms t)+
  ultimately show ?thesis
    unfolding run_ipc_server_def init_ipc_state_def by (intro frame)
qed

definition ipc_steady :: "environment \<Rightarrow> bool" where
  "ipc_steady e \<longleftrightarrow> (\<forall>a b. ev_instant e a - ev_instant e b < IPC_RESTART_WINDOW)"

lemma ipc_recent_steady:
  "ipc_steady e \<Longrightarrow> set ts \<subseteq> range (ev_instant e) \<Longrightarrow> ipc_recent (ev_instant e k) ts = ts"
  by (auto simp: ipc_recent_def ipc_steady_def filter_id_conv)

text \<open>What one exit of the listener leads to while the window does not pass.\<close>

definition counted :: "environment \<Rightarrow> nat \<Rightarrow> supervisor_task \<Rightarrow> ipc_cells \<times> world \<Rightarrow> bool" where
  "counted e n task cw \<longleftrightarrow> env (snd cw) = e \<and>
     (case task of
        Supervising s \<Rightarrow> length (restart_timestamps s) = n \<and> n \<le> 10 \<and> set (restart_timestamps s) \<subseteq> range (ev_instant e)
      | SupervisorDone r \<Rightarrow> r \<noteq> Inr () \<and> service_lifecycle_state (snd cw) = Fatal)"

lemma set_service_run: "set_service_state st (c, w) = (Inr (), (c, set_service_lifecycle_state st w))"
  by (simp add: set_service_state_def in_world_def modify_def)

lemma env_set_service [simp]: "env (set_service_lifecycle_state st w) = env w"
  by (simp add: set_service_lifecycle_state_def)

lemma small_word: "n \<le> 11 \<Longrightarrow> (10 :: u32) < of_nat n \<longleftrightarrow> 10 < n"
  using small_length [of n] by auto

lemma exit_counted:
  assumes "ipc_steady (env w)" and "counted (env w) n (Supervising s) (c, w)"
  shows "\<exists>task cw. server_exited E s (c, w) = (Inr task, cw) \<and> counted (env w) (Suc n) task cw"
proof -
  let ?w = "set_service_lifecycle_state RecoveringIpc w"
  let ?t = "ev_instant (env w) (tick ?w)" and ?w1 = "?w\<lparr>tick := Suc (tick ?w)\<rparr>"
  let ?s = "after_server_exit ?t s"
  have now: "in_world read_instant (c, ?w) = (Inr ?t, (c, ?w1))"
    by (simp add: in_world_def read_instant_def)
  from assms have ts: "ipc_recent ?t (restart_timestamps s) = restart_timestamps s"
    by (intro ipc_recent_steady) (auto simp: counted_def)
  then have len: "length (restart_timestamps ?s) = Suc n" "Suc n \<le> 11"
    and range: "set (restart_timestamps ?s) \<subseteq> range (ev_instant (env w))"
    using assms(2) by (auto simp: after_server_exit_def counted_def Let_def)
  obtain r c2 w2 where 2: "run_ipc_server E (c, ?w1) = (r, (c2, w2))" by (metis prod.collapse)
  have env2: "env w2 = env w"
    using keepsD [OF listener_keeps [of env] 2] by simp
  have over: "IPC_MAX_RESTARTS < of_nat (Suc n) \<longleftrightarrow> 10 < Suc n"
    unfolding IPC_MAX_RESTARTS_def by (rule small_word [OF len(2)])
  show ?thesis
    using len range env2
    by (cases r) (auto simp: server_exited_def bindE_def set_service_run now Let_def over
        rebuild_listener_def tryE_eq 2 okE_def counted_def simp del: of_nat_Suc)
qed

lemma exits_counted:
  assumes "ipc_steady (env w)" and "counted (env w) n (Supervising s) (c, w)" and "10 < n + k"
  shows "\<exists>r cw. supervise E (replicate k ServerExited @ events) s (c, w) = (Inr (SupervisorDone r), cw) \<and>
    r \<noteq> Inr () \<and> service_lifecycle_state (snd cw) = Fatal"
  using assms
proof (induction k arbitrary: n s c w)
  case 0
  then show ?case by (simp add: counted_def)
next
  case (Suc k)
  from exit_counted [OF Suc.prems(1,2), of E] obtain task c1 w1 where
    1: "server_exited E s (c, w) = (Inr task, (c1, w1))" "counted (env w) (Suc n) task (c1, w1)" by auto
  show ?case
  proof (cases task)
    case (SupervisorDone r)
    with 1 show ?thesis by (auto simp: supervisor_step_def bindE_def okE_def counted_def)
  next
    case (Supervising s1)
    from 1(2) have e: "env w1 = env w" by (simp add: counted_def)
    from Suc.IH [of w1 "Suc n" s1 c1] Suc.prems 1(2) e Supervising show ?thesis
      by (auto simp: supervisor_step_def bindE_def 1(1))
  qed
qed

text \<open>
  C31. The supervisor of the listener gives up a listener that keeps exiting. If the clock stays within one
  restart window, then after eleven exits, whatever rebuilding the listener does in between, and whatever events
  follow, it returns an error and reports the state \<open>Fatal\<close>: it neither spins nor hangs.
\<close>

theorem listener_crash_loop_gives_up:
  assumes "ipc_steady (env w)"
  shows "\<exists>r cw. run_ipc_supervisor E (replicate 11 ServerExited @ events) (c, w) = (Inr (SupervisorDone r), cw) \<and>
    r \<noteq> Inr () \<and> service_lifecycle_state (snd cw) = Fatal"
proof -
  let ?w = "set_service_lifecycle_state Starting w"
  obtain r c1 w1 where 1: "run_ipc_server E (c, ?w) = (r, (c1, w1))" by (metis prod.collapse)
  have env1: "env w1 = env w" using keepsD [OF listener_keeps [of env] 1] by simp
  let ?w2 = "set_service_lifecycle_state Running w1"
  show ?thesis
  proof (cases r)
    case (Inl e)
    then show ?thesis
      by (auto simp: run_ipc_supervisor_def bindE_def set_service_run tryE_eq 1 okE_def)
  next
    case (Inr u)
    have "counted (env ?w2) 0 (Supervising \<lparr>restart_timestamps = [], consecutive_attempt = 0\<rparr>) (c1, ?w2)"
      by (simp add: counted_def)
    from exits_counted [OF _ this, of 11 E events] assms env1 Inr show ?thesis
      by (simp add: run_ipc_supervisor_def bindE_def set_service_run tryE_eq 1)
  qed
qed

text \<open>
  The supervisor's delays: none before the first attempt, then 100, 200, 400 and at most 500
  milliseconds, never falling while attempts add up.
\<close>

lemma ipc_backoff_schedule:
  "ipc_backoff_delay a = [0, 100, 200, 400, 500] ! min (unat a) 4 \<and> (a \<le> b \<longrightarrow> ipc_backoff_delay a \<le> ipc_backoff_delay b)"
proof -
  have eq: "ipc_backoff_delay a = [0, 100, 200, 400, 500] ! min (unat a) 4" for a
  proof (cases "a = 0")
    case False
    then have pos: "unat a \<noteq> 0" by (simp add: unat_eq_0)
    from False have shift: "unat (min (a - 1) 3) = min (unat a - 1) 3"
      by (simp add: min_def word_le_nat_alt unat_minus_one)
    from pos consider "unat a = 1" | "unat a = 2" | "unat a = 3" | "4 \<le> unat a" by linarith
    then show ?thesis
      by cases (simp_all add: ipc_backoff_delay_def IPC_MAX_BACKOFF_def False shift)
  qed (simp add: ipc_backoff_delay_def)
  have "[0, 100, 200, 400, 500 :: nat] ! min m 4 \<le> [0, 100, 200, 400, 500] ! min n 4" if "m \<le> n" for m n
    by (rule sorted_nth_mono) (use that in \<open>simp_all add: min_def\<close>)
  with eq show ?thesis by (auto simp: word_le_nat_alt)
qed

section \<open>Shutting down\<close>

lemma cleanup_path_mgr: "keeps mgr (cleanup_ipc_path E)"
  unfolding cleanup_ipc_path_def by (intro frame blind blind_fields)

lemma cleanup_path_ok:
  assumes "cleanup_ipc_path E w = (Inr u, v)" and "is_unix (os (bd E))" and "\<forall>k. fault w k = None"
  shows "fs v (sp_ipc_path (paths_of E)) = None \<and> mgr v = mgr w"
proof -
  have "mgr v = mgr w" by (rule keepsD [OF cleanup_path_mgr assms(1)])
  with assms show ?thesis
    by (auto simp: cleanup_ipc_path_def fs_exists_def tryE_eq bindE_def fs_try_exists_def fs_remove_file_def syscall_def
        io_act_def mapErrE_def okE_def Let_def set_node_def split: option.splits if_splits)
qed


lemma calm_shutdown:
  "fst (supervisor_step plain_params ShutdownSignal \<lparr>restart_timestamps = [], consecutive_attempt = 0\<rparr>
     (\<lparr>ipc_server = False, ipc_shutdown_sender = True, ipc_shutdown_done = True\<rparr>, calm_world Map.empty))
   = Inr (SupervisorDone (Inr ()))"
  by code_simp


section \<open>Restoring the core\<close>

lemma loaded_wanted:
  assumes "read_owner_desired_state_resilient p w = (Inr s, v)" and "ds_core_should_be_running s"
  shows "stored de_desired p w = Some s"
proof -
  obtain r1 w1 where 1: "secure_state_file_if_exists p w = (r1, w1)" by (cases "secure_state_file_if_exists p w")
  obtain r2 w2 where 2: "fs_read p w1 = (r2, w2)" by (cases "fs_read p w1")
  have "\<not> ds_core_should_be_running default_desired_state" by (simp add: default_desired_state_def)
  with assms 1 2 obtain u c where c: "r1 = Inr u" "r2 = Inr c" "Option.bind (content_json c) de_desired = Some s"
    by (auto simp: read_owner_desired_state_resilient_def tryE_eq okE_def split: sum.splits option.splits)
  from fs_read_ok [OF 2 [unfolded c(2)]] have "file_data p w1 = Some (RegularFile, c)"
    by (auto simp: file_data_def)
  with keepsD [OF secure_state_data 1] c(3) show ?thesis by (simp add: stored_def)
qed

definition legacy_apart :: "params \<Rightarrow> path \<Rightarrow> bool" where
  "legacy_apart E q \<longleftrightarrow> (\<forall>p \<in> set (legacy_desired_states E). q \<noteq> p \<and> q \<noteq> with_extension p ''json.legacy.bak'')"

lemma state_files_apart:
  assumes "is_unix (os (bd E))"
  shows "legacy_apart E (active_owner_path (paths_of E))" "legacy_apart E (desired_path E key)"
  using assms
  by (cases rule: unix_build_cases;
      simp add: legacy_apart_def legacy_desired_states_def with_extension_def active_owner_path_def desired_path_def
        owner_desired_state_path_def for_owner_key_def paths_of_def service_paths_of_def Let_def persistent_dir_values)+

lemma backup_keeps:
  "legacy_apart E q \<Longrightarrow> keeps (file_data q) (backup_legacy_desired_states E)"
  "blind_to_files f \<Longrightarrow> keeps f (backup_legacy_desired_states E)"
proof -
  show "keeps f (backup_legacy_desired_states E)" if "blind_to_files f"
    unfolding backup_legacy_desired_states_def backup_legacy_state_file_def Let_def
    by (intro frame blind that keeps_case_sum keeps_if) (auto intro!: frame blind that split: bool.splits)
  have one: "keeps (file_data q) (backup_legacy_state_file p)" if "q \<noteq> p" "q \<noteq> with_extension p ''json.legacy.bak''" for p
    using that unfolding backup_legacy_state_file_def Let_def
    by (auto intro!: frame files split: bool.splits)
  have "keeps (file_data q) (eachE (\<lambda>p. tryE (backup_legacy_state_file p) (\<lambda>_. okE ())) ps)"
    if "\<forall>p \<in> set ps. q \<noteq> p \<and> q \<noteq> with_extension p ''json.legacy.bak''" for ps
    using that by (induction ps) (auto intro!: frame one)
  then show "keeps (file_data q) (backup_legacy_desired_states E)" if "legacy_apart E q"
    using that unfolding backup_legacy_desired_states_def legacy_apart_def by blast
qed

definition brood :: "world \<Rightarrow> u32 list \<times> bool" where
  "brood w = (children w, startup_reconciled w)"

lemma blind_brood [simp]: "blind_to_files brood" "blind_to_state_files brood"
  by (simp_all add: blind_to_files_def blind_to_state_files_def brood_def)

lemma brood_ops:
  "keeps brood (set_or_update_writer c)" "keeps brood (set_core_state st)"
  "keeps brood (persist_owner_core_stopped_by_key E key)"
proof -
  show "keeps brood (set_or_update_writer c)"
    unfolding set_or_update_writer_def by (intro frame blind_syscall) (simp_all add: keeps_def brood_def)
  show "keeps brood (set_core_state st)"
    by (simp add: keeps_def set_core_state_def set_core_lifecycle_state_def modify_def brood_def)
  show "keeps brood (persist_owner_core_stopped_by_key E key)"
    unfolding persist_owner_core_stopped_by_key_def by (intro blind) simp
qed

lemma unreconciled_start:
  "\<not> startup_reconciled w \<Longrightarrow> start_core E config owner w =
     (Inl (Msg ''core startup reconciliation has not completed''), w)"
  by (simp add: start_core_def ensure_startup_reconciled_def bindE_def get_def liftE_def ensure_def)

lemma unreconciled_restore:
  assumes "\<not> startup_reconciled w" and "restore_core E a config w = (r, v)"
  shows "children v = children w"
  using assms keepsD [OF brood_ops(2)]
  by (auto simp: restore_core_def tryE_eq unreconciled_start is_not_found_error_def bindE_def failE_def brood_def
      split: prod.splits sum.splits if_splits)

lemma restored_wanted:
  assumes "is_unix (os (bd E))" and "restore_desired_state E w = (r, v)" and "children v \<noteq> children w"
  shows "startup_reconciled w \<and> (\<exists>a s config. stored_active E w = Some a \<and>
    stored de_desired (desired_path E (ao_owner_key a)) w = Some s \<and>
    ds_core_should_be_running s \<and> ds_last_clash_config s = Some config)"
proof -
  obtain r1 w1 where 1: "backup_legacy_desired_states E w = (r1 :: err + unit, w1)" by (cases "backup_legacy_desired_states E w :: (err + unit) \<times> world")
  have b1: "brood w1 = brood w" by (rule keepsD [OF backup_keeps(2) 1]) simp
  have d1: "file_data q w1 = file_data q w" if "legacy_apart E q" for q
    using keepsD [OF backup_keeps(1) [OF that] 1] .
  obtain r2 w2 where 2: "load_active_owner E w1 = (r2, w2)" by (cases "load_active_owner E w1")
  have b2: "brood w2 = brood w" using keepsD [OF blind_desired_ops(1) [OF blind_brood(2)] 2] b1 by simp
  from assms(2,3) 1 2 b1 b2 obtain u a where ok: "r1 = Inr u" "r2 = Inr (Some a)"
    by (cases r1; cases r2) (auto simp: restore_desired_state_def bindE_def okE_def brood_def split: option.splits)
  have active: "stored_active E w = Some a"
    using load_active_stored [of E w1 "Some a" w2] 2 ok(2) stored_views(1) [OF d1 [OF state_files_apart(1) [OF assms(1)]]] by simp
  let ?p = "desired_path E (ao_owner_key a)"
  obtain s w3 where 3: "load_owner_desired_state E (ao_owner_key a) w2 = (Inr s, w3)"
    using read_resilient_run unfolding load_owner_desired_state_def by blast
  have b3: "brood w3 = brood w" using keepsD [OF blind_desired_ops(4) [OF blind_brood(2)] 3] b2 by simp
  have d2: "file_data ?p w2 = file_data ?p w"
    using keepsD [OF session_read_data 2] d1 [OF state_files_apart(2) [OF assms(1)]] by simp
  obtain r4 w4 where 4: "(case ds_last_writer_config s of None \<Rightarrow> okE () | Some c \<Rightarrow> set_or_update_writer c) w3 = (r4, w4)"
    by (cases "(case ds_last_writer_config s of None \<Rightarrow> okE () | Some c \<Rightarrow> set_or_update_writer c) w3")
  have "keeps brood (case ds_last_writer_config s of None \<Rightarrow> okE () | Some c \<Rightarrow> set_or_update_writer c)"
    by (intro frame brood_ops)
  from keepsD [OF this 4] b3 have b4: "brood w4 = brood w" by simp
  from assms(2,3) 1 2 3 4 ok b4 obtain config where run: "ds_core_should_be_running s" "ds_last_clash_config s = Some config"
    "restore_core E a config w4 = (r, v)"
    by (auto simp: restore_desired_state_def bindE_def tryE_eq okE_def brood_def split: if_splits option.splits)
  have "startup_reconciled w"
    using unreconciled_restore [OF _ run(3)] b4 assms(3) by (auto simp: brood_def)
  moreover have "stored de_desired ?p w2 = Some s"
    using loaded_wanted [OF _ run(1)] 3 unfolding load_owner_desired_state_def by blast
  then have "stored de_desired ?p w = Some s" by (simp add: stored_def d2)
  ultimately show ?thesis using active run by blast
qed

text \<open>
  C33. A starting service starts no core that nobody asked for. If restoring the desired state spawned a process, then
  an active owner is on record, that owner's stored state asks for a running core and names its
  configuration, and the reconciliation with the previous service's core had succeeded.
\<close>

theorem restore_only_wanted_core:
  assumes "is_unix (os (bd E))" and "restore_desired_state E w = (r, v)"
  shows "children v = children w \<or> (startup_reconciled w \<and> (\<exists>a s config. stored_active E w = Some a \<and>
    stored de_desired (desired_path E (ao_owner_key a)) w = Some s \<and>
    ds_core_should_be_running s \<and> ds_last_clash_config s = Some config))"
proof (rule disjCI)
  assume "\<not> (startup_reconciled w \<and> (\<exists>a s config. stored_active E w = Some a \<and>
    stored de_desired (desired_path E (ao_owner_key a)) w = Some s \<and>
    ds_core_should_be_running s \<and> ds_last_clash_config s = Some config))"
  then show "children v = children w" using restored_wanted [OF assms] by blast
qed

theorem restore_only_wanted_core_witness:
  "children (snd (restore_desired_state plain_params (calm_world Map.empty))) = []"
proof -
  have "stored_active plain_params (calm_world Map.empty) = None" by simp
  with restore_only_wanted_core [of plain_params "calm_world Map.empty", OF _ surjective_pairing] show ?thesis
    by (simp add: calm_world_def)
qed


theorem listener_crash_loop_gives_up_witness:
  "\<exists>r cw. run_ipc_supervisor plain_params (replicate 11 ServerExited)
      (\<lparr>ipc_server = False, ipc_shutdown_sender = False, ipc_shutdown_done = False\<rparr>, (calm_world Map.empty)\<lparr>env := calm_env\<lparr>ev_instant := \<lambda>_. 0\<rparr>\<rparr>) = (Inr (SupervisorDone r), cw) \<and> r \<noteq> Inr ()"
proof -
  have "ipc_steady (env ((calm_world Map.empty)\<lparr>env := calm_env\<lparr>ev_instant := \<lambda>_. 0\<rparr>\<rparr>))"
    by (simp add: ipc_steady_def calm_world_def calm_env_def IPC_RESTART_WINDOW_def)
  from listener_crash_loop_gives_up [OF this, of plain_params "[]"] show ?thesis by fastforce
qed

section \<open>Two ways to run the daemon\<close>

definition unfailing :: "('s, 'e, 'a) op \<Rightarrow> bool" where
  "unfailing m \<longleftrightarrow> (\<forall>s. \<exists>a v. m s = (Inr a, v))"

lemma unfailing_rules:
  "unfailing (okE a)" "unfailing (modify f)" "unfailing read_instant"
  "unfailing m' \<Longrightarrow> unfailing (in_world m')"
  "unfailing m \<Longrightarrow> (\<And>a. unfailing (g a)) \<Longrightarrow> unfailing (bindE m g)"
  "(\<And>r. unfailing (h r)) \<Longrightarrow> unfailing (tryE m h)"
  "unfailing n \<Longrightarrow> unfailing n' \<Longrightarrow> unfailing (if b then n else n')"
  "(\<And>e. unfailing (k e)) \<Longrightarrow> (\<And>a. unfailing (l a)) \<Longrightarrow> unfailing (case x of Inl e \<Rightarrow> k e | Inr a \<Rightarrow> l a)"
  subgoal by (simp add: unfailing_def okE_def)
  subgoal by (simp add: unfailing_def modify_def)
  subgoal by (simp add: unfailing_def read_instant_def)
  subgoal by (auto simp: unfailing_def in_world_def split: prod.splits) (metis prod.inject)
  subgoal by (auto simp: unfailing_def bindE_def split: prod.splits sum.splits) (metis Inl_Inr_False prod.inject)
  subgoal by (simp add: unfailing_def tryE_eq split: prod.splits)
  subgoal by simp
  subgoal by (simp split: sum.split)
  done

lemma unfailing_supervise: "unfailing (supervise E events s)"
proof (induction events arbitrary: s)
  case (Cons e events)
  have "unfailing (supervisor_step E e s)"
    unfolding supervisor_step_def server_exited_def rebuild_listener_def set_service_state_def Let_def
    by (cases e) (auto intro!: unfailing_rules)
  then show ?case
    by (auto intro!: unfailing_rules Cons.IH split: supervisor_task.split)
qed (simp add: unfailing_rules)

lemma unfailing_daemon: "unfailing (recover_core E)" "unfailing (run_ipc_supervisor E events)" "unfailing (release_service_owner E)"
  unfolding recover_core_def run_ipc_supervisor_def release_service_owner_def set_service_state_def
  by (auto intro!: unfailing_rules unfailing_supervise)

text \<open>
  The Windows service does what the stand-alone daemon does: it leaves the same world, it is running while the
  daemon is, and it reports that it failed exactly when the daemon returns an error.
\<close>

lemma windows_service_agrees:
  "run_service E events cw =
     (case run_standalone E events cw of
        (Inl e, v) \<Rightarrow> (Inr (Some True), v)
      | (Inr (SupervisorDone r), v) \<Rightarrow> (Inr (Some (r \<noteq> Inr ())), v)
      | (Inr (Supervising s), v) \<Rightarrow> (Inr None, v))"
proof -
  obtain r1 c1 where 1: "in_world (acquire_service_owner E) cw = (r1, c1)" by (cases "in_world (acquire_service_owner E) cw")
  from unfailing_daemon obtain u c2 where 2: "in_world (recover_core E) c1 = (Inr u, c2)"
    by (metis unfailing_def unfailing_rules(4))
  from unfailing_daemon obtain t c3 where 3: "run_ipc_supervisor E events c2 = (Inr t, c3)"
    by (metis unfailing_def)
  from unfailing_daemon obtain x c4 where 4: "in_world (release_service_owner E) c3 = (Inr x, c4)"
    by (metis unfailing_def unfailing_rules(4))
  show ?thesis
    by (cases r1; cases t) (auto simp: run_service_def run_standalone_def tryE_eq bindE_def okE_def 1 2 3 4 split: sum.splits prod.splits)
qed

end
