(* ===== verification/Installer.thy ===== *)
theory Installer
  imports Client Listener
begin

text \<open>
  The installer and the uninstaller (\<open>src/bin/install_service.rs\<close>, \<open>src/bin/uninstall_service.rs\<close>,
  \<open>src/bin/shared/mod.rs\<close>). They run as root, put the service's binary and its unit in place, and drive the
  service manager by commands; the state is the world and the commands that were run, in their order. What the
  programs ask of their surroundings (arguments, environment variables, users and groups, what \<open>launchctl\<close>
  prints) is a record.
\<close>

record host =
  host_world :: world
  host_commands :: "(string \<times> string list) list"

type_synonym 'a installing = "(host, err, 'a) op"

definition on_world :: "'a act \<Rightarrow> 'a installing" where
  "on_world m h = (case m (host_world h) of (r, v) \<Rightarrow> (r, h\<lparr>host_world := v\<rparr>))"

record surroundings =
  su_arguments :: "string list"
  su_variable :: "string \<Rightarrow> string option"
  su_group_name :: "u32 \<Rightarrow> string option"
  su_user_gid :: "u32 \<Rightarrow> u32 option"
  su_current_exe :: "err + path"
  su_launchctl_print :: "err + int option \<times> string"

text \<open>A command fails when it cannot be run or ends with a failure; it has been run either way.\<close>

definition run_command :: "string \<Rightarrow> string list \<Rightarrow> unit installing" where
  "run_command cmd args h =
     on_world (ctx_io (''Command failed: '' @ cmd) (syscall (\<lambda>w. (Inr (), w))))
       (h\<lparr>host_commands := host_commands h @ [(cmd, args)]\<rparr>)"

section \<open>Shared steps\<close>

text \<open>The gate of another repair ends the program with an exit code of its own.\<close>

definition enter_repair_gate :: "params \<Rightarrow> int option installing" where
  "enter_repair_gate E =
     bindE (on_world (acquire_service_repair_gate E)) (\<lambda>entered.
       okE (if entered then None else Some REPAIR_IN_PROGRESS_EXIT_CODE))"

definition run_maintenance_if_requested :: "params \<Rightarrow> surroundings \<Rightarrow> bool installing" where
  "run_maintenance_if_requested E S =
     (if ''--cleanup-stale-owners'' \<notin> set (su_arguments S) then okE False
      else bindE (on_world (cleanup_stale_owner_state E)) (\<lambda>_. okE True))"

definition remove_if_exists :: "string \<Rightarrow> path \<Rightarrow> unit act" where
  "remove_if_exists message p =
     bindE (fs_exists p) (\<lambda>there. if there then ctx_io message (fs_remove_file p) else okE ())"

definition uninstall_old_service :: "unit installing" where
  "uninstall_old_service =
     bindE (run_command ''launchctl'' [''stop'', ''io.github.clashverge.helper'']) (\<lambda>_.
     bindE (run_command ''launchctl'' [''bootout'', ''system'', ''/Library/LaunchDaemons/io.github.clashverge.helper.plist'']) (\<lambda>_.
     bindE (run_command ''launchctl'' [''disable'', ''system/io.github.clashverge.helper'']) (\<lambda>_.
     bindE (on_world (remove_if_exists ''Failed to remove plist file''
              [''Library'', ''LaunchDaemons'', ''io.github.clashverge.helper.plist''])) (\<lambda>_.
       on_world (remove_if_exists ''Failed to remove service binary''
         [''Library'', ''PrivilegedHelperTools'', ''io.github.clashverge.helper''])))))"

section \<open>The service binary\<close>

definition symlink_metadata :: "path \<Rightarrow> node io" where
  "symlink_metadata p = syscall (\<lambda>w. (case fs w p of None \<Rightarrow> (Inl NotFound, w) | Some n \<Rightarrow> (Inr n, w)))"

definition service_binary_name :: "params \<Rightarrow> string" where
  "service_binary_name E = (if is_unix (os (bd E)) then ''clash-verge-service'' else ''clash-verge-service.exe'')"

definition bundled_service_binary :: "params \<Rightarrow> surroundings \<Rightarrow> path act" where
  "bundled_service_binary E S =
     bindE (liftE (su_current_exe S)) (\<lambda>exe.
     let source = butlast exe @ [service_binary_name E] in
     bindE (ctx_io ''failed to inspect bundled service binary'' (symlink_metadata source)) (\<lambda>metadata.
       if nd_kind metadata \<noteq> RegularFile then failE (Msg ''bundled service binary is not an ordinary file'')
       else okE source))"

definition sha256_file :: "params \<Rightarrow> path \<Rightarrow> u8 list act" where
  "sha256_file E p = bindE (ctx_io ''failed to read'' (fs_read p)) (\<lambda>c. okE (sha256 E (file_text c)))"

definition remove_ordinary_file_if_exists :: "path \<Rightarrow> unit act" where
  "remove_ordinary_file_if_exists p =
     tryE (symlink_metadata p) (\<lambda>r.
       (case r of
          Inl k \<Rightarrow> if k = NotFound then okE () else failE (Ctx ''failed to inspect'' (Io k))
        | Inr metadata \<Rightarrow>
            if nd_kind metadata \<noteq> RegularFile then failE (Msg ''refusing to replace non-file service entry'')
            else ctx_io ''failed to remove'' (fs_remove_file p)))"

definition copy_file :: "path \<Rightarrow> path \<Rightarrow> unit io" where
  "copy_file source target = bindE (fs_read source) (fs_write_all target)"

definition staged_path :: "params \<Rightarrow> path \<Rightarrow> path" where
  "staged_path E target = with_extension target (if is_unix (os (bd E)) then ''next'' else ''exe.next'')"

definition stage_service_binary :: "params \<Rightarrow> path \<Rightarrow> path \<Rightarrow> path act" where
  "stage_service_binary E source target =
     bindE (liftE (ok_or (Msg ''protected service target has no parent'') (path_parent target))) (\<lambda>parent.
     bindE (ctx_io ''failed to create protected service directory'' (fs_create_dir_all parent)) (\<lambda>_.
     let staged = staged_path E target in
     bindE (remove_ordinary_file_if_exists staged) (\<lambda>_.
     bindE (ctx_io ''failed to open service candidate'' (open_for_reading source)) (\<lambda>_.
     bindE (ctx_io ''failed to create staged service binary'' (fs_create_new staged)) (\<lambda>_.
     bindE (ctx_io ''failed to stage service binary'' (copy_file source staged)) (\<lambda>_.
     bindE (ctx_io ''failed to sync staged service binary'' fs_sync) (\<lambda>_.
     bindE (if is_unix (os (bd E)) then ctx_io ''failed to secure staged service binary'' (fchmod staged 360) else okE ()) (\<lambda>_.
     bindE (sha256_file E source) (\<lambda>expected.
     bindE (sha256_file E staged) (\<lambda>found.
       if expected \<noteq> found then
         tryE (fs_remove_file staged) (\<lambda>_.
           failE (Msg ''staged service binary hash does not match its bundled source''))
       else okE staged))))))))))"

definition publish_staged_binary :: "path \<Rightarrow> path \<Rightarrow> unit act" where
  "publish_staged_binary staged target =
     bindE (tryE (symlink_metadata target) (\<lambda>r.
       (case r of
          Inr metadata \<Rightarrow>
            if nd_kind metadata \<noteq> RegularFile then failE (Msg ''refusing to replace non-file service entry'') else okE ()
        | Inl k \<Rightarrow> if k = NotFound then okE () else failE (Ctx ''failed to inspect'' (Io k))))) (\<lambda>_.
       ctx_io ''failed to publish service binary'' (atomic_replace staged target))"


section \<open>Waiting for the service\<close>

definition READY_TIMEOUT :: nat where "READY_TIMEOUT = 20000"

text \<open>The configuration of the client while the installer waits; the sleep between two looks is 250 milliseconds.\<close>

definition ready_ipc_config :: ipc_config where
  "ready_ipc_config = \<lparr>default_timeout = 250, max_retries = 1, retry_delay = 25\<rparr>"

definition protocol_ready :: "params \<Rightarrow> transport \<Rightarrow> bool act" where
  "protocol_ready E T =
     tryE (get_version E T (Some ready_ipc_config)) (\<lambda>r. okE
       (case r of
          Inl e \<Rightarrow> False
        | Inr response \<Rightarrow> rs_code response = 0 \<and>
            (case rs_data response of
               None \<Rightarrow> False
             | Some info \<Rightarrow> supports_client info current_version MIN_REQUIRED_SERVICE_REVISION)))"

text \<open>The loop ends when the service answers or the deadline has passed; \<open>None\<close> is a loop that does not end.\<close>

partial_function (option) ready_loop :: "params \<Rightarrow> transport \<Rightarrow> nat \<Rightarrow> world \<Rightarrow> ((err + unit) \<times> world) option" where
  "ready_loop E T deadline w =
     (case protocol_ready E T w of (ready, w1) \<Rightarrow>
        if ready = Inr True then Some (Inr (), w1)
        else
          (case read_instant w1 of (t, w2) \<Rightarrow>
             if (case t of Inl e \<Rightarrow> True | Inr t \<Rightarrow> deadline \<le> t) then
               Some (Inl (Msg ''service IPC did not become protocol-ready within 20s''), w2)
             else ready_loop E T deadline w2))"

definition wait_for_service_ready :: "params \<Rightarrow> transport \<Rightarrow> world \<Rightarrow> ((err + unit) \<times> world) option" where
  "wait_for_service_ready E T w =
     (case read_instant w of
        (Inl e, v) \<Rightarrow> Some (Inl e, v)
      | (Inr t, v) \<Rightarrow> ready_loop E T (t + READY_TIMEOUT) v)"


section \<open>Installing on Linux\<close>

definition env_u32 :: "surroundings \<Rightarrow> string \<Rightarrow> u32 option" where
  "env_u32 S key = Option.bind (su_variable S key) (\<lambda>v. map_option of_nat (parse_unsigned 32 v))"

definition resolve_service_group_name :: "surroundings \<Rightarrow> err + string" where
  "resolve_service_group_name S =
     (let uid = (case env_u32 S ''SUDO_UID'' of Some u \<Rightarrow> Some u | None \<Rightarrow> env_u32 S ''PKEXEC_UID'') in
      case Option.bind (env_u32 S ''CLASH_VERGE_SERVICE_GID'') (su_group_name S) of
        Some name \<Rightarrow> Inr name
      | None \<Rightarrow>
          (case Option.bind (Option.bind uid (su_user_gid S)) (su_group_name S) of
             Some name \<Rightarrow> Inr name
           | None \<Rightarrow>
               (case Option.bind (env_u32 S ''SUDO_GID'') (su_group_name S) of
                  Some name \<Rightarrow> Inr name
                | None \<Rightarrow> Inl (Msg ''unable to resolve the invoking user's service group; use sudo or pkexec''))))"

definition lines_text :: "string list \<Rightarrow> string" where
  "lines_text ls = concat (map (\<lambda>l. l @ newline) ls)"

text \<open>\<open>resources/systemd_service_unit.tmpl\<close>.\<close>

definition systemd_service_unit :: "string \<Rightarrow> string \<Rightarrow> string \<Rightarrow> string" where
  "systemd_service_unit exec_start group_name runtime_directory = lines_text
     [''[Unit]'',
      ''Description=Clash Verge Service helps to launch Clash Core.'',
      ''After=network-online.target nftables.service iptables.service'',
      '''',
      ''[Service]'',
      ''Type=simple'',
      ''ExecStart='' @ exec_start,
      ''Group='' @ group_name,
      ''Restart=always'',
      ''RestartSec=5'',
      ''RuntimeDirectory='' @ runtime_directory,
      ''RuntimeDirectoryMode=0755'',
      '''',
      ''[Install]'',
      ''WantedBy=multi-user.target'']"

definition write_text_file :: "string \<Rightarrow> path \<Rightarrow> string \<Rightarrow> unit act" where
  "write_text_file message p t = ctx_io message (bindE (fs_create p) (\<lambda>_. fs_write_all p (Bytes t)))"

definition unit_name :: "params \<Rightarrow> string" where
  "unit_name E = SERVICE_SLUG (bd E) @ ''.service''"

definition systemd_unit_path :: "params \<Rightarrow> path" where
  "systemd_unit_path E = [''etc'', ''systemd'', ''system'', unit_name E]"

text \<open>Everything up to the wait; the result is the exit code of a program that ends here, if it does.\<close>

definition install_linux_steps :: "params \<Rightarrow> surroundings \<Rightarrow> int option installing" where
  "install_linux_steps E S =
     bindE (run_maintenance_if_requested E S) (\<lambda>finished.
     if finished then okE (Some 0) else
     bindE (enter_repair_gate E) (\<lambda>refused.
     (case refused of
        Some code \<Rightarrow> okE (Some code)
      | None \<Rightarrow>
          bindE (on_world (bundled_service_binary E S)) (\<lambda>source.
          bindE (on_world (prepare_service_install_directory E)) (\<lambda>install.
          let target = install @ [''clash-verge-service''] in
          bindE (on_world (stage_service_binary E source target)) (\<lambda>staged.
          tryE (run_command ''systemctl'' [''stop'', unit_name E]) (\<lambda>_.
          bindE (on_world (publish_staged_binary staged target)) (\<lambda>_.
          bindE (liftE (resolve_service_group_name S)) (\<lambda>group_name.
          bindE (on_world (write_text_file ''failed to write systemd unit'' (systemd_unit_path E)
                   (systemd_service_unit (path_text target) group_name (SERVICE_SLUG (bd E))))) (\<lambda>_.
          bindE (on_world (ctx_io ''failed to sync systemd unit'' fs_sync)) (\<lambda>_.
          bindE (run_command ''systemctl'' [''daemon-reload'']) (\<lambda>_.
          bindE (run_command ''systemctl'' [''enable'', unit_name E]) (\<lambda>_.
          bindE (run_command ''systemctl'' [''start'', unit_name E]) (\<lambda>_. okE None))))))))))))))"

text \<open>An installation, whose steps may end the program before the wait.\<close>

definition then_wait :: "params \<Rightarrow> transport \<Rightarrow> int option installing \<Rightarrow> host \<Rightarrow> ((err + int) \<times> host) option" where
  "then_wait E T steps h =
     (case steps h of
        (Inl e, h') \<Rightarrow> Some (Inl e, h')
      | (Inr (Some code), h') \<Rightarrow> Some (Inr code, h')
      | (Inr None, h') \<Rightarrow>
          map_option (\<lambda>(r, v). (map_sum id (\<lambda>_. 0) r, h'\<lparr>host_world := v\<rparr>)) (wait_for_service_ready E T (host_world h')))"

definition install_linux :: "params \<Rightarrow> surroundings \<Rightarrow> transport \<Rightarrow> host \<Rightarrow> ((err + int) \<times> host) option" where
  "install_linux E S T = then_wait E T (install_linux_steps E S)"


section \<open>Installing on macOS\<close>

definition launchd_service_target :: "params \<Rightarrow> string" where
  "launchd_service_target E = ''system/'' @ macos_service_id (CHANNEL_IDENTITY (bd E))"

datatype launchd_install_plan = SkipBootout | Bootout

definition classify_launchd_service_probe :: "int option \<Rightarrow> string \<Rightarrow> err + launchd_install_plan" where
  "classify_launchd_service_probe exit_code diagnostic =
     (if exit_code = Some 0 then Inr Bootout
      else if exit_code = Some 113 \<and> contains_str ''Could not find service'' diagnostic then Inr SkipBootout
      else Inl (Msg (''Unexpected launchctl service probe result: '' @ diagnostic)))"

definition probe_launchd_service :: "surroundings \<Rightarrow> err + launchd_install_plan" where
  "probe_launchd_service S =
     bindR (map_err (Ctx ''Failed to probe launchd service'') (su_launchctl_print S)) (\<lambda>(exit_code, diagnostic).
       classify_launchd_service_probe exit_code diagnostic)"

definition element :: "string \<Rightarrow> string \<Rightarrow> string" where
  "element tag s = ''<'' @ tag @ ''>'' @ s @ ''</'' @ tag @ ''>''"

definition quoted :: "string \<Rightarrow> string" where
  "quoted s = CHR 0x22 # s @ [CHR 0x22]"

definition plist_document :: "string list \<Rightarrow> string" where
  "plist_document members = lines_text
     ([''<?xml version='' @ quoted ''1.0'' @ '' encoding='' @ quoted ''UTF-8'' @ ''?>'',
       ''<!DOCTYPE plist PUBLIC '' @ quoted ''-//Apple//DTD PLIST 1.0//EN'' @ '' '' @
         quoted ''http://www.apple.com/DTDs/PropertyList-1.0.dtd'' @ ''>'',
       ''<plist version='' @ quoted ''1.0'' @ ''>'',
       ''<dict>''] @ map (\<lambda>m. if m = '''' then '''' else ''    '' @ m) members @ [''</dict>'', ''</plist>''])"

text \<open>\<open>resources/launchd.plist.tmpl\<close> and \<open>resources/info.plist.tmpl\<close>.\<close>

definition launchd_plist :: "string \<Rightarrow> string \<Rightarrow> string \<Rightarrow> string \<Rightarrow> string" where
  "launchd_plist group_name service_id app_bundle_id service_binary = plist_document
     [element ''key'' ''Label'', element ''string'' service_id, '''',
      element ''key'' ''AssociatedBundleIdentifiers'',
      ''<array>'', ''    '' @ element ''string'' app_bundle_id, ''</array>'', '''',
      element ''key'' ''MachServices'',
      ''<dict>'', ''    '' @ element ''key'' service_id, ''    <true/>'', ''</dict>'', '''',
      element ''key'' ''ProgramArguments'',
      ''<array>'', ''    '' @ element ''string'' service_binary, ''</array>'', '''',
      element ''key'' ''GroupName'', element ''string'' group_name, '''',
      element ''key'' ''RunAtLoad'', ''<true/>'', '''',
      element ''key'' ''KeepAlive'', ''<true/>'']"

definition info_plist :: "string \<Rightarrow> string \<Rightarrow> string" where
  "info_plist display_name service_id = plist_document
     [element ''key'' ''CFBundleName'', element ''string'' display_name,
      element ''key'' ''CFBundleDisplayName'', element ''string'' display_name,
      element ''key'' ''CFBundleIdentifier'', element ''string'' service_id,
      element ''key'' ''CFBundleExecutable'', element ''string'' ''clash-verge-service'',
      element ''key'' ''CFBundlePackageType'', element ''string'' ''XPC!'',
      element ''key'' ''CFBundleInfoDictionaryVersion'', element ''string'' ''6.0'']"

fun run_commands :: "(string \<times> string list) list \<Rightarrow> unit installing" where
  "run_commands [] = okE ()"
| "run_commands ((cmd, args) # cs) = bindE (run_command cmd args) (\<lambda>_. run_commands cs)"

definition bundle_path :: "params \<Rightarrow> path" where
  "bundle_path E = [''Library'', ''PrivilegedHelperTools'', macos_service_id (CHANNEL_IDENTITY (bd E)) @ ''.bundle'']"

definition launchd_plist_path :: "params \<Rightarrow> path" where
  "launchd_plist_path E = [''Library'', ''LaunchDaemons'', macos_service_id (CHANNEL_IDENTITY (bd E)) @ ''.plist'']"

definition install_macos_steps :: "params \<Rightarrow> surroundings \<Rightarrow> int option installing" where
  "install_macos_steps E S =
     (let ch = CHANNEL_IDENTITY (bd E); service_id = macos_service_id ch; bundle = bundle_path E;
          target = bundle @ [''Contents'', ''MacOS'', ''clash-verge-service''];
          plist_dir = [''Library'', ''LaunchDaemons'']; plist_file = launchd_plist_path E;
          plist = path_text plist_file in
      bindE (run_maintenance_if_requested E S) (\<lambda>finished.
      if finished then okE (Some 0) else
      bindE (enter_repair_gate E) (\<lambda>refused.
      (case refused of
         Some code \<Rightarrow> okE (Some code)
       | None \<Rightarrow>
           bindE (liftE (probe_launchd_service S)) (\<lambda>plan.
           bindE (on_world (bundled_service_binary E S)) (\<lambda>source.
           bindE (on_world (ctx_io ''Failed to create bundle directories'' (fs_create_dir_all (butlast target)))) (\<lambda>_.
           bindE (on_world (stage_service_binary E source target)) (\<lambda>staged.
           bindE (on_world (bindE (fs_exists plist_dir) (\<lambda>there.
                    if there then okE () else ctx_io ''Failed to create plist directory'' (fs_create_dir plist_dir)))) (\<lambda>_.
           bindE (liftE (resolve_service_group_name S)) (\<lambda>group_name.
           bindE (if plan = Bootout then run_command ''launchctl'' [''bootout'', ''system'', plist] else okE ()) (\<lambda>_.
           bindE (on_world (publish_staged_binary staged target)) (\<lambda>_.
           bindE (on_world (write_text_file ''failed to write Info.plist'' (bundle @ [''Contents'', ''Info.plist''])
                    (info_plist (service_display_name ch) service_id))) (\<lambda>_.
           bindE (on_world (write_text_file ''Failed to write plist file'' plist_file
                    (launchd_plist group_name service_id (macos_app_bundle_id ch) (path_text target)))) (\<lambda>_.
           bindE (run_commands
                    [(''chmod'', [''644'', plist]), (''chown'', [''root:wheel'', plist]),
                     (''chmod'', [''544'', path_text target]), (''chown'', [''root:wheel'', path_text target]),
                     (''chmod'', [''755'', path_text bundle]), (''chown'', [''-R'', ''root:wheel'', path_text bundle]),
                     (''launchctl'', [''enable'', launchd_service_target E]),
                     (''launchctl'', [''bootstrap'', ''system'', plist]),
                     (''launchctl'', [''start'', service_id])]) (\<lambda>_. okE None)))))))))))))))"

text \<open>After the wait, the production channel removes the helper of older versions; its failure does not matter.\<close>

definition install_macos :: "params \<Rightarrow> surroundings \<Rightarrow> transport \<Rightarrow> host \<Rightarrow> ((err + int) \<times> host) option" where
  "install_macos E S T h =
     (case install_macos_steps E S h of
        (Inr None, h') \<Rightarrow>
          map_option (\<lambda>(r, h2).
              if r = Inr 0 \<and> \<not> development_channel (bd E) then (r, snd (uninstall_old_service h2)) else (r, h2))
            (then_wait E T (okE None) h')
      | ended \<Rightarrow> then_wait E T (\<lambda>_. ended) h)"

section \<open>Uninstalling\<close>

definition fs_remove_tree :: "string \<Rightarrow> path \<Rightarrow> unit act" where
  "fs_remove_tree message p =
     bindE (fs_exists p) (\<lambda>there. if there then ctx_io message (fs_remove_dir_all p) else okE ())"

definition attempt_command :: "string \<Rightarrow> string list \<Rightarrow> unit installing" where
  "attempt_command cmd args = tryE (run_command cmd args) (\<lambda>_. okE ())"

definition uninstall_linux :: "params \<Rightarrow> surroundings \<Rightarrow> int installing" where
  "uninstall_linux E S =
     bindE (run_maintenance_if_requested E S) (\<lambda>finished.
     if finished then okE 0 else
     bindE (enter_repair_gate E) (\<lambda>refused.
     (case refused of
        Some code \<Rightarrow> okE code
      | None \<Rightarrow>
          bindE (attempt_command ''systemctl'' [''stop'', unit_name E]) (\<lambda>_.
          bindE (attempt_command ''systemctl'' [''disable'', unit_name E]) (\<lambda>_.
          bindE (on_world (remove_if_exists ''Failed to remove service file'' (systemd_unit_path E))) (\<lambda>_.
          bindE (attempt_command ''systemctl'' [''daemon-reload'']) (\<lambda>_.
          bindE (on_world (prepare_service_install_directory E)) (\<lambda>install.
          bindE (on_world (remove_if_exists ''Failed to remove service binary'' (install @ [''clash-verge-service'']))) (\<lambda>_.
            okE 0)))))))))"

definition uninstall_macos :: "params \<Rightarrow> surroundings \<Rightarrow> int installing" where
  "uninstall_macos E S =
     (let service_id = macos_service_id (CHANNEL_IDENTITY (bd E)) in
      bindE (run_maintenance_if_requested E S) (\<lambda>finished.
      if finished then okE 0 else
      bindE (enter_repair_gate E) (\<lambda>refused.
      (case refused of
         Some code \<Rightarrow> okE code
       | None \<Rightarrow>
           bindE (if development_channel (bd E) then okE () else tryE uninstall_old_service (\<lambda>_. okE ())) (\<lambda>_.
           bindE (attempt_command ''launchctl'' [''stop'', service_id]) (\<lambda>_.
           bindE (attempt_command ''launchctl'' [''disable'', ''system/'' @ service_id]) (\<lambda>_.
           bindE (attempt_command ''launchctl'' [''bootout'', ''system'', path_text (launchd_plist_path E)]) (\<lambda>_.
           bindE (on_world (remove_if_exists ''Failed to remove plist file'' (launchd_plist_path E))) (\<lambda>_.
           bindE (on_world (fs_remove_tree ''Failed to remove bundle directory'' (bundle_path E))) (\<lambda>_.
             okE 0))))))))))"


section \<open>Windows\<close>

text \<open>
  The service control manager of Windows, as the \<open>windows-service\<close> crate presents it: operations that may fail
  with a system error code.
\<close>

datatype service_state = SvcStopped | SvcStartPending | SvcStopPending | SvcRunning | SvcContinuePending | SvcPausePending | SvcPaused

type_synonym 'a controlling = "(host, int option, 'a) op"

record service_manager =
  scm_connect :: "unit controlling"
  scm_open :: "unit controlling"
  scm_query :: "service_state controlling"
  scm_stop :: "unit controlling"
  scm_change_config :: "path \<Rightarrow> bool \<Rightarrow> unit controlling"
  scm_create :: "path \<Rightarrow> bool \<Rightarrow> unit controlling"
  scm_set_description :: "string \<Rightarrow> unit controlling"
  scm_update_failure_actions :: "nat list \<Rightarrow> unit controlling"
  scm_failure_actions_on_non_crash :: "bool \<Rightarrow> unit controlling"
  scm_start :: "unit controlling"
  scm_delete :: "unit controlling"

definition ERROR_SERVICE_DOES_NOT_EXIST :: int where "ERROR_SERVICE_DOES_NOT_EXIST = 1060"
definition ERROR_SERVICE_NOT_ACTIVE :: int where "ERROR_SERVICE_NOT_ACTIVE = 1062"
definition POLL_ATTEMPTS :: nat where "POLL_ATTEMPTS = 200"

definition controlled :: "'a controlling \<Rightarrow> 'a installing" where
  "controlled m = mapErrE (\<lambda>_. Msg ''Windows service error'') m"

text \<open>A probe that finds nothing is repeated after a pause, the last one excepted.\<close>

fun poll_until :: "nat \<Rightarrow> ('s, err, 'a option) op \<Rightarrow> ('s, err, unit) op \<Rightarrow> string \<Rightarrow> ('s, err, 'a) op" where
  "poll_until 0 probe pause timeout_message = failE (Msg timeout_message)"
| "poll_until (Suc left) probe pause timeout_message =
     bindE probe (\<lambda>found.
       (case found of
          Some value \<Rightarrow> okE value
        | None \<Rightarrow>
            bindE (if 0 < left then pause else okE ()) (\<lambda>_. poll_until left probe pause timeout_message)))"

text \<open>Stopping a service that is not active is no failure.\<close>

definition stop_service :: "service_manager \<Rightarrow> unit installing" where
  "stop_service M =
     tryE (scm_stop M) (\<lambda>r.
       (case r of
          Inl e \<Rightarrow> if e = Some ERROR_SERVICE_NOT_ACTIVE then okE () else failE (Msg ''Windows service error'')
        | Inr _ \<Rightarrow> okE ()))"

definition probe_stopped :: "service_manager \<Rightarrow> unit option installing" where
  "probe_stopped M =
     bindE (controlled (scm_query M)) (\<lambda>s. okE (if s = SvcStopped then Some () else None))"

definition probe_deleted :: "service_manager \<Rightarrow> unit option installing" where
  "probe_deleted M =
     tryE (scm_open M) (\<lambda>r.
       (case r of
          Inr _ \<Rightarrow> okE None
        | Inl e \<Rightarrow> if e = Some ERROR_SERVICE_DOES_NOT_EXIST then okE (Some ()) else failE (Msg ''Windows service error'')))"

definition uninstall_windows :: "params \<Rightarrow> surroundings \<Rightarrow> service_manager \<Rightarrow> int installing" where
  "uninstall_windows E S M =
     bindE (run_maintenance_if_requested E S) (\<lambda>finished.
     if finished then okE 0 else
     bindE (enter_repair_gate E) (\<lambda>refused.
     (case refused of
        Some code \<Rightarrow> okE code
      | None \<Rightarrow>
          bindE (controlled (scm_connect M)) (\<lambda>_.
          bindE (controlled (scm_open M)) (\<lambda>_.
          bindE (controlled (scm_query M)) (\<lambda>state.
          bindE (if state \<noteq> SvcStopped then
                   bindE (stop_service M) (\<lambda>_.
                     poll_until POLL_ATTEMPTS (probe_stopped M) (okE ()) ''timed out waiting for service to stop'')
                 else okE ()) (\<lambda>_.
          bindE (controlled (scm_delete M)) (\<lambda>_.
          bindE (poll_until POLL_ATTEMPTS (probe_deleted M) (okE ()) ''timed out waiting for service deletion'') (\<lambda>_.
          bindE (on_world (prepare_service_install_directory E)) (\<lambda>install.
          bindE (on_world (remove_if_exists ''Failed to remove service binary'' (install @ [''clash-verge-service.exe'']))) (\<lambda>_.
            okE 0)))))))))))"

text \<open>The loop of the installer looks up to two hundred times, and whatever it saw, once more.\<close>

fun wait_stopped :: "service_manager \<Rightarrow> nat \<Rightarrow> unit installing" where
  "wait_stopped M 0 = okE ()"
| "wait_stopped M (Suc left) =
     bindE (controlled (scm_query M)) (\<lambda>s. if s = SvcStopped then okE () else wait_stopped M left)"

definition ensure_stopped :: "service_manager \<Rightarrow> unit installing" where
  "ensure_stopped M =
     bindE (controlled (scm_query M)) (\<lambda>state.
       if state \<noteq> SvcStopped then
         bindE (stop_service M) (\<lambda>_.
         bindE (wait_stopped M 200) (\<lambda>_.
         bindE (controlled (scm_query M)) (\<lambda>last.
           if last \<noteq> SvcStopped then failE (Msg ''timed out waiting for service to stop before replacement'') else okE ())))
       else okE ())"

definition configure_windows_service_recovery :: "service_manager \<Rightarrow> unit installing" where
  "configure_windows_service_recovery M =
     bindE (controlled (scm_update_failure_actions M [5, 10, 30])) (\<lambda>_.
       controlled (scm_failure_actions_on_non_crash M True))"

text \<open>The service starts with the system, except in the development channel.\<close>

definition install_windows_steps :: "params \<Rightarrow> surroundings \<Rightarrow> service_manager \<Rightarrow> int option installing" where
  "install_windows_steps E S M =
     bindE (run_maintenance_if_requested E S) (\<lambda>finished.
     if finished then okE (Some 0) else
     bindE (enter_repair_gate E) (\<lambda>refused.
     (case refused of
        Some code \<Rightarrow> okE (Some code)
      | None \<Rightarrow>
          bindE (on_world (bundled_service_binary E S)) (\<lambda>source.
          bindE (on_world (prepare_service_install_directory E)) (\<lambda>install.
          let target = install @ [''clash-verge-service.exe'']; auto_start = (\<not> development_channel (bd E)) in
          bindE (on_world (stage_service_binary E source target)) (\<lambda>staged.
          bindE (controlled (scm_connect M)) (\<lambda>_.
          tryE (scm_open M) (\<lambda>opened.
          (case opened of
             Inr _ \<Rightarrow>
               bindE (ensure_stopped M) (\<lambda>_.
               bindE (on_world (publish_staged_binary staged target)) (\<lambda>_.
               bindE (controlled (scm_change_config M target auto_start)) (\<lambda>_.
               bindE (configure_windows_service_recovery M) (\<lambda>_.
               bindE (controlled (scm_start M)) (\<lambda>_. okE None)))))
           | Inl e \<Rightarrow>
               if e \<noteq> Some ERROR_SERVICE_DOES_NOT_EXIST then failE (Msg ''Windows service error'')
               else
                 bindE (on_world (publish_staged_binary staged target)) (\<lambda>_.
                 bindE (controlled (scm_create M target auto_start)) (\<lambda>_.
                 bindE (controlled (scm_set_description M ''Clash Verge Service helps to launch Clash Core'')) (\<lambda>_.
                 bindE (configure_windows_service_recovery M) (\<lambda>_.
                 bindE (controlled (scm_start M)) (\<lambda>_. okE None))))))))))))))"

definition install_windows :: "params \<Rightarrow> surroundings \<Rightarrow> service_manager \<Rightarrow> transport \<Rightarrow> host \<Rightarrow> ((err + int) \<times> host) option" where
  "install_windows E S M T = then_wait E T (install_windows_steps E S M)"


section \<open>What staging and publishing leave\<close>

text \<open>The bundled binary holds \<open>d\<close>, and the installed one is as it was.\<close>

definition undisturbed :: "path \<Rightarrow> content \<Rightarrow> path \<Rightarrow> (file_kind \<times> content) option \<Rightarrow> world \<Rightarrow> bool" where
  "undisturbed source d target t w \<longleftrightarrow> file_data source w = Some (RegularFile, d) \<and> file_data target w = t"

lemma looked_at [files]: "keeps (file_data q) (symlink_metadata p)" "keeps (file_data q) (open_for_reading p)"
  unfolding symlink_metadata_def open_for_reading_def
  by (intro data_syscall_other; simp split: option.splits)+

lemma undisturbed_copied:
  assumes "s \<noteq> p" "t \<noteq> p"
  shows "triple (\<lambda>w. undisturbed s d t x w \<and> file_data p w = Some (RegularFile, c)) (copy_file s p)
    (\<lambda>_ w. undisturbed s d t x w \<and> file_data p w = Some (RegularFile, d)) (\<lambda>_. undisturbed s d t x)"
proof -
  have "keeps (file_data q) (copy_file s p)" if "q \<noteq> p" for q
    unfolding copy_file_def using that by (intro frame files)
  note keep = this [OF assms(1)] this [OF assms(2)]
  have "file_data p v = Some (RegularFile, d)"
    if "copy_file s p w = (Inr (), v)" "file_data s w = Some (RegularFile, d)" "file_data p w = Some (RegularFile, c)" for w v
    using that by (auto simp: copy_file_def bindE_Inr fs_read_def fs_write_all_def syscall_Inr file_data_def
        set_node_def split: option.splits if_splits)
  then show ?thesis
    unfolding triple_def undisturbed_def using keep keepsD by fastforce
qed

lemma created_run:
  "fs_create_new p w = (Inr (), v) \<Longrightarrow> file_data p v = Some (RegularFile, Bytes '''')"
  by (auto simp: fs_create_new_def syscall_Inr new_file_def file_data_def set_node_def split: if_splits)

lemma undisturbed_created:
  assumes "s \<noteq> p" "t \<noteq> p"
  shows "triple (undisturbed s d t x) (fs_create_new p)
    (\<lambda>_ w. undisturbed s d t x w \<and> file_data p w = Some (RegularFile, Bytes '''')) (\<lambda>_. undisturbed s d t x)"
  unfolding triple_def undisturbed_def
  using created_run keepsD [OF file_ops_data(4) [OF assms(1)]] keepsD [OF file_ops_data(4) [OF assms(2)]] by fastforce

lemma staged_keeps:
  assumes "keeps (file_data s) m" "keeps (file_data t) m" "keeps (file_data p) m"
  shows "triple (\<lambda>w. undisturbed s d t x w \<and> file_data p w = y) m
    (\<lambda>_ w. undisturbed s d t x w \<and> file_data p w = y) (\<lambda>_. undisturbed s d t x)"
  using assms unfolding triple_def undisturbed_def by (metis keepsD)

lemma staging_triple:
  assumes "source \<noteq> staged_path E target" "target \<noteq> staged_path E target"
  shows "triple (undisturbed source d target x) (stage_service_binary E source target)
    (\<lambda>p w. p = staged_path E target \<and> undisturbed source d target x w \<and> file_data p w = Some (RegularFile, d))
    (\<lambda>_. undisturbed source d target x)"
proof -
  let ?s = "staged_path E target" and ?I = "undisturbed source d target x"
  have ctx: "triple P (ctx_io c m) Q (\<lambda>_. R)" if "triple P m Q (\<lambda>_. R)" for P m Q R c
    using that unfolding ctx_io_def by (rule triple_mapErrE)
  have keep: "triple ?I m (\<lambda>_. ?I) (\<lambda>_. ?I)" if "keeps (file_data source) m" "keeps (file_data target) m" for m :: "(world, 'e, 'z) op"
    using that unfolding triple_def undisturbed_def by (metis keepsD)
  have dirs: "triple ?I (fs_create_dir_all parent) (\<lambda>_. ?I) (\<lambda>_. ?I)" if "path_parent target = Some parent" for parent
  proof -
    have "\<not> path_starts_with target parent"
      using that by (cases target) (auto simp: path_starts_with_def dest!: prefix_length_le split: if_splits)
    then have k: "keeps (file_data target) (fs_create_dir_all parent)" by (rule create_dir_all_data)
    have "undisturbed source d target x v"
      if "fs_create_dir_all parent w = (r, v)" "undisturbed source d target x w" for r w v
      using that keepsD [OF k that(1)] preservesD [OF holds_create_dir_all that(1), of source "(RegularFile, d)"]
      by (simp add: undisturbed_def holds_def)
    then show ?thesis by (simp add: triple_def)
  qed
  have removed: "keeps (file_data q) (remove_ordinary_file_if_exists ?s)" if "q \<noteq> ?s" for q
    unfolding remove_ordinary_file_if_exists_def using that
    by (intro frame files looked_at)
  have hash: "keeps (file_data q) (sha256_file E p)" for q p
    unfolding sha256_file_def by (intro frame files)
  let ?J = "\<lambda>c w. ?I w \<and> file_data ?s w = Some (RegularFile, c)"
  let ?Q = "\<lambda>p w. p = ?s \<and> ?I w \<and> file_data p w = Some (RegularFile, d)"
  note held = staged_keeps [where p = ?s and y = "Some (RegularFile, c)" for c]
  have check: "triple (?J d) (bindE (sha256_file E source) (\<lambda>expected. bindE (sha256_file E ?s) (\<lambda>found.
      if expected \<noteq> found then tryE (fs_remove_file ?s) (\<lambda>_. failE (Msg m)) else okE ?s))) ?Q (\<lambda>_. ?I)" for m
    by (intro triple_bindE [OF held [OF hash hash hash]] triple_if triple_okE triple_tryE [OF triple_pre [OF keep]] triple_failE)
      (simp_all add: files assms)
  have secure: "triple (?J d) (if is_unix (os (bd E)) then ctx_io m (fchmod ?s 360) else okE ()) (\<lambda>_. ?J d) (\<lambda>_. ?I)" for m
    by (intro triple_if ctx held triple_okE files) simp
  have fill: "triple (?J (Bytes '''')) (bindE (ctx_io m1 (copy_file source ?s)) (\<lambda>_. bindE (ctx_io m2 fs_sync) (\<lambda>_.
      bindE (if is_unix (os (bd E)) then ctx_io m3 (fchmod ?s 360) else okE ()) (\<lambda>_.
      bindE (sha256_file E source) (\<lambda>expected. bindE (sha256_file E ?s) (\<lambda>found.
      if expected \<noteq> found then tryE (fs_remove_file ?s) (\<lambda>_. failE (Msg m4)) else okE ?s)))))) ?Q (\<lambda>_. ?I)" for m1 m2 m3 m4
    by (intro triple_bindE [OF ctx [OF undisturbed_copied [OF assms]]] triple_bindE [OF ctx [OF held]] triple_bindE [OF secure]
        check files)
  show ?thesis
  proof (cases "path_parent target")
    case None
    then show ?thesis by (auto simp: stage_service_binary_def triple_def bindE_def liftE_def)
  next
    case (Some parent)
    have lift: "bindE (liftE (Inr parent)) k = k parent" for k :: "path \<Rightarrow> path act"
      by (simp add: fun_eq_iff bindE_def liftE_def)
    show ?thesis
      unfolding stage_service_binary_def Let_def Some ok_or.simps lift
      by (rule triple_bindE, rule ctx, rule dirs, rule Some, rule triple_bindE, rule keep, (rule removed assms)+,
          rule triple_bindE, rule ctx, rule keep, (rule looked_at)+, rule triple_bindE, rule ctx,
          rule undisturbed_created, (rule assms fill)+)
  qed
qed


lemma publish_triple:
  assumes "staged \<noteq> target"
  shows "triple (\<lambda>w. file_data target w = x \<and> file_data staged w = Some (RegularFile, d)) (publish_staged_binary staged target)
    (\<lambda>_ w. file_data target w = Some (RegularFile, d)) (\<lambda>_ w. file_data target w = x)"
proof -
  let ?P = "\<lambda>w. file_data target w = x \<and> file_data staged w = Some (RegularFile, d)"
  have look: "triple ?P (tryE (symlink_metadata target) (\<lambda>r.
      (case r of Inr metadata \<Rightarrow> if nd_kind metadata \<noteq> RegularFile then failE e1 else okE ()
        | Inl k \<Rightarrow> if k = NotFound then okE () else failE (e2 k)))) (\<lambda>_. ?P) (\<lambda>_ w. file_data target w = x)" for e1 e2
  proof (rule triple_tryE)
    have "keeps (\<lambda>w. (file_data target w, file_data staged w)) (symlink_metadata target)"
      using looked_at(1) by (simp add: keeps_def)
    then show "triple ?P (symlink_metadata target) (\<lambda>_. ?P) (\<lambda>_. ?P)" by (rule triple_keeps) auto
  qed (auto intro!: triple_if triple_okE triple_failE)
  have "triple ?P (atomic_replace staged target) (\<lambda>_ w. file_data target w = Some (RegularFile, d)) (\<lambda>_ w. file_data target w = x)"
    using assms
    by (auto simp: triple_def atomic_replace_def fs_rename_def syscall_def Let_def file_data_def set_node_def
        split: option.splits if_splits)
  then have move: "triple ?P (ctx_io m (atomic_replace staged target)) (\<lambda>_ w. file_data target w = Some (RegularFile, d))
      (\<lambda>_ w. file_data target w = x)" for m
    unfolding ctx_io_def by (rule triple_mapErrE)
  show ?thesis
    unfolding publish_staged_binary_def by (rule triple_bindE [OF look move])
qed

lemma on_world_triple:
  assumes "triple P m Q R"
  shows "triple (\<lambda>h. P (host_world h) \<and> host_commands h = c) (on_world m)
    (\<lambda>x h. Q x (host_world h) \<and> host_commands h = c) (\<lambda>e h. R e (host_world h) \<and> host_commands h = c)"
  using assms by (auto simp: triple_def on_world_def split: prod.splits)

lemma run_command_triple:
  assumes "\<And>w n. P w \<Longrightarrow> P (w\<lparr>tick := n\<rparr>)"
  shows "triple (\<lambda>h. P (host_world h) \<and> host_commands h = c) (run_command cmd args)
    (\<lambda>_ h. P (host_world h) \<and> host_commands h = c @ [(cmd, args)])
    (\<lambda>_ h. P (host_world h) \<and> host_commands h = c @ [(cmd, args)])"
  using assms by (auto simp: triple_def run_command_def on_world_def ctx_io_def mapErrE_def syscall_def Let_def split: option.splits)

lemma file_data_tick [simp]: "file_data p (w\<lparr>tick := n\<rparr>) = file_data p w"
  by (simp add: file_data_def)


section \<open>Replacing the binary on Linux\<close>

definition linux_target :: "params \<Rightarrow> path" where
  "linux_target E = install_dir (paths_of E) @ [''clash-verge-service'']"

text \<open>
  The installed binary is what it was; or it is the bundled one, and the service was told to stop before.
\<close>

definition replaced_safely :: "params \<Rightarrow> (file_kind \<times> content) option \<Rightarrow> content \<Rightarrow> host \<Rightarrow> bool" where
  "replaced_safely E x d h \<longleftrightarrow>
     file_data (linux_target E) (host_world h) = x \<or>
     file_data (linux_target E) (host_world h) = Some (RegularFile, d) \<and>
       (''systemctl'', [''stop'', unit_name E]) \<in> set (host_commands h)"

definition linux_installed :: "params \<Rightarrow> content \<Rightarrow> (string \<times> string list) list \<Rightarrow> host \<Rightarrow> bool" where
  "linux_installed E d commands h \<longleftrightarrow>
     file_data (linux_target E) (host_world h) = Some (RegularFile, d) \<and>
     host_commands h = commands @
       [(''systemctl'', [''stop'', unit_name E]), (''systemctl'', [''daemon-reload'']),
        (''systemctl'', [''enable'', unit_name E]), (''systemctl'', [''start'', unit_name E])]"

lemma staged_linux:
  "is_unix (os (bd E)) \<Longrightarrow> staged_path E (linux_target E) = install_dir (paths_of E) @ [''clash-verge-service.next'']"
proof -
  have "rsplit_once (CHR ''.'') ''clash-verge-service'' = None" by code_simp
  then show "is_unix (os (bd E)) \<Longrightarrow> ?thesis" by (simp add: staged_path_def linux_target_def with_extension_def)
qed

lemma prepared_install: "prepare_service_install_directory E w = (Inr p, v) \<Longrightarrow> p = install_dir (paths_of E)"
  by (auto simp: prepare_service_install_directory_def bindE_Inr okE_def Let_def)

lemma gate_data:
  assumes "q \<notin> {sp_persistent_state_dir (paths_of E), install_dir (paths_of E), install_dir (paths_of E) @ [''.repair.lock'']}"
  shows "keeps (file_data q) (prepare_service_install_directory E)" "keeps (file_data q) (acquire_service_repair_gate E)"
proof -
  show prepare: "keeps (file_data q) (prepare_service_install_directory E)"
    using assms unfolding prepare_service_install_directory_def ensure_private_installer_directory_def Let_def
    by (intro frame files; simp)
  have lock: "keeps (file_data q) (open_or_create p)" if "q \<noteq> p" for p
    unfolding open_or_create_def using that
    by (intro file_data_other keeps_file_syscall) (simp split: option.splits)
  have tried: "keeps (file_data q) (try_lock p)" for p
    unfolding try_lock_def by (intro data_syscall_other) simp
  show "keeps (file_data q) (acquire_service_repair_gate E)"
    unfolding acquire_service_repair_gate_def Let_def
  proof (rule keeps_bindE_value [OF prepare prepared_install])
    fix p assume "p = install_dir (paths_of E)"
    with assms have "q \<noteq> p @ [''.repair.lock'']" by simp
    then show "keeps (file_data q) (bindE (ctx_io m1 (open_or_create (p @ [''.repair.lock'']))) (\<lambda>_.
        bindE (ctx_io m2 (fchmod (p @ [''.repair.lock'']) 384)) (\<lambda>_. tryE (try_lock (p @ [''.repair.lock''])) (\<lambda>r.
          case r of Inl k \<Rightarrow> if k = WouldBlock then okE False else failE (e k) | Inr x \<Rightarrow> okE True))))" for m1 m2 e
      by (intro frame lock tried files)
  qed
qed

lemma bundled_value: "su_current_exe S = Inr exe \<Longrightarrow> bundled_service_binary E S w = (Inr p, v) \<Longrightarrow> p = butlast exe @ [service_binary_name E]"
  by (auto simp: bundled_service_binary_def bindE_Inr okE_def failE_def liftE_def Let_def split: if_splits)

lemma bundled_data: "keeps (file_data q) (bundled_service_binary E S)"
  unfolding bundled_service_binary_def Let_def by (intro frame looked_at)


text \<open>A step on the world that leaves both binaries alone, and one that may fail after the binary was replaced.\<close>

lemma step_before:
  assumes "keeps (file_data s) m" "keeps (file_data (linux_target E)) m" and "\<And>w x v. m w = (Inr x, v) \<Longrightarrow> P x"
  shows "triple (\<lambda>h. undisturbed s d (linux_target E) y (host_world h) \<and> host_commands h = c) (on_world m)
    (\<lambda>x h. (undisturbed s d (linux_target E) y (host_world h) \<and> host_commands h = c) \<and> P x) (\<lambda>_. replaced_safely E y d)"
  unfolding triple_def on_world_def undisturbed_def replaced_safely_def
  using assms by (auto split: prod.splits dest: keepsD)

lemma step_after:
  assumes "\<And>w. P w \<Longrightarrow> file_data (linux_target E) w = Some (RegularFile, d)"
    and "triple P m (\<lambda>_. P) (\<lambda>_. P)" and "(''systemctl'', [''stop'', unit_name E]) \<in> set c"
  shows "triple (\<lambda>h. P (host_world h) \<and> host_commands h = c) (on_world m)
    (\<lambda>_ h. P (host_world h) \<and> host_commands h = c) (\<lambda>_. replaced_safely E y d)"
  by (rule triple_weaken [OF on_world_triple [OF assms(2)]]) (use assms(1,3) in \<open>auto simp: replaced_safely_def\<close>)

lemma install_triple:
  assumes "os (bd E) = Linux" and "su_current_exe S = Inr exe" and "''--cleanup-stale-owners'' \<notin> set (su_arguments S)"
    and "\<not> path_starts_with (sp_persistent_state_dir (paths_of E)) (butlast exe @ [''clash-verge-service''])"
  shows "triple (\<lambda>h. undisturbed (butlast exe @ [''clash-verge-service'']) d (linux_target E) y (host_world h) \<and> host_commands h = c)
    (install_linux_steps E S)
    (\<lambda>r h. (r = None \<longrightarrow> linux_installed E d c h) \<and> replaced_safely E y d h) (\<lambda>_. replaced_safely E y d)"
proof -
  let ?source = "butlast exe @ [''clash-verge-service'']" and ?target = "linux_target E" and ?install = "install_dir (paths_of E)"
  let ?I = "\<lambda>w. undisturbed ?source d ?target y w" and ?N = "\<lambda>w. file_data ?target w = Some (RegularFile, d)"
  let ?stop = "(''systemctl'', [''stop'', unit_name E])" and ?R = "\<lambda>_ :: err. replaced_safely E y d"
  let ?Q = "\<lambda>r h. (r = None \<longrightarrow> linux_installed E d c h) \<and> replaced_safely E y d h"
  from assms(1) have unix: "is_unix (os (bd E))" by simp
  have away: "?source \<notin> {sp_persistent_state_dir (paths_of E), ?install, ?install @ [n]}" for n
    using assms(4) by (auto simp: path_starts_with_def install_dir_def)
  have target: "?target \<notin> {sp_persistent_state_dir (paths_of E), ?install, ?install @ [''.repair.lock'']}"
    by (simp add: linux_target_def install_dir_def)
  note gate = gate_data [OF away [of "''.repair.lock''"]] gate_data [OF target]
  have staged: "?source \<noteq> staged_path E ?target" "?target \<noteq> staged_path E ?target"
    using away [of "''clash-verge-service.next''"] unfolding staged_linux [OF unix] by (auto simp: linux_target_def)
  have unit: "?target \<noteq> systemd_unit_path E"
    using assms(1) by (simp add: linux_target_def install_dir_def paths_of_def service_paths_of_def persistent_state_dir_def
        systemd_unit_path_def Let_def)
  have run: "triple (\<lambda>h. ?N (host_world h) \<and> host_commands h = cs) (run_command cmd args)
      (\<lambda>_ h. ?N (host_world h) \<and> host_commands h = cs @ [(cmd, args)]) ?R" if "?stop \<in> set cs" for cs cmd args
    by (rule triple_weaken [OF run_command_triple [where P = ?N]]) (use that in \<open>auto simp: replaced_safely_def\<close>)
  have world: "triple (\<lambda>h. ?N (host_world h) \<and> host_commands h = cs) (on_world m)
      (\<lambda>_ h. ?N (host_world h) \<and> host_commands h = cs) ?R" if "keeps (file_data ?target) m" "?stop \<in> set cs" for cs and m :: "'z act"
    by (rule step_after [OF _ triple_keeps [OF that(1)] that(2)]) simp_all
  have text_file: "keeps (file_data ?target) (write_text_file m (systemd_unit_path E) t)" for m t
    unfolding write_text_file_def using unit by (intro frame files)
  have last: "triple (\<lambda>h. ?N (host_world h) \<and> host_commands h = c @ [?stop])
      (bindE (liftE (resolve_service_group_name S)) (\<lambda>group_name.
       bindE (on_world (write_text_file m1 (systemd_unit_path E) (t group_name))) (\<lambda>_.
       bindE (on_world (ctx_io m2 fs_sync)) (\<lambda>_.
       bindE (run_command ''systemctl'' [''daemon-reload'']) (\<lambda>_.
       bindE (run_command ''systemctl'' [''enable'', unit_name E]) (\<lambda>_.
       bindE (run_command ''systemctl'' [''start'', unit_name E]) (\<lambda>_. okE None))))))) ?Q ?R" for m1 m2 t
    by (rule triple_bindE [where Q = "\<lambda>_ h. ?N (host_world h) \<and> host_commands h = c @ [?stop]"], rule triple_liftE)
      (auto simp: replaced_safely_def linux_installed_def intro!: triple_bindE [OF world] triple_bindE [OF run] triple_okE text_file frame files)
  let ?H = "\<lambda>cs h. ?I (host_world h) \<and> host_commands h = cs"
  let ?S = "staged_path E ?target"
  let ?J = "\<lambda>w. ?I w \<and> file_data ?S w = Some (RegularFile, d)"
  have stage: "triple (?H c) (on_world (stage_service_binary E ?source ?target))
      (\<lambda>p h. (?J (host_world h) \<and> host_commands h = c) \<and> p = ?S) ?R"
    by (rule triple_weaken [OF on_world_triple [OF staging_triple [OF staged]]]) (auto simp: replaced_safely_def undisturbed_def)
  have publish: "triple (\<lambda>h. ?J (host_world h) \<and> host_commands h = c @ [?stop]) (on_world (publish_staged_binary ?S ?target))
      (\<lambda>_ h. ?N (host_world h) \<and> host_commands h = c @ [?stop]) ?R"
    by (rule triple_weaken [OF on_world_triple [OF publish_triple [OF staged(2) [symmetric], of y d]]])
      (auto simp: undisturbed_def replaced_safely_def)
  have stop: "triple (\<lambda>h. ?J (host_world h) \<and> host_commands h = c) (run_command ''systemctl'' [''stop'', unit_name E])
      (\<lambda>_ h. ?J (host_world h) \<and> host_commands h = c @ [?stop]) (\<lambda>_ h. ?J (host_world h) \<and> host_commands h = c @ [?stop])"
    by (rule run_command_triple) (simp add: undisturbed_def)
  have enter: "triple (?H c) (enter_repair_gate E) (\<lambda>_. ?H c) ?R"
    unfolding enter_repair_gate_def
    by (rule triple_bindE, rule step_before [OF gate(2) gate(4), where P = "\<lambda>_. True"]) (auto intro: triple_okE)
  note source = bundled_value [OF assms(2), of E, unfolded service_binary_name_def if_P [OF unix]]
  have skip: "bindE (okE False) k = k False" for k :: "bool \<Rightarrow> int option installing"
    by (simp add: fun_eq_iff bindE_def okE_def)
  have replace: "triple (\<lambda>h. ?J (host_world h) \<and> host_commands h = c) (tryE (run_command ''systemctl'' [''stop'', unit_name E]) (\<lambda>_.
      bindE (on_world (publish_staged_binary ?S ?target)) (\<lambda>_. tail))) ?Q ?R"
    if "triple (\<lambda>h. ?N (host_world h) \<and> host_commands h = c @ [?stop]) tail ?Q ?R" for tail
    by (rule triple_tryE [OF stop]) (rule triple_bindE [OF publish that])+
  show ?thesis
    unfolding install_linux_steps_def run_maintenance_if_requested_def if_P [OF assms(3)] Let_def skip if_False
    by (rule triple_bindE, rule enter, rule triple_case_option, rule triple_bindE,
        rule step_before [OF bundled_data bundled_data source], assumption, rule triple_known, hypsubst,
        rule triple_bindE, rule step_before [OF gate(1) gate(3) prepared_install], assumption, rule triple_known, hypsubst,
        fold linux_target_def, rule triple_bindE, rule stage, rule triple_known, hypsubst, rule replace, rule last,
        rule triple_okE, simp add: replaced_safely_def undisturbed_def)
qed



definition plain_surroundings :: surroundings where
  "plain_surroundings =
     \<lparr>su_arguments = [''install''], su_variable = [''SUDO_GID'' \<mapsto> ''20''], su_group_name = [20 \<mapsto> ''staff''],
      su_user_gid = Map.empty, su_current_exe = Inr [''opt'', ''install''], su_launchctl_print = Inl (Msg '''')\<rparr>"

definition plain_host :: host where
  "plain_host = \<lparr>host_world = calm_world [[''opt'', ''clash-verge-service''] \<mapsto> file_node 0 (Bytes ''new'')], host_commands = []\<rparr>"


section \<open>The wait ends\<close>

definition later :: "environment \<Rightarrow> nat \<Rightarrow> world \<Rightarrow> bool" where
  "later e n w \<longleftrightarrow> env w = e \<and> n \<le> tick w"

definition patient :: "transport \<Rightarrow> bool" where
  "patient T \<longleftrightarrow> (\<forall>c q e n. preserves (later e n) (T c q))"

lemma later_syscall:
  assumes "\<And>w r v. m w = (r, v) \<Longrightarrow> v = w"
  shows "preserves (later e n) (syscall m)"
proof -
  have "snd (m w) = w" for w using assms by (metis prod.collapse)
  then show ?thesis by (auto simp: preserves_def later_def syscall_def Let_def split: option.splits)
qed

lemma later_ready:
  assumes "patient T"
  shows "preserves (later e n) (protocol_ready E T)"
proof -
  have "preserves (later e n) (T c q)" for c q using assms by (simp add: patient_def)
  moreover have "preserves (later e n) (path_metadata p)" for p
    unfolding path_metadata_def by (rule later_syscall) (simp split: option.splits)
  ultimately show ?thesis
    unfolding protocol_ready_def get_version_def connect_def Let_def
    by (intro preserves_tryE preserves_bindE preserves_okE preserves_liftE preserves_mapErrE preserves_if)
qed

text \<open>
  C26. The installer does not wait forever. If the clock advances from one reading to the next and the transport
  does not turn it back, then the wait for the service ends: with success, or with an error once the twenty seconds
  have passed.
\<close>

theorem readiness_wait_ends:
  assumes "\<forall>a b. a < b \<longrightarrow> ev_instant (env w) a < ev_instant (env w) b" and "patient T"
  shows "\<exists>r v. wait_for_service_ready E T w = Some (r, v)"
proof -
  let ?e = "env w"
  have clock: "ev_instant ?e a < ev_instant ?e b" if "a < b" for a b using assms(1) that by blast
  have "\<exists>r v. ready_loop E T deadline u = Some (r, v)" if "env u = ?e" for deadline u
    using that
  proof (induction "deadline - ev_instant ?e (tick u)" arbitrary: u rule: less_induct)
    case less
    obtain ready u1 where 1: "protocol_ready E T u = (ready, u1)" by (cases "protocol_ready E T u")
    have u1: "env u1 = ?e" "tick u \<le> tick u1"
      using preservesD [OF later_ready [OF assms(2)] 1, of ?e "tick u"] less.prems by (auto simp: later_def)
    let ?u2 = "u1\<lparr>tick := Suc (tick u1)\<rparr>" and ?t = "ev_instant ?e (tick u1)"
    have 2: "read_instant u1 = (Inr ?t, ?u2)" using u1 by (simp add: read_instant_def)
    show ?case
    proof (cases "ready = Inr True \<or> deadline \<le> ?t")
      case True
      then show ?thesis by (subst ready_loop.simps) (auto simp: 1 2)
    next
      case False
      have "ev_instant ?e (tick u) \<le> ?t" using clock u1(2) by (metis le_neq_implies_less less_imp_le_nat order_refl)
      moreover have "?t < ev_instant ?e (tick ?u2)" using clock by simp
      ultimately have "deadline - ev_instant ?e (tick ?u2) < deadline - ev_instant ?e (tick u)" using False by linarith
      from less.hyps [OF this] u1(1) have "\<exists>r v. ready_loop E T deadline ?u2 = Some (r, v)" by simp
      with False show ?thesis by (subst ready_loop.simps) (simp add: 1 2)
    qed
  qed
  then show ?thesis by (simp add: wait_for_service_ready_def read_instant_def)
qed

theorem readiness_wait_ends_witness:
  "wait_for_service_ready plain_params (\<lambda>_ _. failE ''nobody listens'') (calm_world Map.empty) \<noteq> None"
proof -
  have "\<forall>a b. a < b \<longrightarrow> ev_instant (env (calm_world Map.empty)) a < ev_instant (env (calm_world Map.empty)) b"
    by (simp add: calm_world_def calm_env_def)
  moreover have "patient (\<lambda>_ _. failE ''nobody listens'')" by (simp add: patient_def preserves_failE)
  ultimately show ?thesis using readiness_wait_ends by fastforce
qed

end
