(* ===== verification/WinSecurity.thy ===== *)
theory WinSecurity
  imports Supervision
begin

text \<open>
  The service's private directories and files on Windows (\<open>src/core/windows_security.rs\<close>): an object is opened
  by a handle without following a reparse point, and checked, given its owner and its access list through that
  handle. The objects of the file system, the failures of the calls (a Windows error code each) and the number of
  the next call are the state. A security descriptor is its text: the owner and the access list it names. The
  \<open>test\<close> feature is off.
\<close>

record win_object =
  wo_directory :: bool
  wo_reparse :: bool
  wo_disk :: bool
  wo_owner :: string
  wo_dacl :: string

record win_files =
  wf_tick :: nat
  wf_fault :: "nat \<Rightarrow> nat option"
  wf_objects :: "path \<Rightarrow> win_object option"
  wf_names :: "path \<Rightarrow> string list"

type_synonym 'a win = "(win_files, err, 'a) op"
type_synonym 'a win_call = "(win_files, nat, 'a) op"

definition ERROR_FILE_NOT_FOUND :: nat where "ERROR_FILE_NOT_FOUND = 2"
definition ERROR_PATH_NOT_FOUND :: nat where "ERROR_PATH_NOT_FOUND = 3"
definition ERROR_DIR_NOT_EMPTY :: nat where "ERROR_DIR_NOT_EMPTY = 145"
definition ERROR_ALREADY_EXISTS :: nat where "ERROR_ALREADY_EXISTS = 183"

definition PRIVATE_SERVICE_DIRECTORY_SDDL :: string where
  "PRIVATE_SERVICE_DIRECTORY_SDDL = ''O:SYD:P(A;OICI;FA;;;SY)(A;OICI;FA;;;BA)''"
definition PRIVATE_INSTALLER_DIRECTORY_SDDL :: string where
  "PRIVATE_INSTALLER_DIRECTORY_SDDL = ''O:BAD:P(A;OICI;FA;;;SY)(A;OICI;FA;;;BA)''"
definition PRIVATE_SERVICE_FILE_SDDL :: string where
  "PRIVATE_SERVICE_FILE_SDDL = ''O:SYD:P(A;;FA;;;SY)(A;;FA;;;BA)''"

text \<open>The two accounts, as a descriptor abbreviates them.\<close>

definition LOCAL_SYSTEM :: string where "LOCAL_SYSTEM = ''SY''"
definition ADMINISTRATORS :: string where "ADMINISTRATORS = ''BA''"

definition sddl_owner :: "string \<Rightarrow> string" where
  "sddl_owner s = take 2 (drop 2 s)"

definition sddl_dacl :: "string \<Rightarrow> string" where
  "sddl_dacl s = drop 6 s"

section \<open>The calls\<close>

definition win_call :: "'a win_call \<Rightarrow> 'a win_call" where
  "win_call m w =
     (let w' = w\<lparr>wf_tick := Suc (wf_tick w)\<rparr> in
      case wf_fault w (wf_tick w) of Some code \<Rightarrow> (Inl code, w') | None \<Rightarrow> m w')"

definition set_object :: "path \<Rightarrow> win_object option \<Rightarrow> win_files \<Rightarrow> win_files" where
  "set_object p o' w = w\<lparr>wf_objects := (wf_objects w)(p := o')\<rparr>"

definition create_directory :: "path \<Rightarrow> string \<Rightarrow> unit win_call" where
  "create_directory p sddl = win_call (\<lambda>w.
     if wf_objects w p \<noteq> None then (Inl ERROR_ALREADY_EXISTS, w)
     else if wf_objects w (butlast p) = None then (Inl ERROR_PATH_NOT_FOUND, w)
     else (Inr (), set_object p (Some \<lparr>wo_directory = True, wo_reparse = False, wo_disk = True,
                                      wo_owner = sddl_owner sddl, wo_dacl = sddl_dacl sddl\<rparr>) w))"

text \<open>A handle is the object it was opened on; no other process replaces the object of an open handle.\<close>

definition open_object :: "path \<Rightarrow> unit win_call" where
  "open_object p = win_call (\<lambda>w. if wf_objects w p = None then (Inl ERROR_FILE_NOT_FOUND, w) else (Inr (), w))"

definition object_of :: "path \<Rightarrow> win_files \<Rightarrow> win_object" where
  "object_of p w = the (wf_objects w p)"

definition object_information :: "path \<Rightarrow> win_object win_call" where
  "object_information p = win_call (\<lambda>w. (Inr (object_of p w), w))"

definition read_owner :: "path \<Rightarrow> string win" where
  "read_owner p =
     mapErrE (\<lambda>_. Msg ''failed to inspect service path owner'') (win_call (\<lambda>w. (Inr (wo_owner (object_of p w)), w)))"

definition set_owner :: "path \<Rightarrow> string \<Rightarrow> unit win_call" where
  "set_owner p sid = win_call (\<lambda>w. (Inr (), set_object p (Some ((object_of p w)\<lparr>wo_owner := sid\<rparr>)) w))"

definition apply_dacl :: "string \<Rightarrow> path \<Rightarrow> unit win" where
  "apply_dacl sddl p =
     mapErrE (\<lambda>_. Msg ''failed to apply private service directory DACL'')
       (win_call (\<lambda>w. (Inr (), set_object p (Some ((object_of p w)\<lparr>wo_dacl := sddl_dacl sddl\<rparr>)) w)))"

definition remove_dir :: "path \<Rightarrow> unit win_call" where
  "remove_dir p = win_call (\<lambda>w.
     if filter (\<lambda>name. wf_objects w (p @ [name]) \<noteq> None) (wf_names w p) \<noteq> [] then (Inl ERROR_DIR_NOT_EMPTY, w) else (Inr (), set_object p None w))"

definition wide_path :: "path \<Rightarrow> err + path" where
  "wide_path p = bindR (ensure (CHR 0x00 \<notin> set (concat p)) (Msg ''service directory path contains NUL'')) (\<lambda>_. Inr p)"

section \<open>Directories\<close>

definition ensure_local_system_owner :: "path \<Rightarrow> unit win" where
  "ensure_local_system_owner p =
     bindE (read_owner p) (\<lambda>owner_sid.
       if owner_sid = LOCAL_SYSTEM then okE ()
       else if owner_sid \<noteq> ADMINISTRATORS then
         failE (Msg ''service path has an unexpected owner; only legacy Builtin Administrators ownership can be migrated'')
       else mapErrE (\<lambda>_. Msg ''failed to migrate service path to LocalSystem ownership'') (set_owner p LOCAL_SYSTEM))"

definition installer_owner_is_trusted :: "path \<Rightarrow> bool win" where
  "installer_owner_is_trusted p =
     bindE (read_owner p) (\<lambda>owner_sid. okE (owner_sid = LOCAL_SYSTEM \<or> owner_sid = ADMINISTRATORS))"

definition not_ordinary_directory :: "win_object \<Rightarrow> bool" where
  "not_ordinary_directory o' \<longleftrightarrow> \<not> wo_directory o' \<or> wo_reparse o' \<or> \<not> wo_disk o'"

text \<open>A foreign directory is removed once, when it is empty, and created again.\<close>

function ensure_private_directory_with_recovery :: "path \<Rightarrow> string \<Rightarrow> bool \<Rightarrow> bool \<Rightarrow> unit win" where
  "ensure_private_directory_with_recovery p sddl migrate_owner allow_empty_recreation =
     bindE (liftE (wide_path p)) (\<lambda>wide.
     tryE (create_directory wide sddl) (\<lambda>created.
     if created \<noteq> Inr () \<and> created \<noteq> Inl ERROR_ALREADY_EXISTS then
       failE (Msg ''failed to create private service directory'')
     else
       bindE (mapErrE (\<lambda>_. Msg ''failed to open private service directory'') (open_object wide)) (\<lambda>_.
       bindE (mapErrE (\<lambda>_. Msg ''service directory is not an ordinary directory'') (object_information wide)) (\<lambda>information.
       if not_ordinary_directory information then failE (Msg ''service directory is not an ordinary directory'')
       else if migrate_owner then
         bindE (ensure_local_system_owner wide) (\<lambda>_. apply_dacl sddl wide)
       else
         bindE (installer_owner_is_trusted wide) (\<lambda>trusted.
           if trusted then apply_dacl sddl wide
           else if allow_empty_recreation then
             bindE (mapErrE (\<lambda>_. Msg ''service install path has an unexpected owner and is not an empty directory'') (remove_dir p)) (\<lambda>_.
               ensure_private_directory_with_recovery p sddl migrate_owner False)
           else failE (Msg ''service install path still has an unexpected owner after safe recreation''))))))"
  by pat_completeness auto

termination
  by (relation "measure (\<lambda>(p, sddl, m, allow). if allow then 1 else 0)") auto

declare ensure_private_directory_with_recovery.simps [simp del]

definition ensure_private_directory :: "path \<Rightarrow> string \<Rightarrow> bool \<Rightarrow> unit win" where
  "ensure_private_directory p sddl migrate_owner = ensure_private_directory_with_recovery p sddl migrate_owner True"

definition windows_ensure_private_service_directory :: "path \<Rightarrow> unit win" where
  "windows_ensure_private_service_directory p = ensure_private_directory p PRIVATE_SERVICE_DIRECTORY_SDDL True"

definition windows_ensure_private_installer_directory :: "path \<Rightarrow> unit win" where
  "windows_ensure_private_installer_directory p = ensure_private_directory p PRIVATE_INSTALLER_DIRECTORY_SDDL False"

section \<open>Files\<close>

definition windows_secure_private_service_file_if_exists :: "path \<Rightarrow> unit win" where
  "windows_secure_private_service_file_if_exists p =
     bindE (liftE (wide_path p)) (\<lambda>wide.
     tryE (open_object wide) (\<lambda>opened.
     (case opened of
        Inl code \<Rightarrow>
          if code = ERROR_FILE_NOT_FOUND \<or> code = ERROR_PATH_NOT_FOUND then okE ()
          else failE (Msg ''failed to open private service file'')
      | Inr _ \<Rightarrow>
          bindE (mapErrE (\<lambda>_. Msg ''service file is not an ordinary file'') (object_information wide)) (\<lambda>information.
          if wo_directory information \<or> wo_reparse information \<or> \<not> wo_disk information then
            failE (Msg ''service file is not an ordinary file'')
          else bindE (ensure_local_system_owner wide) (\<lambda>_. apply_dacl PRIVATE_SERVICE_FILE_SDDL wide)))))"


section \<open>What they leave\<close>

definition private_object :: "string \<Rightarrow> string set \<Rightarrow> bool \<Rightarrow> win_object option \<Rightarrow> bool" where
  "private_object sddl owners directory found \<longleftrightarrow>
     (case found of
        None \<Rightarrow> False
      | Some x \<Rightarrow> wo_directory x = directory \<and> \<not> wo_reparse x \<and> wo_disk x \<and> wo_owner x \<in> owners \<and>
          wo_dacl x = sddl_dacl sddl)"

lemmas win_defs = win_call_def set_object_def create_directory_def open_object_def object_of_def object_information_def
  read_owner_def set_owner_def apply_dacl_def remove_dir_def

lemma wide_path_Inr: "wide_path p = Inr q \<longleftrightarrow> q = p \<and> CHR 0x00 \<notin> set (concat p)"
  by (auto simp: wide_path_def ensure_def)

lemma win_call_Inr: "win_call m w = (Inr x, v) \<longleftrightarrow>
    wf_fault w (wf_tick w) = None \<and> m (w\<lparr>wf_tick := Suc (wf_tick w)\<rparr>) = (Inr x, v)"
  by (simp add: win_call_def Let_def split: option.splits)

lemma dacl_run:
  "apply_dacl sddl p w = (Inr (), v) \<Longrightarrow> wf_objects v = (wf_objects w)(p \<mapsto> (object_of p w)\<lparr>wo_dacl := sddl_dacl sddl\<rparr>)"
  by (auto simp: apply_dacl_def win_call_Inr set_object_def object_of_def)

lemma owner_run:
  "ensure_local_system_owner p w = (Inr (), v) \<Longrightarrow> wf_objects w p = Some x \<Longrightarrow>
   wf_objects v p = Some (x\<lparr>wo_owner := LOCAL_SYSTEM\<rparr>)"
  by (auto simp: ensure_local_system_owner_def read_owner_def set_owner_def win_call_Inr set_object_def object_of_def
      bindE_Inr okE_def failE_def split: if_splits)

lemma trusted_run:
  "installer_owner_is_trusted p w = (Inr b, v) \<Longrightarrow> wf_objects w p = Some x \<Longrightarrow>
   wf_objects v = wf_objects w \<and> (b \<longleftrightarrow> wo_owner x \<in> {LOCAL_SYSTEM, ADMINISTRATORS})"
  by (auto simp: installer_owner_is_trusted_def read_owner_def win_call_Inr object_of_def bindE_Inr okE_def)

lemma opened_run: "open_object p w = (Inr (), v) \<Longrightarrow> \<exists>x. wf_objects w p = Some x \<and> wf_objects v = wf_objects w"
  by (auto simp: open_object_def win_call_Inr split: if_splits)

lemma information_run: "object_information p w = (Inr x, v) \<Longrightarrow> x = object_of p w \<and> wf_objects v = wf_objects w"
  by (auto simp: object_information_def win_call_Inr object_of_def)

lemma object_triples:
  "triple (\<lambda>_. True) (open_object p) (\<lambda>_ w. wf_objects w p \<noteq> None) (\<lambda>_ _. True)"
  "triple (\<lambda>w. wf_objects w p \<noteq> None) (object_information p) (\<lambda>x w. wf_objects w p = Some x) (\<lambda>_ _. True)"
  "triple (\<lambda>w. wf_objects w p = Some x) (ensure_local_system_owner p) (\<lambda>_ w. wf_objects w p = Some (x\<lparr>wo_owner := LOCAL_SYSTEM\<rparr>)) (\<lambda>_ _. True)"
  "triple (\<lambda>w. wf_objects w p = Some x) (installer_owner_is_trusted p)
     (\<lambda>b w. wf_objects w p = Some x \<and> (b \<longleftrightarrow> wo_owner x \<in> {LOCAL_SYSTEM, ADMINISTRATORS})) (\<lambda>_ _. True)"
  "triple (\<lambda>w. wf_objects w p = Some x) (apply_dacl sddl p) (\<lambda>_ w. wf_objects w p = Some (x\<lparr>wo_dacl := sddl_dacl sddl\<rparr>)) (\<lambda>_ _. True)"
  unfolding triple_def
  using opened_run information_run owner_run trusted_run dacl_run
  by (fastforce simp: object_of_def)+

lemma triple_anything: "triple P m (\<lambda>_ _. True) (\<lambda>_ _. True)"
  by (simp add: triple_def)

lemma triple_mapped: "triple P m Q (\<lambda>_ _. True) \<Longrightarrow> triple P (mapErrE f m) Q (\<lambda>_ _. True)"
  by (rule triple_mapErrE)

definition privileged :: "bool \<Rightarrow> string set" where
  "privileged migrate = (if migrate then {LOCAL_SYSTEM} else {LOCAL_SYSTEM, ADMINISTRATORS})"

lemma directory_private_round:
  assumes again: "allow \<Longrightarrow> triple (\<lambda>_. True) (ensure_private_directory_with_recovery p sddl migrate False)
     (\<lambda>_ w. private_object sddl (privileged migrate) True (wf_objects w p)) (\<lambda>_ _. True)"
  shows "triple (\<lambda>_. True) (ensure_private_directory_with_recovery p sddl migrate allow)
     (\<lambda>_ w. private_object sddl (privileged migrate) True (wf_objects w p)) (\<lambda>_ _. True)"
proof -
  let ?Q = "\<lambda>_ w. private_object sddl (privileged migrate) True (wf_objects w p)" and ?R = "\<lambda>_ _. True"
  have secured: "triple (\<lambda>w. wf_objects w p = Some x) (if not_ordinary_directory x then failE e1
      else if migrate then bindE (ensure_local_system_owner p) (\<lambda>_. apply_dacl sddl p)
      else bindE (installer_owner_is_trusted p) (\<lambda>trusted.
        if trusted then apply_dacl sddl p
        else if allow then bindE (mapErrE (\<lambda>_. e2) (remove_dir p)) (\<lambda>_. ensure_private_directory_with_recovery p sddl migrate False)
        else failE e3)) ?Q ?R" for x e1 e2 e3
  proof (cases "not_ordinary_directory x")
    case False
    then have x: "wo_directory x" "\<not> wo_reparse x" "wo_disk x" by (auto simp: not_ordinary_directory_def)
    have system: "LOCAL_SYSTEM \<in> privileged migrate" by (simp add: privileged_def)
    have dacl: "triple (\<lambda>w. wf_objects w p = Some y) (apply_dacl sddl p) ?Q ?R"
      if "wo_directory y" "\<not> wo_reparse y" "wo_disk y" "wo_owner y \<in> privileged migrate" for y
      by (rule triple_weaken [OF object_triples(5)]) (use that in \<open>auto simp: private_object_def\<close>)
    show ?thesis
    proof (cases migrate)
      case True
      show ?thesis
        unfolding if_not_P [OF False] if_P [OF True]
        by (rule triple_bindE [OF object_triples(3)], rule dacl) (use x system in simp_all)
    next
      case migrate: False
      have reclaim: "triple (\<lambda>w. wf_objects w p = Some x) (if allow
            then bindE (mapErrE (\<lambda>_. e2) (remove_dir p)) (\<lambda>_. ensure_private_directory_with_recovery p sddl migrate False)
            else failE e3) ?Q ?R"
        by (auto intro!: triple_bindE [OF triple_mapped [OF triple_anything]] again triple_failE)
      have "triple (\<lambda>w. wf_objects w p = Some x \<and> (trusted \<longleftrightarrow> wo_owner x \<in> {LOCAL_SYSTEM, ADMINISTRATORS}))
          (if trusted then apply_dacl sddl p else if allow
            then bindE (mapErrE (\<lambda>_. e2) (remove_dir p)) (\<lambda>_. ensure_private_directory_with_recovery p sddl migrate False)
            else failE e3) ?Q ?R" for trusted
      proof (cases trusted)
        case True
        have "triple (\<lambda>w. wf_objects w p = Some x) (apply_dacl sddl p) ?Q ?R" if "wo_owner x \<in> {LOCAL_SYSTEM, ADMINISTRATORS}"
          using that migrate by (intro dacl x) (simp add: privileged_def)
        with True show ?thesis by (auto intro: triple_known)
      next
        case False
        show ?thesis
          unfolding if_not_P [OF False] by (rule triple_known, rule reclaim)
      qed
      then show ?thesis
        unfolding if_not_P [OF False] if_not_P [OF migrate] by (rule triple_bindE [OF object_triples(4)])
    qed
  qed (simp add: triple_failE)
  have created: "triple (\<lambda>_. True) (tryE (create_directory p sddl) (\<lambda>created.
      if created \<noteq> Inr () \<and> created \<noteq> Inl ERROR_ALREADY_EXISTS then failE e4
      else bindE (mapErrE (\<lambda>_. e5) (open_object p)) (\<lambda>_. bindE (mapErrE (\<lambda>_. e6) (object_information p)) (\<lambda>x.
        if not_ordinary_directory x then failE e1
        else if migrate then bindE (ensure_local_system_owner p) (\<lambda>_. apply_dacl sddl p)
        else bindE (installer_owner_is_trusted p) (\<lambda>trusted.
          if trusted then apply_dacl sddl p
          else if allow then bindE (mapErrE (\<lambda>_. e2) (remove_dir p)) (\<lambda>_. ensure_private_directory_with_recovery p sddl migrate False)
          else failE e3))))) ?Q ?R" for e1 e2 e3 e4 e5 e6
    by (rule triple_tryE [OF triple_anything])
      (intro triple_if triple_failE triple_bindE [OF triple_mapped [OF object_triples(1)]]
        triple_bindE [OF triple_mapped [OF object_triples(2)]] secured TrueI)+
  have path: "triple (\<lambda>_. True) (liftE (wide_path p)) (\<lambda>wide _. True \<and> wide = p) ?R"
    by (auto simp: triple_def liftE_def wide_path_Inr)
  show ?thesis
    by (subst ensure_private_directory_with_recovery.simps, rule triple_bindE, rule path, rule triple_known, hypsubst, rule created)
qed


lemma directory_private:
  "triple (\<lambda>_. True) (ensure_private_directory p sddl migrate)
     (\<lambda>_ w. private_object sddl (privileged migrate) True (wf_objects w p)) (\<lambda>_ _. True)"
  unfolding ensure_private_directory_def by (rule directory_private_round, rule directory_private_round) simp

text \<open>A missing file is reported only when it is missing.\<close>

definition honest_files :: "win_files \<Rightarrow> bool" where
  "honest_files w \<longleftrightarrow> (\<forall>n. wf_fault w n \<noteq> Some ERROR_FILE_NOT_FOUND \<and> wf_fault w n \<noteq> Some ERROR_PATH_NOT_FOUND)"

lemma file_private:
  "triple honest_files (windows_secure_private_service_file_if_exists p)
     (\<lambda>_ w. wf_objects w p = None \<or> private_object PRIVATE_SERVICE_FILE_SDDL {LOCAL_SYSTEM} False (wf_objects w p)) (\<lambda>_ _. True)"
proof -
  let ?Q = "\<lambda>_ w. wf_objects w p = None \<or> private_object PRIVATE_SERVICE_FILE_SDDL {LOCAL_SYSTEM} False (wf_objects w p)"
  have opened: "triple honest_files (open_object p) (\<lambda>_ w. wf_objects w p \<noteq> None)
      (\<lambda>code w. code \<in> {ERROR_FILE_NOT_FOUND, ERROR_PATH_NOT_FOUND} \<longrightarrow> wf_objects w p = None)"
    by (auto simp: triple_def open_object_def win_call_def honest_files_def Let_def split: option.splits if_splits)
  have secured: "triple (\<lambda>w. wf_objects w p = Some x) (if wo_directory x \<or> wo_reparse x \<or> \<not> wo_disk x then failE e
      else bindE (ensure_local_system_owner p) (\<lambda>_. apply_dacl PRIVATE_SERVICE_FILE_SDDL p)) ?Q (\<lambda>_ _. True)" for x e
    by (auto intro!: triple_failE triple_bindE [OF object_triples(3)] triple_weaken [OF object_triples(5)] simp: private_object_def)
  have path: "triple honest_files (liftE (wide_path p)) (\<lambda>wide w. honest_files w \<and> wide = p) (\<lambda>_ _. True)"
    by (auto simp: triple_def liftE_def wide_path_Inr)
  show ?thesis
    unfolding windows_secure_private_service_file_if_exists_def
    by (rule triple_bindE, rule path, rule triple_known, hypsubst, rule triple_match, rule opened, rule triple_bindE,
        rule triple_mapped, rule object_triples(2), rule secured) (auto intro: triple_failE simp: triple_def okE_def failE_def)
qed

section \<open>What they leave alone\<close>

lemma keeps_win_call [frame]:
  "(\<And>w n. f (w\<lparr>wf_tick := n\<rparr>) = f w) \<Longrightarrow> keeps f m \<Longrightarrow> keeps f (win_call m)"
  by (simp add: keeps_def win_call_def Let_def split: option.splits)

lemma elsewhere_calls:
  assumes "q \<noteq> p"
  shows "keeps (\<lambda>w. wf_objects w q) (create_directory p sddl)" "keeps (\<lambda>w. wf_objects w q) (open_object p)"
    "keeps (\<lambda>w. wf_objects w q) (object_information p)" "keeps (\<lambda>w. wf_objects w q) (ensure_local_system_owner p)"
    "keeps (\<lambda>w. wf_objects w q) (installer_owner_is_trusted p)" "keeps (\<lambda>w. wf_objects w q) (apply_dacl sddl p)"
    "keeps (\<lambda>w. wf_objects w q) (remove_dir p)"
  unfolding create_directory_def open_object_def object_information_def ensure_local_system_owner_def
    installer_owner_is_trusted_def read_owner_def set_owner_def apply_dacl_def remove_dir_def
  using assms by (intro frame; simp add: keeps_def set_object_def)+

lemma elsewhere_round:
  assumes "q \<noteq> p" and "allow \<Longrightarrow> keeps (\<lambda>w. wf_objects w q) (ensure_private_directory_with_recovery p sddl migrate False)"
  shows "keeps (\<lambda>w. wf_objects w q) (ensure_private_directory_with_recovery p sddl migrate allow)"
proof -
  note calls = elsewhere_calls [OF assms(1)]
  have "keeps (\<lambda>w. wf_objects w q) (if allow
      then bindE (mapErrE e2 (remove_dir p)) (\<lambda>_. ensure_private_directory_with_recovery p sddl migrate False)
      else failE e3)" for e2 e3
    using assms(2) by (cases allow) (auto intro!: frame calls)
  note frames = this calls
  show ?thesis
  proof (subst ensure_private_directory_with_recovery.simps, rule keeps_bindE_value)
    show "keeps (\<lambda>w. wf_objects w q) (liftE (wide_path p))" by (rule frame)
    show "x = p" if "liftE (wide_path p) w = (Inr x, v)" for w x v
      using that by (auto simp: liftE_def wide_path_Inr)
  qed (hypsubst, intro frame frames)
qed

lemma foreign_kept:
  fixes migrate :: bool
  defines "K p x w \<equiv> wf_objects w p = Some x \<and>
    (migrate \<or> filter (\<lambda>name. wf_objects w (p @ [name]) \<noteq> None) (wf_names w p) \<noteq> [])"
  assumes "wo_owner x \<notin> {LOCAL_SYSTEM, ADMINISTRATORS}"
  shows "triple (K p x) (ensure_private_directory p sddl migrate) (\<lambda>_ _. False) (\<lambda>_. K p x)"
proof -
  note defs = triple_def K_def win_call_def Let_def object_of_def
  have create: "triple (K p x) (create_directory p sddl) (\<lambda>_. K p x) (\<lambda>_. K p x)"
    and opens: "triple (K p x) (open_object p) (\<lambda>_. K p x) (\<lambda>_. K p x)"
    and info: "triple (K p x) (object_information p) (\<lambda>i w. K p x w \<and> i = x) (\<lambda>_. K p x)"
    and removes: "\<not> migrate \<Longrightarrow> triple (K p x) (remove_dir p) (\<lambda>_ _. False) (\<lambda>_. K p x)"
    by (auto simp: defs create_directory_def open_object_def object_information_def remove_dir_def split: option.splits if_splits)
  have own: "triple (K p x) (ensure_local_system_owner p) (\<lambda>_ _. False) (\<lambda>_. K p x)"
    and trust: "triple (K p x) (installer_owner_is_trusted p) (\<lambda>b w. K p x w \<and> \<not> b) (\<lambda>_. K p x)"
    using assms(2)
    by (auto simp: defs ensure_local_system_owner_def installer_owner_is_trusted_def read_owner_def bindE_def mapErrE_def
        okE_def failE_def split: option.splits if_splits)
  have mapped: "triple P m' Q' (\<lambda>_. R') \<Longrightarrow> triple P (mapErrE f m') Q' (\<lambda>_. R')"
    for P and m' :: "'z win_call" and Q' R' and f :: "nat \<Rightarrow> err"
    by (rule triple_mapErrE)
  have reclaim: "triple (K p x) (if allow then bindE (mapErrE e2 (remove_dir p)) (\<lambda>_. m) else failE e3) (\<lambda>_ _. False) (\<lambda>_. K p x)"
    if "\<not> migrate" for allow e2 e3 and m :: "unit win"
    by (intro triple_if triple_bindE [OF mapped [OF removes [OF that]]] triple_failE) (simp_all add: triple_def)
  have path: "triple (K p x) (liftE (wide_path p)) (\<lambda>wide w. K p x w \<and> wide = p) (\<lambda>_. K p x)"
    by (auto simp: triple_def liftE_def wide_path_Inr)
  have rest: "triple (K p x) (if not_ordinary_directory i then failE e1
      else if migrate then bindE (ensure_local_system_owner p) (\<lambda>_. apply_dacl sddl p)
      else bindE (installer_owner_is_trusted p) (\<lambda>trusted.
        if trusted then apply_dacl sddl p
        else if allow then bindE (mapErrE e2 (remove_dir p)) (\<lambda>_. m) else failE e3)) (\<lambda>_ _. False) (\<lambda>_. K p x)"
    for i e1 e2 e3 allow m
  proof -
    have never: "triple (\<lambda>_. False) m' Q' R'" for m' :: "'z win" and Q' R' by (simp add: triple_def)
    have foreign: "triple (\<lambda>w. K p x w \<and> \<not> trusted) (if trusted then apply_dacl sddl p
        else if allow then bindE (mapErrE e2 (remove_dir p)) (\<lambda>_. m) else failE e3) (\<lambda>_ _. False) (\<lambda>_. K p x)"
      if "\<not> migrate" for trusted
      by (rule triple_known) (simp only: if_False reclaim [OF that] simp_thms)
    show ?thesis
    proof (cases "not_ordinary_directory i")
      case False
      show ?thesis
      proof (cases migrate)
        case True
        show ?thesis unfolding if_not_P [OF False] if_P [OF True] by (rule triple_bindE [OF own never])
      next
        case migrate: False
        show ?thesis unfolding if_not_P [OF False] if_not_P [OF migrate] by (rule triple_bindE [OF trust foreign [OF migrate]])
      qed
    qed (simp add: triple_failE)
  qed
  show ?thesis
    unfolding ensure_private_directory_def
    by (subst ensure_private_directory_with_recovery.simps, rule triple_bindE, rule path, rule triple_known, hypsubst,
        rule triple_tryE, rule create;
        rule triple_if, rule triple_failE, assumption, rule triple_bindE, rule mapped, rule opens, rule triple_bindE,
        rule mapped, rule info, rule triple_known, rule rest)
qed

text \<open>
  C29. On Windows a directory that was prepared is private, and what is not the service's is left alone. When
  preparing it succeeds, it is an ordinary directory of LocalSystem (for an installer, of LocalSystem or the
  administrators) with the access list asked for; nothing else in the file system has changed, whatever
  happened; and a directory that belongs to anyone else is refused and left as it was, unless it is empty and an
  installer asks, who may create it anew.
\<close>

theorem windows_directory_private:
  assumes "ensure_private_directory p sddl migrate w = (r, v)"
  shows "(r = Inr () \<longrightarrow> private_object sddl (privileged migrate) True (wf_objects v p)) \<and>
    (\<forall>q. q \<noteq> p \<longrightarrow> wf_objects v q = wf_objects w q) \<and>
    (\<forall>x. wf_objects w p = Some x \<and> wo_owner x \<notin> {LOCAL_SYSTEM, ADMINISTRATORS} \<and>
       (migrate \<or> filter (\<lambda>name. wf_objects w (p @ [name]) \<noteq> None) (wf_names w p) \<noteq> []) \<longrightarrow>
       r \<noteq> Inr () \<and> wf_objects v p = Some x)"
proof (intro conjI allI impI)
  show "private_object sddl (privileged migrate) True (wf_objects v p)" if "r = Inr ()"
    using triple_ok [OF directory_private [of p sddl migrate], of w] assms that by simp
next
  fix q assume "q \<noteq> p"
  have "keeps (\<lambda>w. wf_objects w q) (ensure_private_directory p sddl migrate)"
    unfolding ensure_private_directory_def by (rule elsewhere_round, rule \<open>q \<noteq> p\<close>, rule elsewhere_round, rule \<open>q \<noteq> p\<close>) simp
  from keepsD [OF this assms] show "wf_objects v q = wf_objects w q" .
next
  fix x assume x: "wf_objects w p = Some x \<and> wo_owner x \<notin> {LOCAL_SYSTEM, ADMINISTRATORS} \<and>
    (migrate \<or> filter (\<lambda>name. wf_objects w (p @ [name]) \<noteq> None) (wf_names w p) \<noteq> [])"
  then have t: "triple (\<lambda>w. wf_objects w p = Some x \<and> (migrate \<or> filter (\<lambda>name. wf_objects w (p @ [name]) \<noteq> None) (wf_names w p) \<noteq> []))
      (ensure_private_directory p sddl migrate) (\<lambda>_ _. False)
      (\<lambda>_ w. wf_objects w p = Some x \<and> (migrate \<or> filter (\<lambda>name. wf_objects w (p @ [name]) \<noteq> None) (wf_names w p) \<noteq> []))"
    by (intro foreign_kept) blast
  show "r \<noteq> Inr ()" "wf_objects v p = Some x"
    using triple_ok [OF t, of w] triple_fails [OF t, of w] x assms by (cases r; auto)+
qed

definition plain_win_files :: win_files where
  "plain_win_files = \<lparr>wf_tick = 0, wf_fault = (\<lambda>_. None),
     wf_objects = [[''d''] \<mapsto> \<lparr>wo_directory = True, wo_reparse = False, wo_disk = True, wo_owner = ''S-1-5-21'', wo_dacl = ''''\<rparr>,
       [''d'', ''f''] \<mapsto> \<lparr>wo_directory = False, wo_reparse = False, wo_disk = True, wo_owner = ''S-1-5-21'', wo_dacl = ''''\<rparr>],
     wf_names = (\<lambda>_. [''f''])\<rparr>"

theorem windows_directory_private_witness:
  "fst (windows_ensure_private_installer_directory [''d''] plain_win_files) \<noteq> Inr ()"
proof -
  let ?run = "ensure_private_directory [''d''] PRIVATE_INSTALLER_DIRECTORY_SDDL False plain_win_files"
  let ?x = "\<lparr>wo_directory = True, wo_reparse = False, wo_disk = True, wo_owner = ''S-1-5-21'', wo_dacl = ''''\<rparr>"
  have "wf_objects plain_win_files [''d''] = Some ?x" "wo_owner ?x \<notin> {LOCAL_SYSTEM, ADMINISTRATORS}"
    "filter (\<lambda>name. wf_objects plain_win_files ([''d''] @ [name]) \<noteq> None) (wf_names plain_win_files [''d'']) \<noteq> []"
    by (simp_all add: plain_win_files_def LOCAL_SYSTEM_def ADMINISTRATORS_def)
  with windows_directory_private [OF surjective_pairing, of "[''d'']" PRIVATE_INSTALLER_DIRECTORY_SDDL False plain_win_files]
  have "fst ?run \<noteq> Inr ()" by blast
  then show ?thesis unfolding windows_ensure_private_installer_directory_def .
qed

end
