(* ===== verification/WinCore.thy ===== *)
theory WinCore
  imports WinSecurity CoreIpc Maintenance
begin

text \<open>
  Processes, accounts and the pipe of the core on Windows (the Windows branches of \<open>src/core/process.rs\<close>,
  \<open>src/core/maintenance.rs\<close> and \<open>secure_core_ipc_socket\<close> in \<open>src/core/manager.rs\<close>). The core creates
  its pipe itself; before the owner is let in, the service asks the system which process serves the pipe it has
  opened. What the system answers at a call, and which calls fail, is part of the state; the processes that were
  told to end and the pipes that were given an access list are logged in it.
\<close>

record win_process =
  wp_image :: string
  wp_created_high :: u32
  wp_created_low :: u32

record win_machine =
  wm_tick :: nat
  wm_fault :: "nat \<Rightarrow> nat option"
  wm_process :: "nat \<Rightarrow> u32 \<Rightarrow> win_process option"
  wm_tasklist :: "nat \<Rightarrow> u32 \<Rightarrow> bool \<times> string"
  wm_taskkill :: "nat \<Rightarrow> u32 \<Rightarrow> bool"
  wm_account :: "nat \<Rightarrow> string \<Rightarrow> bool"
  wm_pipe_server :: "nat \<Rightarrow> string \<Rightarrow> u32 option"
  wm_killed :: "u32 list"
  wm_secured :: "(u32 \<times> string) list"

type_synonym 'a machine_call = "(win_machine, nat, 'a) op"
type_synonym 'a machine = "(win_machine, err, 'a) op"

definition ERROR_INVALID_PARAMETER :: nat where "ERROR_INVALID_PARAMETER = 87"
definition ERROR_INSUFFICIENT_BUFFER :: nat where "ERROR_INSUFFICIENT_BUFFER = 122"
definition ERROR_NONE_MAPPED :: nat where "ERROR_NONE_MAPPED = 1332"

definition machine_call :: "'a machine_call \<Rightarrow> 'a machine_call" where
  "machine_call m w =
     (let w' = w\<lparr>wm_tick := Suc (wm_tick w)\<rparr> in
      case wm_fault w (wm_tick w) of Some code \<Rightarrow> (Inl code, w') | None \<Rightarrow> m w')"

definition os_error :: "nat \<Rightarrow> err" where
  "os_error code = Msg (''os error '' @ show_nat code)"

section \<open>Processes\<close>

text \<open>The number of a process is looked for in what \<open>tasklist\<close> prints about it.\<close>

definition windows_is_process_alive :: "u32 \<Rightarrow> bool machine" where
  "windows_is_process_alive pid =
     tryE (machine_call (\<lambda>w. (Inr (wm_tasklist w (wm_tick w) pid), w))) (\<lambda>output.
       okE (case output of
              Inl code \<Rightarrow> False
            | Inr (success, stdout) \<Rightarrow> success \<and> contains_str (show_nat (unat pid)) stdout))"

definition open_process :: "u32 \<Rightarrow> win_process machine_call" where
  "open_process pid = machine_call (\<lambda>w.
     (case wm_process w (wm_tick w) pid of None \<Rightarrow> (Inl ERROR_INVALID_PARAMETER, w) | Some p \<Rightarrow> (Inr p, w)))"

definition file_time :: "u32 \<Rightarrow> u32 \<Rightarrow> u64" where
  "file_time high low = (push_bit 32 (ucast high) OR ucast low)"

definition windows_process_identity :: "u32 \<Rightarrow> process_identity option machine" where
  "windows_process_identity pid =
     bindE (windows_is_process_alive pid) (\<lambda>alive.
       if \<not> alive then okE None
       else
         bindE (mapErrE os_error (open_process pid)) (\<lambda>p.
         bindE (mapErrE os_error (machine_call (\<lambda>w. (Inr (wp_image p), w)))) (\<lambda>image.
         bindE (mapErrE os_error (machine_call (\<lambda>w. (Inr image, w)))) (\<lambda>executable.
         bindE (mapErrE os_error (machine_call (\<lambda>w. (Inr (wp_created_high p, wp_created_low p), w)))) (\<lambda>(high, low).
           okE (Some \<lparr>pi_executable = executable, pi_started_at = file_time high low\<rparr>))))))"

definition run_taskkill :: "u32 \<Rightarrow> bool machine" where
  "run_taskkill pid = mapErrE os_error (machine_call (\<lambda>w.
     (Inr (wm_taskkill w (wm_tick w) pid), w\<lparr>wm_killed := wm_killed w @ [pid]\<rparr>)))"

fun windows_wait_until_gone :: "nat \<Rightarrow> u32 \<Rightarrow> bool machine" where
  "windows_wait_until_gone 0 pid = okE False"
| "windows_wait_until_gone (Suc n) pid =
     bindE (windows_is_process_alive pid) (\<lambda>alive. if \<not> alive then okE True else windows_wait_until_gone n pid)"

definition windows_terminate_process :: "u32 \<Rightarrow> unit machine" where
  "windows_terminate_process pid =
     bindE (run_taskkill pid) (\<lambda>success.
     bindE (if success then okE False else windows_is_process_alive pid) (\<lambda>survived.
       if survived then failE (Msg ''taskkill failed for process'')
       else
         bindE (windows_wait_until_gone 20 pid) (\<lambda>gone.
           if gone then okE () else failE (Msg ''process is still alive after taskkill''))))"

section \<open>Accounts\<close>

text \<open>
  \<open>LookupAccountSidW\<close> without buffers always leaves an error: that the buffers are too small when the account
  exists. The parsed SID is a call before it.
\<close>

definition lookup_account :: "string \<Rightarrow> nat machine" where
  "lookup_account sid =
     tryE (machine_call (\<lambda>w. (Inr (if wm_account w (wm_tick w) sid then ERROR_INSUFFICIENT_BUFFER else ERROR_NONE_MAPPED), w)))
       (\<lambda>r. okE (case r of Inl code \<Rightarrow> code | Inr code \<Rightarrow> code))"

definition windows_identity_exists :: "owner_identity \<Rightarrow> bool machine" where
  "windows_identity_exists identity =
     (case identity of
        UnixOwner uid gid \<Rightarrow> okE False
      | WindowsOwner sid \<Rightarrow>
          bindE (mapErrE (\<lambda>_. Msg ''failed to parse owner SID'') (machine_call (\<lambda>w. (Inr sid, w)))) (\<lambda>binary_sid.
          bindE (lookup_account binary_sid) (\<lambda>code.
            if code = ERROR_INSUFFICIENT_BUFFER then okE True
            else if code = ERROR_NONE_MAPPED then okE False
            else failE (Msg ''failed to resolve owner SID''))))"

section \<open>The pipe of the core\<close>

text \<open>A handle to an instance of a pipe is the process that serves it.\<close>

type_synonym pipe_handle = u32

definition open_pipe :: "string \<Rightarrow> pipe_handle machine_call" where
  "open_pipe p = machine_call (\<lambda>w.
     (case wm_pipe_server w (wm_tick w) p of None \<Rightarrow> (Inl ERROR_FILE_NOT_FOUND, w) | Some server \<Rightarrow> (Inr server, w)))"

text \<open>Attempts fifty milliseconds apart; the last one's error counts.\<close>

fun open_pipe_within :: "nat \<Rightarrow> string \<Rightarrow> pipe_handle machine_call" where
  "open_pipe_within 0 p = open_pipe p"
| "open_pipe_within (Suc n) p =
     tryE (open_pipe p) (\<lambda>r. (case r of Inr opened \<Rightarrow> okE opened | Inl code \<Rightarrow> open_pipe_within n p))"

definition pipe_server_process :: "pipe_handle \<Rightarrow> u32 machine_call" where
  "pipe_server_process opened = machine_call (\<lambda>w. (Inr opened, w))"

text \<open>The descriptor is built from its text, then its access list is read and set: three calls.\<close>

definition set_pipe_dacl :: "pipe_handle \<Rightarrow> string \<Rightarrow> unit machine" where
  "set_pipe_dacl opened sddl =
     bindE (mapErrE os_error (machine_call (\<lambda>w. (Inr sddl, w)))) (\<lambda>descriptor.
     bindE (mapErrE (\<lambda>_. Msg ''failed to read owner core IPC DACL'') (machine_call (\<lambda>w. (Inr descriptor, w)))) (\<lambda>dacl.
       mapErrE (\<lambda>_. Msg ''failed to secure core IPC pipe'') (machine_call (\<lambda>w.
         (Inr (), w\<lparr>wm_secured := wm_secured w @ [(opened, dacl)]\<rparr>)))))"

definition windows_secure_core_ipc_socket :: "string \<Rightarrow> owner_identity \<Rightarrow> u32 option \<Rightarrow> unit machine" where
  "windows_secure_core_ipc_socket core_ipc_path owner expected_pid =
     (case owner of
        UnixOwner uid gid \<Rightarrow> failE (Msg ''Windows core IPC path received a non-Windows owner'')
      | WindowsOwner sid \<Rightarrow>
          bindE (mapErrE os_error (open_pipe_within 39 core_ipc_path)) (\<lambda>opened.
          bindE (mapErrE (\<lambda>_. Msg ''failed to identify core IPC pipe server'') (pipe_server_process opened)) (\<lambda>server_pid.
            if Some server_pid \<noteq> expected_pid
            then failE (Msg ''core IPC pipe server PID did not match spawned core PID'')
            else set_pipe_dacl opened (windows_owner_pipe_sddl sid))))"


section \<open>What the calls answer\<close>

lemma machine_call_Inr:
  "machine_call m w = (Inr x, v) \<longleftrightarrow>
     wm_fault w (wm_tick w) = None \<and> m (w\<lparr>wm_tick := Suc (wm_tick w)\<rparr>) = (Inr x, v)"
  by (auto simp: machine_call_def Let_def split: option.splits)

lemma machine_call_Inl:
  "machine_call m w = (Inl k, v) \<longleftrightarrow>
     (case wm_fault w (wm_tick w) of
        Some code \<Rightarrow> k = code \<and> v = w\<lparr>wm_tick := Suc (wm_tick w)\<rparr>
      | None \<Rightarrow> m (w\<lparr>wm_tick := Suc (wm_tick w)\<rparr>) = (Inl k, v))"
  by (auto simp: machine_call_def Let_def split: option.splits)

lemmas machine_calls = machine_call_Inr machine_call_Inl

text \<open>A call that only looks leaves everything but the number of the next call.\<close>

definition looked :: "win_machine \<Rightarrow> win_machine \<Rightarrow> bool" where
  "looked w v \<longleftrightarrow> (\<exists>n\<ge>wm_tick w. v = w\<lparr>wm_tick := n\<rparr>)"

lemma looked_refl: "looked w w"
  by (auto simp: looked_def intro!: exI [of _ "wm_tick w"])

lemma looked_tick: "looked w (w\<lparr>wm_tick := Suc (wm_tick w)\<rparr>)"
  unfolding looked_def by (intro exI [of _ "Suc (wm_tick w)"]) simp

lemma looked_trans: "looked u v \<Longrightarrow> looked v w \<Longrightarrow> looked u w"
  unfolding looked_def
proof (elim exE conjE)
  fix n m
  assume "wm_tick u \<le> n" "v = u\<lparr>wm_tick := n\<rparr>" "wm_tick v \<le> m" "w = v\<lparr>wm_tick := m\<rparr>"
  then show "\<exists>n\<ge>wm_tick u. w = u\<lparr>wm_tick := n\<rparr>" by (intro exI [of _ m]) simp
qed

lemma looked_same:
  assumes "looked w v"
  shows "wm_secured v = wm_secured w" "wm_killed v = wm_killed w" "wm_tick w \<le> wm_tick v"
    "wm_pipe_server v = wm_pipe_server w" "wm_tasklist v = wm_tasklist w" "wm_fault v = wm_fault w"
  using assms by (auto simp: looked_def)

lemma look_call:
  assumes "machine_call (\<lambda>w. (f w, w)) w = (r, v)"
  shows "looked w v"
  using assms
  by (cases r) (auto simp: machine_calls looked_def split: option.splits intro!: exI [of _ "Suc (wm_tick w)"])

section \<open>Processes\<close>

text \<open>No creation time is confused with another.\<close>

lemma file_time_lossless: "file_time (ucast (drop_bit 32 t)) (ucast t) = t"
  unfolding file_time_def by (rule bit_word_eqI) (auto simp: bit_simps)

definition listed_gone :: "win_machine \<Rightarrow> u32 \<Rightarrow> nat \<Rightarrow> bool" where
  "listed_gone w pid t \<longleftrightarrow>
     wm_fault w (t - 1) \<noteq> None \<or> \<not> fst (wm_tasklist w t pid) \<or> \<not> contains_str (show_nat (unat pid)) (snd (wm_tasklist w t pid))"

lemma windows_alive_result:
  assumes "windows_is_process_alive pid w = (r, v)"
  shows "v = w\<lparr>wm_tick := Suc (wm_tick w)\<rparr> \<and> r = Inr (\<not> listed_gone w pid (wm_tick v))"
  using assms
  by (auto simp: windows_is_process_alive_def tryE_eq machine_call_def Let_def okE_def listed_gone_def
      split: option.splits sum.splits prod.splits)

lemma windows_wait_result:
  assumes "windows_wait_until_gone n pid w = (r, v)"
  shows "looked w v \<and> r \<in> range Inr \<and> (r = Inr True \<longrightarrow> (\<exists>t>wm_tick w. listed_gone w pid t))"
  using assms
proof (induction n arbitrary: w)
  case 0
  then show ?case by (auto simp: okE_def looked_refl)
next
  case (Suc n)
  obtain a u where alive: "windows_is_process_alive pid w = (a, u)" by fastforce
  note u = windows_alive_result [OF alive]
  have l: "looked w u" unfolding u [THEN conjunct1] by (rule looked_tick)
  show ?case
  proof (cases "listed_gone w pid (wm_tick u)")
    case True
    with Suc.prems alive u l show ?thesis by (auto simp: bindE_def okE_def)
  next
    case False
    with Suc.prems alive u have rest: "windows_wait_until_gone n pid u = (r, v)" by (auto simp: bindE_def)
    have same: "listed_gone u pid t = listed_gone w pid t" for t
      using looked_same [OF l] by (simp add: listed_gone_def)
    have tick: "wm_tick u = Suc (wm_tick w)" using u by simp
    from Suc.IH [OF rest, unfolded same] l tick show ?thesis
      by (auto intro: looked_trans) (meson Suc_lessD)
  qed
qed

text \<open>A termination that succeeds told the process to end, and saw that it is gone.\<close>

lemma windows_termination_seen:
  assumes "windows_terminate_process pid w = (Inr (), v)"
  shows "wm_killed v = wm_killed w @ [pid] \<and> (\<exists>t>wm_tick w. listed_gone w pid t)"
proof -
  from assms obtain success u where kill: "run_taskkill pid w = (Inr success, u)"
      and rest: "bindE (if success then okE False else windows_is_process_alive pid) (\<lambda>survived.
       if survived then failE (Msg ''taskkill failed for process'')
       else bindE (windows_wait_until_gone 20 pid) (\<lambda>gone.
           if gone then okE () else failE (Msg ''process is still alive after taskkill''))) u = (Inr (), v)"
    unfolding windows_terminate_process_def bindE_Inr [of "run_taskkill pid"] by blast
  from kill have u: "u = w\<lparr>wm_tick := Suc (wm_tick w), wm_killed := wm_killed w @ [pid]\<rparr>"
    by (auto simp: run_taskkill_def machine_call_Inr)
  from rest obtain survived x where look: "(if success then okE False else windows_is_process_alive pid) u = (Inr survived, x)"
      and wait: "(if survived then failE (Msg ''taskkill failed for process'')
       else bindE (windows_wait_until_gone 20 pid) (\<lambda>gone.
           if gone then okE () else failE (Msg ''process is still alive after taskkill''))) x = (Inr (), v)"
    unfolding bindE_Inr by blast
  have x: "looked u x"
    using look windows_alive_result [of pid u "Inr survived" x] looked_tick [of u] by (cases success) (auto simp: looked_refl)
  from wait have "windows_wait_until_gone 20 pid x = (Inr True, v)"
    by (auto simp: bindE_Inr failE_def split: if_splits)
  from windows_wait_result [OF this] obtain t where t: "looked x v" "wm_tick x < t" "listed_gone x pid t" by auto
  from t(3) have "listed_gone w pid t"
    using looked_same [OF x] u by (simp add: listed_gone_def)
  with t looked_same [OF x] looked_same [OF t(1)] u show ?thesis by (auto intro!: exI [of _ t])
qed

text \<open>An account counts as missing only when the system says so.\<close>

lemma windows_account_missing:
  assumes "windows_identity_exists (WindowsOwner sid) w = (Inr False, v)"
  shows "\<exists>t. wm_fault w t = Some ERROR_NONE_MAPPED \<or> \<not> wm_account w t sid"
  using assms
  by (auto simp: windows_identity_exists_def lookup_account_def bindE_def mapErrE_def tryE_eq machine_call_def Let_def okE_def
      failE_def ERROR_INSUFFICIENT_BUFFER_def split: option.splits sum.splits prod.splits if_splits)

section \<open>The pipe of the core\<close>

lemma open_pipe_result:
  assumes "open_pipe p w = (r, v)"
  shows "looked w v \<and> (\<forall>s. r = Inr s \<longrightarrow> (\<exists>t. wm_pipe_server w t p = Some s))"
  using assms
  by (auto simp: open_pipe_def machine_call_def Let_def looked_def split: option.splits intro!: exI [of _ "Suc (wm_tick w)"])

lemma open_pipe_within_result:
  assumes "open_pipe_within n p w = (r, v)"
  shows "looked w v \<and> (\<forall>s. r = Inr s \<longrightarrow> (\<exists>t. wm_pipe_server w t p = Some s))"
  using assms
proof (induction n arbitrary: w)
  case 0
  then show ?case using open_pipe_result by simp
next
  case (Suc n)
  obtain a u where first: "open_pipe p w = (a, u)" by fastforce
  note u = open_pipe_result [OF first]
  show ?case
  proof (cases a)
    case (Inl k)
    with Suc.prems first have "open_pipe_within n p u = (r, v)" by (simp add: tryE_eq)
    from Suc.IH [OF this] u looked_same [of w u] show ?thesis by (auto intro: looked_trans)
  next
    case (Inr s)
    with Suc.prems first u show ?thesis by (auto simp: tryE_eq okE_def)
  qed
qed

lemma set_pipe_dacl_result:
  assumes "set_pipe_dacl h sddl w = (r, v)"
  shows "r = Inr () \<and> wm_secured v = wm_secured w @ [(h, sddl)] \<or> r \<noteq> Inr () \<and> wm_secured v = wm_secured w"
  using assms
  by (auto simp: set_pipe_dacl_def bindE_def mapErrE_def machine_call_def Let_def split: option.splits sum.splits prod.splits)

text \<open>
  C19. On Windows the owner is let into the pipe of the core only: an access list is set at most once, on a pipe that
  the process the service spawned serves, and it names that owner, LocalSystem and the administrators. A pipe that
  somebody else created under the name is left alone and the start fails.
\<close>

theorem core_pipe_is_the_cores:
  assumes "windows_secure_core_ipc_socket p owner expected_pid w = (r, v)"
  shows "r \<noteq> Inr () \<and> wm_secured v = wm_secured w \<or>
    (\<exists>sid server t. r = Inr () \<and> owner = WindowsOwner sid \<and> expected_pid = Some server \<and>
       wm_pipe_server w t p = Some server \<and>
       wm_secured v = wm_secured w @ [(server, windows_owner_pipe_sddl sid)])"
proof (cases owner)
  case (UnixOwner uid gid)
  with assms show ?thesis by (auto simp: windows_secure_core_ipc_socket_def failE_def)
next
  case (WindowsOwner sid)
  obtain a u where opened: "open_pipe_within 39 p w = (a, u)" by fastforce
  note u = open_pipe_within_result [OF opened]
  note same = looked_same [OF u [THEN conjunct1]]
  show ?thesis
  proof (cases a)
    case (Inl k)
    with assms opened WindowsOwner same(1) show ?thesis
      by (auto simp: windows_secure_core_ipc_socket_def bindE_def mapErrE_def)
  next
    case (Inr server)
    obtain b x where asked: "pipe_server_process server u = (b, x)" by fastforce
    then have x: "looked u x" unfolding pipe_server_process_def by (rule look_call)
    have b: "b = Inr server" if "b \<in> range Inr"
      using asked that by (auto simp: pipe_server_process_def machine_call_Inr)
    have run: "mapErrE os_error (open_pipe_within 39 p) w = (Inr server, u)"
      using opened Inr by simp
    show ?thesis
    proof (cases "b = Inr server \<and> expected_pid = Some server")
      case True
      with assms run asked WindowsOwner have "set_pipe_dacl server (windows_owner_pipe_sddl sid) x = (r, v)"
        by (simp add: windows_secure_core_ipc_socket_def bindE_def mapErrE_def)
      from set_pipe_dacl_result [OF this] show ?thesis
        using looked_same(1) [OF x] same(1) u Inr True WindowsOwner by auto
    next
      case False
      with assms run asked WindowsOwner b have "r \<noteq> Inr ()" and "v = x"
        by (cases b; auto simp: windows_secure_core_ipc_socket_def bindE_def mapErrE_def failE_def)+
      with looked_same(1) [OF x] same(1) show ?thesis by simp
    qed
  qed
qed

definition plain_machine :: win_machine where
  "plain_machine =
     \<lparr>wm_tick = 0, wm_fault = \<lambda>_. None, wm_process = \<lambda>_ _. None, wm_tasklist = \<lambda>_ _. (True, ''''),
      wm_taskkill = \<lambda>_ _. True, wm_account = \<lambda>_ _. True,
      wm_pipe_server = \<lambda>t _. if t < 3 then None else Some 77, wm_killed = [], wm_secured = []\<rparr>"

theorem core_pipe_is_the_cores_witness:
  "wm_secured (snd (windows_secure_core_ipc_socket ''core'' (WindowsOwner ''S'') (Some 77) plain_machine)) =
     [(77, windows_owner_pipe_sddl ''S'')]"
proof -
  have look: "open_pipe ''core'' (plain_machine\<lparr>wm_tick := n\<rparr>) =
      (if n < 2 then Inl ERROR_FILE_NOT_FOUND else Inr 77, plain_machine\<lparr>wm_tick := Suc n\<rparr>)" for n
    by (simp add: open_pipe_def machine_call_def plain_machine_def)
  have start: "plain_machine\<lparr>wm_tick := 0\<rparr> = plain_machine" by (simp add: plain_machine_def)
  have "open_pipe_within (Suc (Suc m)) ''core'' plain_machine = (Inr 77, plain_machine\<lparr>wm_tick := 3\<rparr>)" for m
    using look [of 0] look [of 1] look [of 2] by (cases m) (simp_all add: start tryE_eq okE_def numeral_eq_Suc)
  from this [of 37] have "open_pipe_within 39 ''core'' plain_machine = (Inr 77, plain_machine\<lparr>wm_tick := 3\<rparr>)" by simp
  then have "fst (windows_secure_core_ipc_socket ''core'' (WindowsOwner ''S'') (Some 77) plain_machine) = Inr ()"
    by (simp add: windows_secure_core_ipc_socket_def bindE_def mapErrE_def pipe_server_process_def set_pipe_dacl_def
        machine_call_def Let_def) (simp add: plain_machine_def set_pipe_dacl_def bindE_def mapErrE_def machine_call_def)
  then show ?thesis
    using core_pipe_is_the_cores [OF prod.collapse [symmetric], of "''core''" "WindowsOwner ''S''" "Some 77" plain_machine]
    by (auto simp: plain_machine_def)
qed

end
