(* ===== verification/WinLegacy.thy ===== *)
theory WinLegacy
  imports Legacy
begin

text \<open>
  The legacy clean-up on Windows (\<open>src/core/windows_legacy_cleanup.rs\<close>): what LocalSystem owns below the
  owner's application data is removed. Every entry is opened without following a reparse point, and the path that the
  system resolves its handle to has to lie below that of the root.
\<close>

datatype win_tree =
  WinTree (wt_path: string) (wt_directory: bool) (wt_reparse: bool) (wt_disk: bool) (wt_system: bool)
    (wt_entries: "win_tree list")

section \<open>Paths below the root\<close>

definition is_separator :: "char \<Rightarrow> bool" where
  "is_separator c \<longleftrightarrow> c = CHR 0x5C \<or> c = CHR ''/''"

definition trim_end :: "string \<Rightarrow> string" where
  "trim_end s = rev (dropWhile is_separator (rev s))"

definition path_is_below_root :: "string \<Rightarrow> string \<Rightarrow> bool" where
  "path_is_below_root root candidate \<longleftrightarrow>
     (case strip_prefix (map ascii_lower (trim_end root)) (map ascii_lower (trim_end candidate)) of
        None \<Rightarrow> False
      | Some rest \<Rightarrow> (case rest of [] \<Rightarrow> False | c # cs \<Rightarrow> is_separator c))"

section \<open>The walk\<close>

text \<open>
  What is asked of a handle; each question may fail. A deletion answers whether the entry is gone: a directory that
  still holds something stays, which is no failure.
\<close>

definition open_entry :: "faults \<Rightarrow> nat \<Rightarrow> (io_kind + unit) \<times> nat" where
  "open_entry F n = (case F n of Some k \<Rightarrow> (Inl k, n + 1) | None \<Rightarrow> (Inr (), n + 1))"

definition handle_information :: "faults \<Rightarrow> win_tree \<Rightarrow> nat \<Rightarrow> (service_error + bool \<times> bool) \<times> nat" where
  "handle_information F t n =
     (case F n of
        Some k \<Rightarrow> (Inl (cleanup_error (''failed to inspect legacy entry: '' @ io_text k)), n + 1)
      | None \<Rightarrow> (Inr (wt_directory t, wt_reparse t), n + 1))"

definition final_path :: "faults \<Rightarrow> win_tree \<Rightarrow> nat \<Rightarrow> (service_error + string) \<times> nat" where
  "final_path F t n =
     (case F n of
        Some k \<Rightarrow> (Inl (cleanup_error (''failed to resolve legacy entry handle: '' @ io_text k)), n + 1)
      | None \<Rightarrow> (Inr (wt_path t), n + 1))"

definition is_local_system_owned :: "faults \<Rightarrow> win_tree \<Rightarrow> nat \<Rightarrow> (service_error + bool) \<times> nat" where
  "is_local_system_owned F t n =
     (case F n of
        Some k \<Rightarrow> (Inl (cleanup_error ''failed to inspect legacy entry owner''), n + 1)
      | None \<Rightarrow>
          (case F (n + 1) of
             Some k \<Rightarrow> (Inl (cleanup_error (''failed to create LocalSystem SID: '' @ io_text k)), n + 2)
           | None \<Rightarrow> (Inr (wt_system t), n + 2)))"

definition delete_open_entry :: "faults \<Rightarrow> bool \<Rightarrow> bool \<Rightarrow> nat \<Rightarrow> (service_error + bool) \<times> nat" where
  "delete_open_entry F is_directory holds_entries n =
     (case F n of
        Some k \<Rightarrow> (Inl (cleanup_error (''failed to delete SYSTEM-owned legacy entry: '' @ io_text k)), n + 1)
      | None \<Rightarrow> (Inr (\<not> (is_directory \<and> holds_entries)), n + 1))"

text \<open>One entry, up to the decision what to do with it.\<close>

datatype inspection = Vanished | Unusable service_error | Usable bool bool bool

definition inspect_entry :: "faults \<Rightarrow> string \<Rightarrow> win_tree \<Rightarrow> nat \<Rightarrow> inspection \<times> nat" where
  "inspect_entry F root_path t n =
     (case open_entry F n of (opened, n1) \<Rightarrow>
        (case opened of
           Inl k \<Rightarrow> (if k = NotFound then Vanished else Unusable (cleanup_error (''failed to open legacy entry: '' @ io_text k)), n1)
         | Inr _ \<Rightarrow>
             (case final_path F t n1 of (resolved, n2) \<Rightarrow>
                (case resolved of
                   Inl e \<Rightarrow> (Unusable e, n2)
                 | Inr opened_path \<Rightarrow>
                     if \<not> path_is_below_root root_path opened_path then
                       (Unusable (cleanup_error ''legacy entry escaped the authenticated application root''), n2)
                     else
                       (case handle_information F t n2 of (information, n3) \<Rightarrow>
                          (case information of
                             Inl e \<Rightarrow> (Unusable e, n3)
                           | Inr (is_directory, is_reparse) \<Rightarrow>
                               (case is_local_system_owned F t n3 of (owned, n4) \<Rightarrow>
                                  (case owned of
                                     Inl e \<Rightarrow> (Unusable e, n4)
                                   | Inr system_owned \<Rightarrow> (Usable is_directory is_reparse system_owned, n4)))))))))"

function (sequential)
  cleanup_directory :: "faults \<Rightarrow> string \<Rightarrow> win_tree list \<Rightarrow> nat \<Rightarrow> (service_error + unit) \<times> win_tree list \<times> nat"
  and cleanup_all :: "faults \<Rightarrow> string \<Rightarrow> win_tree list \<Rightarrow> nat \<Rightarrow> (service_error + unit) \<times> win_tree list \<times> nat"
  and cleanup_entry :: "faults \<Rightarrow> string \<Rightarrow> win_tree \<Rightarrow> nat \<Rightarrow> (service_error + unit) \<times> win_tree list \<times> nat" where
  "cleanup_directory F root_path entries n =
     (case F n of
        Some k \<Rightarrow> (Inl (cleanup_error (''failed to enumerate legacy directory: '' @ io_text k)), entries, n + 1)
      | None \<Rightarrow> cleanup_all F root_path entries (n + 1))"
| "cleanup_all F root_path [] n = (Inr (), [], n)"
| "cleanup_all F root_path (t # entries) n =
     (case F n of
        Some k \<Rightarrow> (Inl (cleanup_error (''failed to read legacy directory entry: '' @ io_text k)), t # entries, n + 1)
      | None \<Rightarrow>
          (case cleanup_entry F root_path t (n + 1) of (r, left, m) \<Rightarrow>
             (case r of
                Inl e \<Rightarrow> (Inl e, left @ entries, m)
              | Inr _ \<Rightarrow> (case cleanup_all F root_path entries m of (r', rest, m') \<Rightarrow> (r', left @ rest, m')))))"
| "cleanup_entry F root_path (WinTree p directory reparse disk system entries) n =
     (let t = WinTree p directory reparse disk system entries in
      case inspect_entry F root_path t n of (found, m) \<Rightarrow>
      (case found of
         Vanished \<Rightarrow> (Inr (), [t], m)
       | Unusable e \<Rightarrow> (Inl e, [t], m)
       | Usable is_directory is_reparse system_owned \<Rightarrow>
           if is_directory \<and> \<not> is_reparse then
             (case cleanup_directory F root_path entries m of (r, left, m') \<Rightarrow>
                (let t' = WinTree p directory reparse disk system left in
                 case r of
                   Inl e \<Rightarrow> (Inl e, [t'], m')
                 | Inr _ \<Rightarrow>
                     if system_owned then
                       (case delete_open_entry F True (left \<noteq> []) m' of (deleted, m'') \<Rightarrow>
                          (case deleted of
                             Inl e \<Rightarrow> (Inl e, [t'], m'')
                           | Inr gone \<Rightarrow> (Inr (), if gone then [] else [t'], m'')))
                     else (Inr (), [t'], m')))
           else if system_owned \<and> (is_reparse \<or> disk) then
             (case delete_open_entry F False (entries \<noteq> []) m of (deleted, m') \<Rightarrow>
                (case deleted of
                   Inl e \<Rightarrow> (Inl e, [t], m')
                 | Inr gone \<Rightarrow> (Inr (), if gone then [] else [t], m')))
           else (Inr (), [t], m)))"
  by pat_completeness auto

termination
  by (relation "measure (case_sum (\<lambda>(F, d, entries, n). 2 * size_list size entries + 1)
        (case_sum (\<lambda>(F, d, entries, n). 2 * size_list size entries) (\<lambda>(F, d, t, n). 2 * size t)))")
    auto

text \<open>The root is opened and resolved like an entry; its entries are then walked.\<close>

definition cleanup_system_owned_entries :: "faults \<Rightarrow> win_tree \<Rightarrow> nat \<Rightarrow> (service_error + unit) \<times> win_tree list \<times> nat" where
  "cleanup_system_owned_entries F root n =
     (case open_entry F n of (opened, n1) \<Rightarrow>
        (case opened of
           Inl k \<Rightarrow> (Inl (cleanup_error (''failed to open application data root: '' @ io_text k)), wt_entries root, n1)
         | Inr _ \<Rightarrow>
             (case final_path F root n1 of (resolved, n2) \<Rightarrow>
                (case resolved of
                   Inl e \<Rightarrow> (Inl e, wt_entries root, n2)
                 | Inr root_path \<Rightarrow> cleanup_directory F root_path (wt_entries root) n2))))"

section \<open>What is spared\<close>

text \<open>What the walk may not remove: all that LocalSystem does not own, and whatever resolves outside the root.\<close>

function (sequential)
  spared :: "string \<Rightarrow> win_tree \<Rightarrow> win_tree list" and all_spared :: "string \<Rightarrow> win_tree list \<Rightarrow> win_tree list" where
  "spared root_path (WinTree p directory reparse disk system entries) =
     (if \<not> path_is_below_root root_path p then [WinTree p directory reparse disk system entries]
      else if directory \<and> \<not> reparse then
        (if system then [] else [WinTree p directory reparse disk system []]) @ all_spared root_path entries
      else if system \<and> (reparse \<or> disk) then []
      else [WinTree p directory reparse disk system entries])"
| "all_spared root_path [] = []"
| "all_spared root_path (t # entries) = spared root_path t @ all_spared root_path entries"
  by pat_completeness auto

termination
  by (relation "measure (case_sum (\<lambda>(r, t). 2 * size t) (\<lambda>(r, entries). 2 * size_list size entries + 1))") auto

lemma all_spared_append [simp]: "all_spared r (xs @ ys) = all_spared r xs @ all_spared r ys"
  by (induction xs) simp_all

lemmas handle_calls = open_entry_def final_path_def handle_information_def is_local_system_owned_def delete_open_entry_def

lemma windows_walk_spares:
  "cleanup_directory F r entries n = (x, left, m) \<Longrightarrow> all_spared r left = all_spared r entries"
  "cleanup_all F r entries n = (x, left, m) \<Longrightarrow> all_spared r left = all_spared r entries"
  "cleanup_entry F r t n = (x, left, m) \<Longrightarrow> all_spared r left = spared r t"
proof (induction F r entries n and F r entries n and F r t n arbitrary: x left m and x left m and x left m
    rule: cleanup_directory_cleanup_all_cleanup_entry.induct)
  case (3 F r t entries n)
  from "3.prems" "3.IH" show ?case
    by (fastforce split: prod.splits sum.splits option.splits)
next
  case (4 F r p directory reparse disk system entries n)
  have inspected: "is_directory = directory \<and> is_reparse = reparse \<and> system_owned = system \<and> path_is_below_root r p"
    if "inspect_entry F r (WinTree p directory reparse disk system entries) n = (Usable is_directory is_reparse system_owned, k)"
    for is_directory is_reparse system_owned k
    using that by (auto simp: inspect_entry_def handle_calls split: option.splits if_splits prod.splits sum.splits)
  from "4.prems" "4.IH" inspected show ?case
    by (fastforce simp: Let_def delete_open_entry_def split: option.splits if_splits prod.splits sum.splits inspection.splits)
qed (auto split: option.splits)


lemma below_root_separated:
  "path_is_below_root root candidate \<Longrightarrow>
   \<exists>c rest. is_separator c \<and> map ascii_lower (trim_end candidate) = map ascii_lower (trim_end root) @ c # rest"
  by (auto simp: path_is_below_root_def strip_prefix_Some split: option.splits list.splits)

text \<open>
  C28. The Windows clean-up stays below the authenticated root and removes what is LocalSystem's only. Whether it
  succeeds or fails half way, every entry that LocalSystem does not own, and every entry whose handle resolves
  outside the root (to a path that is not the root's followed by a separator, case aside), is where it was, and
  so is all that an entry outside holds.
\<close>

theorem windows_cleanup_spares_others:
  assumes "cleanup_system_owned_entries F root n = (r, left, m)"
  shows "all_spared (wt_path root) left = all_spared (wt_path root) (wt_entries root)"
  using assms windows_walk_spares(1)
  by (auto simp: cleanup_system_owned_entries_def open_entry_def final_path_def simp del: cleanup_directory.simps split: option.splits)

theorem windows_cleanup_spares_others_witness:
  "case cleanup_system_owned_entries (\<lambda>_. None)
       (WinTree ''c:/app'' True False True False [WinTree ''C:/App/old'' False False True True [], WinTree ''c:/app/mine'' False False True False []]) 0
   of (r, left, m) \<Rightarrow> left = [WinTree ''c:/app/mine'' False False True False []] \<and>
     all_spared ''c:/app'' left = [WinTree ''c:/app/mine'' False False True False []]"
proof -
  let ?root = "WinTree ''c:/app'' True False True False [WinTree ''C:/App/old'' False False True True [], WinTree ''c:/app/mine'' False False True False []]"
  obtain r left m where run: "cleanup_system_owned_entries (\<lambda>_. None) ?root 0 = (r, left, m)"
    by (cases "cleanup_system_owned_entries (\<lambda>_. None) ?root 0")
  have left: "fst (snd (cleanup_system_owned_entries (\<lambda>_. None) ?root 0)) = [WinTree ''c:/app/mine'' False False True False []]" and
    spared: "all_spared ''c:/app'' (wt_entries ?root) = [WinTree ''c:/app/mine'' False False True False []]"
    by code_simp+
  from windows_cleanup_spares_others [OF run] spared left run show ?thesis by simp
qed

end
