(* ===== verification/Spec2Isabelle.thy ===== *)
theory Spec2Isabelle
  imports Auth Proxy UnixSecurity Owner Materialize BTree Scenario Refresh Installer WinCore WinLegacy
begin

text \<open>
  The privileged service of Clash Verge Rev (crate \<open>clash-verge-service-ipc\<close>), its client, its installer and its
  uninstaller.

  The program. A desktop application runs as an ordinary user; a proxy core needs privileges. The service runs
  as root or LocalSystem, starts, watches and stops the core for one user at a time, the active owner, and listens on a
  local socket or pipe for requests. A request carries the credentials of its owner; a request that changes the
  running core also proves the session that a start handed out. What an owner gives the service (a configuration,
  files to copy, proxy settings, paths) is untrusted.

  How the code is modelled. A fallible operation on a state is a function \<open>('s, 'e, 'a) op\<close> from a state to an error or
  a value, and the next state (Prelude); \<open>bindE\<close> is the question-mark operator, \<open>tryE\<close> a \<open>match\<close> on a result,
  \<open>mapErrE\<close> is \<open>map_err\<close>, and a \<open>ControlFlow::Break\<close> with a response is a failure whose error is the response.
  The state is the record \<open>world\<close> (World): files, the statics of the process, the settings of the machine, and the
  number of the next call of the operating system. Which calls fail, what other processes do, what time it is and
  how the core behaves are functions of that number in the field \<open>env\<close>, so a theorem about every world is a theorem about
  every pattern of failures. The build (platform, channel) and the functions of libraries outside \<open>src/\<close> (SHA-256,
  the URL parser, the proxy library, the folders of the system) are the parameter \<open>params\<close>; a hypothesis such
  as \<open>proxy_library\<close> states what their documentation promises. Integers are words of the code's width.

  Parts and theories, in the order of their dependence:

  Prelude: integers, results, operations, frame rules, string functions.
  Json, Structure, Paths, World: \<open>core/structure.rs\<close>, \<open>channel.rs\<close>, \<open>lib.rs\<close>, \<open>core/command.rs\<close>,
  \<open>core/paths.rs\<close>, \<open>core/state.rs\<close>, \<open>core/atomic_file.rs\<close>, and what the standard library asks of the system.
  Auth, Proxy, UnixSecurity: \<open>core/auth.rs\<close>, \<open>core/proxy.rs\<close>, \<open>core/unix_security.rs\<close>.
  StateFiles, Desired: the persisted records of \<open>core/desired.rs\<close>. The locale \<open>state_codec\<close> is the interface between
  the atomic file operations and the records; each record interprets it.
  BTree, Assets, Staging, Materialize, Generation: \<open>core/runtime_generation\<close>: which names and sources a bundle may
  use, the plan that turns a bundle into copies and deletions, its execution, the directories of a generation.
  Processes, Maintenance, Owner: \<open>core/process.rs\<close>, \<open>core/runtime.rs\<close>, \<open>core/reconcile.rs\<close>,
  \<open>core/maintenance.rs\<close>, \<open>core/owner.rs\<close>, \<open>core/repair.rs\<close>.
  CoreIpc, Manager, Supervision, Recovery, Footprint: \<open>core/manager.rs\<close>. The watchdog task is a state machine whose
  step is one round of its loop; \<open>manager_step\<close> interleaves rounds with starts and stops.
  Live, Refresh: the refresh of a running core (\<open>staging.rs\<close>), restoration (\<open>core/desired.rs\<close>), \<open>core/status.rs\<close>.
  Legacy, Transition, Server: \<open>core/legacy_cleanup.rs\<close> and the handlers of \<open>core/server.rs\<close>. The trait
  \<open>OwnerProxyTransition\<close> is the locale \<open>owner_proxy_steps\<close>, interpreted by the steps of a start request.
  Neutral, Sessions, Requests, Service: what each operation does to the session, and the service as a machine
  (\<open>service_step\<close>: one request or one round of a watchdog), which refines the abstract machine \<open>session_spec\<close> in
  two interpretations of the locale \<open>stepwise_refinement\<close>.
  Scenario: a session that a stop request ends, evaluated on concrete data; it witnesses the theorems about sessions.
  Listener: the listener, its supervisor, and the daemon \<open>bin/service.rs\<close>.
  Client, Installer: \<open>client/mod.rs\<close>, \<open>client/windows_identity.rs\<close>, the router, \<open>bin/install_service.rs\<close>,
  \<open>bin/uninstall_service.rs\<close>, \<open>bin/shared/mod.rs\<close> and the templates in \<open>resources\<close>.
  WinSecurity, WinCore, WinLegacy: the Windows branches of file security, processes, accounts, the core's pipe and
  the legacy clean-up, each with the objects of Windows it works on as its state.

  What the theorems show.

  Sessions. Requests and watchdog rounds in any order, with any failures, only begin, count and end sessions as the
  abstract machine does (C1); the gate accepts exactly the proof of the active session (C4), a proof that is stale
  stays refused and a refused request has no effect (C3); what a start (C5) and a stop (C6) leave behind, and the form of
  the stored record (C7, C40).
  The core. Every unreaped child is held by exactly one place (C2); a crash loop is given up (C8), a watchdog that was
  told to stop ends (C9), the old core that startup signals is the recorded one (C15), the service's lock is taken
  over from a dead owner only (C16), the core's socket or pipe is prepared and handed to its owner only (C17 to C19).
  The runtime. Destinations stay inside their generation (C13), the plan copies and deletes what it should (C14), a
  failed start leaves the old configuration and no operation touches foreign files (C11, C12), a live refresh
  commits last and to the planned core (C10), planning leaves the active generation as it was (C34).
  Callers. Accepted owners are who they say (C20, C21), a client's call reaches its handler unchanged (C22), version
  answers and the gate agree (C23), every call is answered (C24), the status is private to its owner and honest
  (C36), a log snapshot is a bounded suffix of the log (C37), accepted proxy settings are loopback (C38) and the
  outcome of applying them is told truthfully (C39).
  The machine. The installer replaces the binary only by a verified copy and starts it after that (C25), its
  readiness wait ends (C26), the clean-ups spare what is not theirs (C27, C28, C35), the private directories are
  private (C29, C30), the listener's crash loop is given up (C31), a shutdown leaves nothing behind (C32), and only the
  wanted core is restored (C33).

  Bounds. Loops with a fixed number of attempts are recursions on that number, as in the code: forty looks at the core's
  socket or pipe, ten or twenty at a process, twenty at the health of an owner, two hundred polls of a service. The
  watchdog's loop is unbounded in the code; a stop awaits it for eight rounds (\<open>DRAIN_ROUNDS\<close>), and C9 shows that
  eight are enough when the restart window does not pass meanwhile. A core that exits whenever it is looked at
  is given up within 26 rounds (C8), a listener at its eleventh exit in ten seconds (C31). The readiness wait of the
  installer is a \<open>partial_function\<close>; that it returns is proved from the progress of the clock (C26). Walks of trees
  recurse on their size.

  Not modelled, and why.

  The transport, HTTP, time-outs and retries of \<open>kode_bridge\<close>, the text of JSON documents (serde_json), log files and
  their rotation (flexi_logger), and what systemctl, launchctl, chmod and chown do: code that is not in the
  repository. A request arrives decoded, a file holds a value.
  Concurrency inside a handler: \<open>OWNER_LIFECYCLE_LOCK\<close>, the lock of the manager and \<open>DESIRED_STATE_LOCK\<close> make an
  operation one step; watchdog rounds, the core and the system act between the calls or steps. The tree of the owner that
  the legacy clean-up walks does not change during the walk.
  What the core prints, and the tasks that copy it to the log.
  On Windows: the lock files of the service and of its maintenance, the registration with the service
  dispatcher, and the folder look-up of \<open>core/paths.rs\<close>; the requests on a Windows service share the model of Unix
  where the code does.
  The \<open>test\<close> feature (\<open>core/test_credentials.rs\<close>, overrides of limits) and the programs that only tests run.
\<close>

end
